(* ===== verification/Go_Prelude.thy ===== *)
theory Go_Prelude
  imports Main "HOL-Library.Word"
begin

text \<open>
  The vocabulary every component shares: the Go types the sources use (strings, byte slices,
  64-bit integers, time stamps, maps), errors as message texts, decimal formatting as
  \<^verbatim>\<open>fmt.Sprintf("%d")\<close> does it, the heap of task objects that pointers refer to, and
  generic lemmas on words, lists and maps.

  \<^item> A Go \<^verbatim>\<open>string\<close> is a sequence of bytes, a HOL \<open>string\<close> (a \<open>char\<close> is a byte).
  \<^item> A \<^verbatim>\<open>[]byte\<close> is \<open>None\<close> when it is nil and \<open>Some\<close> of its bytes otherwise.
  \<^item> \<^verbatim>\<open>int\<close>, \<^verbatim>\<open>int64\<close> and \<^verbatim>\<open>uint64\<close> are 64-bit words; \<open>sint\<close> reads the signed ones.
  \<^item> \<^verbatim>\<open>time.Time\<close> is the number of nanoseconds since the Unix epoch. A function that reads the
    clock takes a \<open>clock\<close>: \<open>clk i\<close> is what its \<open>i\<close>-th call of \<^verbatim>\<open>time.Now()\<close> returned.
  \<^item> An \<^verbatim>\<open>error\<close> is the text its \<^verbatim>\<open>Error()\<close> method returns (nothing under src/ compares
    errors in any other way, apart from io.EOF); a result \<^verbatim>\<open>(T, error)\<close> is \<open>error + T\<close>.
\<close>

section \<open>Types\<close>

type_synonym error = string
type_synonym 'a result = "error + 'a"
type_synonym byte = "8 word"
type_synonym bytes = "byte list option"
type_synonym u64 = "64 word"
type_synonym goint = "64 word"
type_synonym time = int
type_synonym clock = "nat \<Rightarrow> time"
type_synonym addr = nat

text \<open>A run-time panic, next to a normal return, for the functions where one is possible.\<close>

datatype 'a outcome = Return 'a | Panic string

named_theorems lock_simps \<open>evaluation of the lock operations and of calls under a lock\<close>

section \<open>Time\<close>

text \<open>The zero \<^verbatim>\<open>time.Time\<close> is the start of year 1; \<^verbatim>\<open>time.Since\<close> saturates at the range of a duration.\<close>

definition zero_time :: time where
  "zero_time = - 62135596800000000000"

definition since :: "time \<Rightarrow> time \<Rightarrow> int" where
  "since now t = max (- (2 ^ 63)) (min (2 ^ 63 - 1) (now - t))"

text \<open>\<^verbatim>\<open>t.Unix()\<close>, the time in whole seconds.\<close>

definition unix_seconds :: "time \<Rightarrow> 64 word" where
  "unix_seconds t = of_int (t div 1000000000)"

section \<open>Decimal formatting\<close>

definition digit :: "nat \<Rightarrow> char" where
  "digit d = char_of (48 + d)"

fun show_nat :: "nat \<Rightarrow> string" where
  "show_nat n = (if n < 10 then [digit n] else show_nat (n div 10) @ [digit (n mod 10)])"

declare show_nat.simps [simp del]

definition show_int :: "int \<Rightarrow> string" where
  "show_int i = (if i < 0 then CHR ''-'' # show_nat (nat (- i)) else show_nat (nat i))"

definition digit_val :: "char \<Rightarrow> nat" where
  "digit_val c = of_char c - 48"

definition read_nat :: "string \<Rightarrow> nat" where
  "read_nat s = foldl (\<lambda>acc c. 10 * acc + digit_val c) 0 s"

lemma digit_val_digit [simp]: "d < 10 \<Longrightarrow> digit_val (digit d) = d"
  by (simp add: digit_val_def digit_def of_char_of)

lemma digit_neq_minus [simp]: "d < 10 \<Longrightarrow> digit d \<noteq> CHR ''-''"
proof
  assume "d < 10" and "digit d = CHR ''-''"
  then have "(of_char (digit d) :: nat) = of_char CHR ''-''" by simp
  with \<open>d < 10\<close> show False by (simp add: digit_def of_char_of)
qed

lemma read_nat_snoc: "read_nat (s @ [c]) = 10 * read_nat s + digit_val c"
  by (simp add: read_nat_def)

lemma read_nat_show_nat [simp]: "read_nat (show_nat n) = n"
proof (induction n rule: show_nat.induct)
  case (1 n)
  show ?case
  proof (cases "n < 10")
    case True
    then show ?thesis by (simp add: show_nat.simps [of n] read_nat_def)
  next
    case False
    with 1 have "read_nat (show_nat (n div 10)) = n div 10" by simp
    with False show ?thesis
      by (simp add: show_nat.simps [of n] read_nat_snoc)
  qed
qed

lemma show_nat_inject [simp]: "show_nat m = show_nat n \<longleftrightarrow> m = n"
  by (metis read_nat_show_nat)

lemma show_nat_not_Nil [simp]: "show_nat n \<noteq> []"
  by (subst show_nat.simps) simp

lemma show_nat_no_minus: "CHR ''-'' \<notin> set (show_nat n)"
proof (induction n rule: show_nat.induct)
  case (1 n)
  have "CHR ''-'' \<noteq> digit (n mod 10)" by (rule not_sym) simp
  with 1 show ?case by (auto simp: show_nat.simps [of n] simp del: digit_neq_minus)
qed

definition byte_of :: "char \<Rightarrow> nat" where
  "byte_of c = of_char c"

definition is_digit :: "char \<Rightarrow> bool" where
  "is_digit c \<longleftrightarrow> 48 \<le> byte_of c \<and> byte_of c \<le> 57"

lemma is_digit_digit [simp]: "d < 10 \<Longrightarrow> is_digit (digit d)"
  by (simp add: is_digit_def byte_of_def digit_def of_char_of)

lemma show_nat_digits: "list_all is_digit (show_nat n)"
proof (induction n rule: show_nat.induct)
  case (1 n)
  then show ?case by (subst show_nat.simps) simp
qed

text \<open>
  Splitting at the last separator: two texts \<open>p @ sep @ s\<close> whose tails are free of the
  separator are equal only if the parts are.
\<close>

lemma append_sep_inject:
  assumes "p @ c # s = p' @ c # s'" and "c \<notin> set s" and "c \<notin> set s'"
  shows "p = p' \<and> s = s'"
proof -
  have tail: "takeWhile (\<lambda>x. x \<noteq> c) (rev (q @ c # t)) = rev t" if "c \<notin> set t" for q t
    using that by (auto simp: takeWhile_append)
  from tail [of s p] tail [of s' p'] assms have "s = s'" by simp
  with assms(1) show ?thesis by simp
qed

section \<open>Byte slices and strings\<close>

definition bytes_of_string :: "string \<Rightarrow> byte list" where
  "bytes_of_string s = map of_char s"

section \<open>Iteration over a Go map\<close>

text \<open>
  \<^verbatim>\<open>for k := range m\<close> visits each key once, in an order the language leaves open. A function
  that ranges over a map takes that order as an argument, and \<open>range_order m ks\<close> says that
  \<open>ks\<close> is one of the possible orders; \<^verbatim>\<open>len(m)\<close> is then \<open>length ks\<close>.
\<close>

definition range_order :: "('k \<rightharpoonup> 'v) \<Rightarrow> 'k list \<Rightarrow> bool" where
  "range_order m ks \<longleftrightarrow> distinct ks \<and> set ks = dom m"

lemma range_order_Nil [simp]: "range_order m [] \<longleftrightarrow> m = Map.empty"
  by (auto simp: range_order_def)

lemma range_order_finite: "range_order m ks \<Longrightarrow> finite (dom m)"
  unfolding range_order_def by (metis List.finite_set)

lemma range_order_exists: "finite (dom m) \<Longrightarrow> \<exists>ks. range_order m ks"
  unfolding range_order_def by (metis finite_distinct_list)

lemma range_order_nth_dom:
  "range_order m ks \<Longrightarrow> i < length ks \<Longrightarrow> ks ! i \<in> dom m"
  unfolding range_order_def by (metis nth_mem)

section \<open>Words and lists\<close>

lemma unat_of_nat_u64: "n < 2 ^ 64 \<Longrightarrow> unat (of_nat n :: u64) = n"
  by (simp add: unsigned_of_nat take_bit_nat_eq_self)

lemma of_nat_unat_u64: "of_nat (unat w) = (w :: u64)"
  by simp

lemma sint_of_nat_int: "n < 2 ^ 63 \<Longrightarrow> sint (of_nat n :: goint) = int n"
  by (simp add: signed_of_nat signed_take_bit_int_eq_self)

lemma nat_sint_bound: "nat (sint (p :: goint)) < 2 ^ 63"
  using sint_lt [of p] by simp

lemma unat_sint_nonneg:
  assumes "0 \<le> sint (p :: goint)"
  shows "unat p = nat (sint p)"
proof -
  have "nat (sint p) < 2 ^ 64" using nat_sint_bound [of p] by simp
  then have "unat (of_nat (nat (sint p)) :: u64) = nat (sint p)" by (rule unat_of_nat_u64)
  with assms show ?thesis by simp
qed

text \<open>How many of the numbers below \<open>N\<close> leave remainder \<open>j\<close>: the load of a round-robin deal.\<close>

lemma card_mod_class:
  assumes "j < L"
  shows "card {i. i < N \<and> i mod L = j} = N div L + of_bool (j < N mod L)"
proof (induction N)
  case 0
  then show ?case by simp
next
  case (Suc N)
  have "{i. i < Suc N \<and> i mod L = j} =
      {i. i < N \<and> i mod L = j} \<union> (if N mod L = j then {N} else {})"
    by (auto simp: less_Suc_eq)
  then have "card {i. i < Suc N \<and> i mod L = j} =
      card {i. i < N \<and> i mod L = j} + of_bool (N mod L = j)"
    by simp
  with Suc assms show ?case by (auto simp: div_Suc mod_Suc)
qed

lemma drop_eq_filter_index:
  assumes "\<And>i. i < length xs \<Longrightarrow> P (xs ! i) \<longleftrightarrow> k \<le> i"
  shows "drop k xs = filter P xs"
proof -
  have "filter P (take k xs) = []"
    using assms by (fastforce simp: filter_empty_conv in_set_conv_nth)
  moreover have "filter P (drop k xs) = drop k xs"
    using assms by (fastforce simp: filter_id_conv in_set_conv_nth)
  moreover have "filter P xs = filter P (take k xs) @ filter P (drop k xs)"
    by (metis append_take_drop_id filter_append)
  ultimately show ?thesis by simp
qed

end
