(* ===== verification/Task_Model.thy ===== *)
theory Task_Model
  imports Go_Prelude
begin

text \<open>
  The task component: \<^verbatim>\<open>src/internal/task/state.go\<close> (states and the transition table) and
  \<^verbatim>\<open>src/internal/task/task.go\<close> (the task record, \<^verbatim>\<open>NewTask\<close>, \<^verbatim>\<open>TransitionTo\<close>,
  \<^verbatim>\<open>CanRetry\<close>, \<^verbatim>\<open>Copy\<close>). The inductive relation \<open>transition\<close> restates the code's table, one
  rule per accepted pair, for use in the other theories; it is not the diagram of
  \<^verbatim>\<open>src/docs/execution-model.md\<close>, which has more states and an edge out of FAILED. The lemmas relate the
  table-driven checks of the code to it and give the invariant of a task over its whole life.
\<close>

section \<open>States (state.go)\<close>

type_synonym State = string

definition StatePending :: State where "StatePending = ''PENDING''"
definition StateScheduled :: State where "StateScheduled = ''SCHEDULED''"
definition StateDispatched :: State where "StateDispatched = ''DISPATCHED''"
definition StateCompleted :: State where "StateCompleted = ''COMPLETED''"
definition StateFailed :: State where "StateFailed = ''FAILED''"
definition StateCancelled :: State where "StateCancelled = ''CANCELLED''"

lemmas state_defs = StatePending_def StateScheduled_def StateDispatched_def StateCompleted_def
  StateFailed_def StateCancelled_def

definition AllStates :: "State list" where
  "AllStates =
     [StatePending, StateScheduled, StateDispatched, StateCompleted, StateFailed, StateCancelled]"

definition IsValidState :: "State \<Rightarrow> bool" where
  "IsValidState s \<longleftrightarrow> list_ex (\<lambda>valid. s = valid) AllStates"

definition validTransitions :: "State \<rightharpoonup> State list" where
  "validTransitions =
     [StatePending \<mapsto> [StateScheduled, StateCancelled],
      StateScheduled \<mapsto> [StateDispatched, StateCancelled],
      StateDispatched \<mapsto> [StateCompleted, StateFailed, StatePending],
      StateCompleted \<mapsto> [],
      StateFailed \<mapsto> [],
      StateCancelled \<mapsto> []]"

definition CanTransition :: "State \<Rightarrow> State \<Rightarrow> error option" where
  "CanTransition from to =
     (if \<not> IsValidState from then Some (''invalid from state: '' @ from)
      else if \<not> IsValidState to then Some (''invalid to state: '' @ to)
      else case validTransitions from of
             None \<Rightarrow> Some (''unknown from state: '' @ from)
           | Some allowed \<Rightarrow>
               if list_ex (\<lambda>valid. valid = to) allowed then None
               else Some (''invalid transition from '' @ from @ '' to '' @ to))"

definition IsTerminal :: "State \<Rightarrow> bool" where
  "IsTerminal s \<longleftrightarrow> s = StateCompleted \<or> s = StateFailed \<or> s = StateCancelled"

definition IsTerminalFailure :: "State \<Rightarrow> bool" where
  "IsTerminalFailure s \<longleftrightarrow> s = StateFailed \<or> s = StateCancelled"

section \<open>Tasks (task.go)\<close>

record Task =
  ID :: string
  WorkflowID :: string
  Name :: string
  State :: State
  Payload :: bytes
  Result :: bytes
  Error :: string
  PartitionID :: goint
  Attempts :: goint
  MaxAttempts :: goint
  CreatedAt :: time
  UpdatedAt :: time
  DispatchedAt :: "time option"
  CompletedAt :: "time option"

definition NewTask :: "clock \<Rightarrow> string \<Rightarrow> string \<Rightarrow> string \<Rightarrow> bytes \<Rightarrow> Task" where
  "NewTask clk taskID workflowID name payload =
     (let now = clk 0 in
      \<lparr>ID = taskID, WorkflowID = workflowID, Name = name, State = StatePending, Payload = payload,
       Result = None, Error = [], PartitionID = 0, Attempts = 0, MaxAttempts = 3,
       CreatedAt = now, UpdatedAt = now, DispatchedAt = None, CompletedAt = None\<rparr>)"

definition TransitionTo :: "clock \<Rightarrow> Task \<Rightarrow> State \<Rightarrow> error option \<times> Task" where
  "TransitionTo clk t newState =
     (case CanTransition (State t) newState of
        Some err \<Rightarrow> (Some err, t)
      | None \<Rightarrow>
          let t' = t\<lparr>State := newState, UpdatedAt := clk 0\<rparr> in
          (None,
           if newState = StateDispatched
           then t'\<lparr>DispatchedAt := Some (clk 1), Attempts := Attempts t' + 1\<rparr>
           else if newState = StateCompleted then t'\<lparr>CompletedAt := Some (clk 1)\<rparr>
           else t'))"

definition CanRetry :: "Task \<Rightarrow> bool" where
  "CanRetry t \<longleftrightarrow> sint (Attempts t) < sint (MaxAttempts t) \<and> IsTerminalFailure (State t)"

text \<open>
  \<open>Copy\<close> on values: a byte slice is copied element by element into a new array, a time pointer
  into a new cell.
\<close>

definition Copy :: "Task \<Rightarrow> Task" where
  "Copy t =
     (let result = t;
          result = (case Result t of Some bs \<Rightarrow> result\<lparr>Result := Some (map id bs)\<rparr> | None \<Rightarrow> result);
          result = (case Payload t of Some bs \<Rightarrow> result\<lparr>Payload := Some (map id bs)\<rparr> | None \<Rightarrow> result);
          result = (case DispatchedAt t of Some d \<Rightarrow> result\<lparr>DispatchedAt := Some d\<rparr> | None \<Rightarrow> result);
          result = (case CompletedAt t of Some c \<Rightarrow> result\<lparr>CompletedAt := Some c\<rparr> | None \<Rightarrow> result)
      in result)"

section \<open>The accepted transitions as a relation\<close>

inductive transition :: "State \<Rightarrow> State \<Rightarrow> bool" where
  schedule: "transition StatePending StateScheduled"
| cancel_pending: "transition StatePending StateCancelled"
| dispatch: "transition StateScheduled StateDispatched"
| cancel_scheduled: "transition StateScheduled StateCancelled"
| complete: "transition StateDispatched StateCompleted"
| failure: "transition StateDispatched StateFailed"
| retry: "transition StateDispatched StatePending"

text \<open>A life of a task as its callers can produce it: created, then moved by \<open>TransitionTo\<close>.\<close>

fun run_task :: "Task \<Rightarrow> (clock \<times> State) list \<Rightarrow> error option \<times> Task" where
  "run_task t [] = (None, t)"
| "run_task t ((clk, s) # rest) =
     (case TransitionTo clk t s of
        (Some err, t') \<Rightarrow> (Some err, t')
      | (None, t') \<Rightarrow> run_task t' rest)"

definition task_inv :: "Task \<Rightarrow> bool" where
  "task_inv t \<longleftrightarrow>
     IsValidState (State t) \<and>
     (State t \<in> {StateDispatched, StateCompleted, StateFailed} \<longrightarrow> DispatchedAt t \<noteq> None) \<and>
     (CompletedAt t \<noteq> None \<longleftrightarrow> State t = StateCompleted)"

section \<open>The table and the relation\<close>

lemma state_distinct [simp]:
  "StatePending \<noteq> StateScheduled" "StatePending \<noteq> StateDispatched" "StatePending \<noteq> StateCompleted"
  "StatePending \<noteq> StateFailed" "StatePending \<noteq> StateCancelled"
  "StateScheduled \<noteq> StatePending" "StateScheduled \<noteq> StateDispatched" "StateScheduled \<noteq> StateCompleted"
  "StateScheduled \<noteq> StateFailed" "StateScheduled \<noteq> StateCancelled"
  "StateDispatched \<noteq> StatePending" "StateDispatched \<noteq> StateScheduled" "StateDispatched \<noteq> StateCompleted"
  "StateDispatched \<noteq> StateFailed" "StateDispatched \<noteq> StateCancelled"
  "StateCompleted \<noteq> StatePending" "StateCompleted \<noteq> StateScheduled" "StateCompleted \<noteq> StateDispatched"
  "StateCompleted \<noteq> StateFailed" "StateCompleted \<noteq> StateCancelled"
  "StateFailed \<noteq> StatePending" "StateFailed \<noteq> StateScheduled" "StateFailed \<noteq> StateDispatched"
  "StateFailed \<noteq> StateCompleted" "StateFailed \<noteq> StateCancelled"
  "StateCancelled \<noteq> StatePending" "StateCancelled \<noteq> StateScheduled" "StateCancelled \<noteq> StateDispatched"
  "StateCancelled \<noteq> StateCompleted" "StateCancelled \<noteq> StateFailed"
  by (simp_all add: state_defs)

lemma state_nonempty [simp]:
  "StatePending \<noteq> []" "StateScheduled \<noteq> []" "StateDispatched \<noteq> []" "StateCompleted \<noteq> []"
  "StateFailed \<noteq> []" "StateCancelled \<noteq> []"
  by (simp_all add: state_defs)

lemma IsValidState_iff: "IsValidState s \<longleftrightarrow> s \<in> set AllStates"
  by (auto simp: IsValidState_def list_ex_iff)

lemma IsValidState_cases [consumes 1]:
  assumes "IsValidState s"
  obtains "s = StatePending" | "s = StateScheduled" | "s = StateDispatched"
    | "s = StateCompleted" | "s = StateFailed" | "s = StateCancelled"
  using assms by (auto simp: IsValidState_iff AllStates_def)

lemma IsValidState_states [simp]:
  "IsValidState StatePending" "IsValidState StateScheduled" "IsValidState StateDispatched"
  "IsValidState StateCompleted" "IsValidState StateFailed" "IsValidState StateCancelled"
  by (simp_all add: IsValidState_iff AllStates_def)

lemma IsValidState_nonempty: "IsValidState s \<Longrightarrow> s \<noteq> []"
  by (erule IsValidState_cases) auto

inductive_simps transition_from [simp]:
  "transition StatePending s" "transition StateScheduled s" "transition StateDispatched s"
  "transition StateCompleted s" "transition StateFailed s" "transition StateCancelled s"

inductive_cases transition_toE:
  "transition s StateDispatched" "transition s StateCompleted" "transition s StateFailed"

lemma transition_valid: "transition s s' \<Longrightarrow> IsValidState s \<and> IsValidState s'"
  by (erule transition.cases) simp_all

lemma validTransitions_dom: "IsValidState s \<Longrightarrow> \<exists>xs. validTransitions s = Some xs"
  by (erule IsValidState_cases) (simp_all add: validTransitions_def)

lemma CanTransition_None_iff [simp]: "CanTransition s s' = None \<longleftrightarrow> transition s s'"
proof (cases "IsValidState s \<and> IsValidState s'")
  case True
  then have "IsValidState s" "IsValidState s'" by simp_all
  from this(1) show ?thesis using \<open>IsValidState s'\<close>
    by (cases rule: IsValidState_cases) (auto simp: CanTransition_def validTransitions_def)
next
  case False
  then show ?thesis by (auto simp: CanTransition_def dest: transition_valid)
qed

lemma CanTransition_ok [simp]: "transition s s' \<Longrightarrow> CanTransition s s' = None"
  by (subst CanTransition_None_iff)

lemma CanTransition_Some_iff: "(\<exists>err. CanTransition s s' = Some err) \<longleftrightarrow> \<not> transition s s'"
  by (metis CanTransition_None_iff not_None_eq)

lemma IsTerminal_no_transition: "IsTerminal s \<Longrightarrow> \<not> transition s s'"
  by (auto simp: IsTerminal_def)

lemma nonterminal_transition: "IsValidState s \<Longrightarrow> \<not> IsTerminal s \<Longrightarrow> \<exists>s'. transition s s'"
  by (erule IsValidState_cases) (auto simp: IsTerminal_def)

section \<open>Task operations\<close>

lemma Copy_id [simp]: "Copy t = t"
  by (cases t) (simp add: Copy_def Let_def split: option.splits)

lemma NewTask_simps [simp]:
  "ID (NewTask clk i w n p) = i" "WorkflowID (NewTask clk i w n p) = w"
  "Name (NewTask clk i w n p) = n" "State (NewTask clk i w n p) = StatePending"
  "Payload (NewTask clk i w n p) = p" "Result (NewTask clk i w n p) = None"
  "Error (NewTask clk i w n p) = []" "PartitionID (NewTask clk i w n p) = 0"
  "Attempts (NewTask clk i w n p) = 0" "MaxAttempts (NewTask clk i w n p) = 3"
  "CreatedAt (NewTask clk i w n p) = clk 0" "UpdatedAt (NewTask clk i w n p) = clk 0"
  "DispatchedAt (NewTask clk i w n p) = None" "CompletedAt (NewTask clk i w n p) = None"
  by (simp_all add: NewTask_def Let_def)

lemma TransitionTo_error:
  "\<not> transition (State t) s \<Longrightarrow> TransitionTo clk t s = (CanTransition (State t) s, t)"
  by (auto simp: TransitionTo_def split: option.splits)

lemma TransitionTo_None_iff [simp]: "fst (TransitionTo clk t s) = None \<longleftrightarrow> transition (State t) s"
  by (cases "transition (State t) s")
    (simp add: TransitionTo_def Let_def, simp add: TransitionTo_error CanTransition_Some_iff)

lemma TransitionTo_frame [simp]:
  "ID (snd (TransitionTo clk t s)) = ID t"
  "WorkflowID (snd (TransitionTo clk t s)) = WorkflowID t"
  "Name (snd (TransitionTo clk t s)) = Name t"
  "Payload (snd (TransitionTo clk t s)) = Payload t"
  "Result (snd (TransitionTo clk t s)) = Result t"
  "Error (snd (TransitionTo clk t s)) = Error t"
  "PartitionID (snd (TransitionTo clk t s)) = PartitionID t"
  "MaxAttempts (snd (TransitionTo clk t s)) = MaxAttempts t"
  "CreatedAt (snd (TransitionTo clk t s)) = CreatedAt t"
  by (auto simp: TransitionTo_def Let_def split: option.splits)

lemma TransitionTo_effect:
  assumes "transition (State t) s"
  shows "State (snd (TransitionTo clk t s)) = s"
    and "UpdatedAt (snd (TransitionTo clk t s)) = clk 0"
    and "DispatchedAt (snd (TransitionTo clk t s)) =
      (if s = StateDispatched then Some (clk 1) else DispatchedAt t)"
    and "CompletedAt (snd (TransitionTo clk t s)) =
      (if s = StateCompleted then Some (clk 1) else CompletedAt t)"
    and "Attempts (snd (TransitionTo clk t s)) = Attempts t + of_bool (s = StateDispatched)"
  using assms by (simp_all add: TransitionTo_def Let_def)

lemma TransitionTo_state_cases:
  "State (snd (TransitionTo clk t s)) = State t \<or>
   transition (State t) (State (snd (TransitionTo clk t s)))"
  by (cases "transition (State t) s") (simp_all add: TransitionTo_effect TransitionTo_error)

lemma task_inv_NewTask [simp]: "task_inv (NewTask clk i w n p)"
  by (simp add: task_inv_def)

lemma task_inv_TransitionTo:
  assumes "task_inv t"
  shows "task_inv (snd (TransitionTo clk t s))"
proof (cases "transition (State t) s")
  case True
  from assms have "IsValidState (State t)" by (simp add: task_inv_def)
  then show ?thesis using True assms
    by (cases rule: IsValidState_cases) (auto simp: task_inv_def TransitionTo_effect)
next
  case False
  then show ?thesis using assms by (simp add: TransitionTo_error)
qed

lemma run_task_append:
  "run_task t (xs @ ys) =
     (case run_task t xs of (Some err, t') \<Rightarrow> (Some err, t') | (None, t') \<Rightarrow> run_task t' ys)"
  by (induction xs arbitrary: t) (auto split: option.splits prod.splits)

lemma run_task_inv: "task_inv t \<Longrightarrow> task_inv (snd (run_task t xs))"
proof (induction xs arbitrary: t)
  case Nil
  then show ?case by simp
next
  case (Cons x xs)
  obtain clk s where x: "x = (clk, s)" by force
  from Cons.prems have "task_inv (snd (TransitionTo clk t s))" by (rule task_inv_TransitionTo)
  with Cons.IH x show ?case by (auto split: option.splits prod.splits)
qed

lemma run_task_unchanged:
  assumes "\<And>clk t s. f (snd (TransitionTo clk t s)) = f t"
  shows "f (snd (run_task t xs)) = f t"
proof (induction xs arbitrary: t)
  case Nil
  then show ?case by simp
next
  case (Cons x xs)
  obtain clk s where x: "x = (clk, s)" by force
  with Cons.IH assms [of clk t s] show ?case by (auto split: option.splits prod.splits)
qed

lemma run_task_frame [simp]:
  "ID (snd (run_task t xs)) = ID t" "WorkflowID (snd (run_task t xs)) = WorkflowID t"
  "Name (snd (run_task t xs)) = Name t" "Payload (snd (run_task t xs)) = Payload t"
  by (rule run_task_unchanged, simp)+

lemma run_task_attempts:
  assumes "run_task t xs = (None, t')"
  shows "Attempts t' = Attempts t + of_nat (length (filter (\<lambda>x. snd x = StateDispatched) xs))"
  using assms
proof (induction xs arbitrary: t)
  case Nil
  then show ?case by simp
next
  case (Cons x xs)
  obtain clk s where x: "x = (clk, s)" by force
  with Cons.prems obtain u where u: "TransitionTo clk t s = (None, u)" "run_task u xs = (None, t')"
    by (auto split: option.splits prod.splits)
  then have "transition (State t) s" by (metis TransitionTo_None_iff fst_conv)
  from TransitionTo_effect(5) [OF this, of clk] u(1)
  have "Attempts u = Attempts t + of_bool (s = StateDispatched)" by simp
  with Cons.IH [OF u(2)] x show ?case by auto
qed

section \<open>Properties of the task component\<close>

text \<open>\<^verbatim>\<open>CanTransition\<close> returns nil exactly for the pairs of the table, and otherwise the error names the invalid
  source, the invalid target or the pair.\<close>
lemma transition_table_correct:
  "CanTransition s s' =
     (if \<not> IsValidState s then Some (''invalid from state: '' @ s)
      else if \<not> IsValidState s' then Some (''invalid to state: '' @ s')
      else if transition s s' then None
      else Some (''invalid transition from '' @ s @ '' to '' @ s'))"
proof (cases "transition s s'")
  case True
  then show ?thesis using transition_valid by fastforce
next
  case False
  then have "CanTransition s s' \<noteq> None" by simp
  then show ?thesis
    using False validTransitions_dom [of s]
    by (auto simp: CanTransition_def split: option.splits if_splits)
qed

text \<open>The terminal states are exactly the valid states from which every transition is refused.\<close>
lemma terminal_iff_stuck:
  "IsTerminal s \<longleftrightarrow> IsValidState s \<and> (\<forall>s'. CanTransition s s' \<noteq> None)"
proof
  assume "IsTerminal s"
  then show "IsValidState s \<and> (\<forall>s'. CanTransition s s' \<noteq> None)"
    using IsTerminal_no_transition by (auto simp: IsTerminal_def)
next
  assume "IsValidState s \<and> (\<forall>s'. CanTransition s s' \<noteq> None)"
  then show "IsTerminal s" using nonterminal_transition by auto
qed

lemma accepted_rel: "(\<lambda>a b. CanTransition a b = None) = transition"
  by (simp add: fun_eq_iff)

lemma reachable_states: "transition\<^sup>*\<^sup>* StatePending s \<longleftrightarrow> IsValidState s"
proof
  assume "transition\<^sup>*\<^sup>* StatePending s"
  then show "IsValidState s" by (induction rule: rtranclp_induct) (auto dest: transition_valid)
next
  have sch: "transition\<^sup>*\<^sup>* StatePending StateScheduled" by (rule r_into_rtranclp) simp
  then have dis: "transition\<^sup>*\<^sup>* StatePending StateDispatched" by (rule rtranclp.rtrancl_into_rtrancl) simp
  assume "IsValidState s"
  then show "transition\<^sup>*\<^sup>* StatePending s"
    by (cases rule: IsValidState_cases) (use sch dis in \<open>auto intro: rtranclp.rtrancl_into_rtrancl\<close>)
qed

lemma terminal_reachable: "(\<exists>s'. IsTerminal s' \<and> transition\<^sup>*\<^sup>* s s') \<longleftrightarrow> IsValidState s"
proof
  assume "\<exists>s'. IsTerminal s' \<and> transition\<^sup>*\<^sup>* s s'"
  then obtain s' where "IsTerminal s'" "transition\<^sup>*\<^sup>* s s'" by blast
  from this(2,1) show "IsValidState s"
    by (cases rule: converse_rtranclpE) (auto simp: IsTerminal_def dest: transition_valid)
next
  assume "IsValidState s"
  moreover have "\<exists>s'. IsTerminal s' \<and> transition\<^sup>*\<^sup>* s s'" if "transition s s1" "IsTerminal s1" for s1
    using that by blast
  moreover have "\<exists>s'. IsTerminal s' \<and> transition\<^sup>*\<^sup>* s s'" if "IsTerminal s" using that by blast
  ultimately show "\<exists>s'. IsTerminal s' \<and> transition\<^sup>*\<^sup>* s s'"
    by (cases rule: IsValidState_cases) (auto simp: IsTerminal_def)
qed

text \<open>C29: the separate functions of the state machine agree, for every string: \<^verbatim>\<open>IsTerminal\<close> holds exactly of the valid
  states from which \<^verbatim>\<open>CanTransition\<close> refuses every move; the valid states of \<^verbatim>\<open>AllStates\<close> are exactly those that
  accepted moves reach from PENDING, and exactly those from which accepted moves reach a terminal state,
  so none is unreachable and none is a dead end; \<^verbatim>\<open>IsTerminalFailure\<close> holds of the terminal states but
  COMPLETED.\<close>
theorem state_machine_consistent:
  "(IsTerminal s \<longleftrightarrow> IsValidState s \<and> (\<forall>s'. CanTransition s s' \<noteq> None)) \<and>
   (IsValidState s \<longleftrightarrow> (\<lambda>a b. CanTransition a b = None)\<^sup>*\<^sup>* StatePending s) \<and>
   (IsValidState s \<longleftrightarrow> (\<exists>s'. IsTerminal s' \<and> (\<lambda>a b. CanTransition a b = None)\<^sup>*\<^sup>* s s')) \<and>
   (IsTerminalFailure s \<longleftrightarrow> IsTerminal s \<and> s \<noteq> StateCompleted)"
  unfolding accepted_rel reachable_states terminal_reachable using terminal_iff_stuck [of s]
  by (auto simp: IsTerminal_def IsTerminalFailure_def)

text \<open>Over any life of a task its state is one of the six states, it carries a dispatch time
  whenever it is dispatched, completed or failed, and a completion time exactly when it is
  completed; the identity of the task never changes.\<close>
lemma task_life_invariant:
  assumes "run_task (NewTask clk i w n p) xs = (err, t)"
  shows "IsValidState (State t) \<and>
    (State t \<in> {StateDispatched, StateCompleted, StateFailed} \<longrightarrow> DispatchedAt t \<noteq> None) \<and>
    (CompletedAt t \<noteq> None \<longleftrightarrow> State t = StateCompleted) \<and>
    ID t = i \<and> WorkflowID t = w \<and> Name t = n \<and> Payload t = p"
  using run_task_inv [OF task_inv_NewTask, of clk i w n p xs] assms
    run_task_frame [of "NewTask clk i w n p" xs] by (simp add: task_inv_def)

text \<open>The attempt counter of a task is the number of times it was dispatched.\<close>
lemma attempts_count_dispatches:
  assumes "run_task (NewTask clk i w n p) xs = (None, t)"
  shows "Attempts t = of_nat (length (filter (\<lambda>x. snd x = StateDispatched) xs))"
  using run_task_attempts [OF assms] by simp

text \<open>C30: whenever \<^verbatim>\<open>CanRetry\<close> says that a task can be retried, every transition of that task is
  refused and leaves it as it is, so the retry cannot take place through the state machine.\<close>
theorem can_retry_implies_stuck:
  assumes "CanRetry t"
  shows "\<exists>err. TransitionTo clk t s = (Some err, t)"
proof -
  from assms have "\<not> transition (State t) s" by (auto simp: CanRetry_def IsTerminalFailure_def)
  then show ?thesis using CanTransition_Some_iff [of "State t" s] by (auto simp: TransitionTo_error)
qed

theorem can_retry_implies_stuck_witness:
  "\<exists>t err. run_task (NewTask (\<lambda>_. 5) ''t'' ''w'' ''n'' None)
       [(\<lambda>_. 6, StateScheduled), (\<lambda>_. 7, StateDispatched), (\<lambda>_. 8, StateFailed)] = (None, t) \<and> CanRetry t \<and>
     TransitionTo (\<lambda>_. 9) t StateScheduled = (Some err, t)"
proof -
  let ?xs = "[(\<lambda>_. 6, StateScheduled), (\<lambda>_. 7, StateDispatched), (\<lambda>_. 8, StateFailed)] :: (clock \<times> State) list"
  define t where "t = snd (run_task (NewTask (\<lambda>_. 5) ''t'' ''w'' ''n'' None) ?xs)"
  have r: "run_task (NewTask (\<lambda>_. 5) ''t'' ''w'' ''n'' None) ?xs = (None, t)"
    by (simp add: t_def TransitionTo_def Let_def)
  have "CanRetry t"
    by (simp add: t_def TransitionTo_def Let_def CanRetry_def IsTerminalFailure_def)
  with can_retry_implies_stuck [OF this, of "\<lambda>_. 9" StateScheduled] r show ?thesis by blast
qed

definition retry_cycle :: "clock \<Rightarrow> (clock \<times> State) list" where
  "retry_cycle clk = [(clk, StateScheduled), (clk, StateDispatched), (clk, StatePending)]"

lemma run_retry_cycle:
  assumes "State t = StatePending"
  shows "\<exists>t'. run_task t (retry_cycle clk) = (None, t') \<and> State t' = StatePending \<and>
    MaxAttempts t' = MaxAttempts t"
  using assms by (simp add: retry_cycle_def TransitionTo_def Let_def)

text \<open>The attempt limit is never enforced: a task can be scheduled, dispatched and returned to PENDING any
  number of times, although its limit of attempts is 3.\<close>
lemma retries_unbounded:
  "\<exists>t. run_task (NewTask clk i w n p) (concat (replicate k (retry_cycle clk))) = (None, t) \<and>
     State t = StatePending \<and> Attempts t = of_nat k \<and> MaxAttempts t = 3"
proof -
  have "\<exists>t'. run_task t (concat (replicate k (retry_cycle clk))) = (None, t') \<and> State t' = StatePending \<and>
      MaxAttempts t' = MaxAttempts t" if "State t = StatePending" for t
    using that
  proof (induction k arbitrary: t)
    case 0
    then show ?case by simp
  next
    case (Suc k)
    from run_retry_cycle [OF Suc.prems, of clk] obtain u where
      "run_task t (retry_cycle clk) = (None, u)" "State u = StatePending" "MaxAttempts u = MaxAttempts t"
      by auto
    with Suc.IH [of u] show ?case by (simp add: run_task_append)
  qed
  from this [of "NewTask clk i w n p"] obtain t where
    t: "run_task (NewTask clk i w n p) (concat (replicate k (retry_cycle clk))) = (None, t)"
      "State t = StatePending" "MaxAttempts t = 3" by auto
  have "length (filter (\<lambda>x. snd x = StateDispatched) (concat (replicate k (retry_cycle clk)))) = k"
    by (induction k) (simp_all add: retry_cycle_def)
  with run_task_attempts [OF t(1)] t show ?thesis by simp
qed

end
