(* ===== verification/Wal_Log.thy ===== *)
theory Wal_Log
  imports Go_Prelude
begin

text \<open>
  The write-ahead log, \<^verbatim>\<open>src/internal/wal/wal.go\<close>: the \<^verbatim>\<open>Logger\<close> interface, its two
  implementations \<^verbatim>\<open>InMemoryLogger\<close> and \<^verbatim>\<open>NoOpLogger\<close>, and the laws their clients use.

  A Go interface value is a method table and the data it works on. The method table of
  \<^verbatim>\<open>wal.Logger\<close> is the record \<open>Logger\<close> over a type \<open>'w\<close> of logger states, and the locales
  \<open>wal_logger\<close> and \<open>durable_wal\<close> state what a client may rely on: the first holds for both
  implementations, the second (every accepted entry is kept in order, \<^verbatim>\<open>Replay\<close> returns what
  is not yet committed) for \<^verbatim>\<open>InMemoryLogger\<close>.
\<close>

section \<open>Entries and the interface\<close>

record Entry =
  Sequence :: u64
  TaskID :: string
  EntryWorkflowID :: string
  EntryState :: string
  Data :: bytes
  Timestamp :: time
  Committed :: bool

record 'w Logger =
  Append :: "time \<Rightarrow> Entry \<Rightarrow> 'w \<Rightarrow> u64 result \<times> 'w"
  Replay :: "'w \<Rightarrow> Entry list result"
  CheckpointLog :: "u64 \<Rightarrow> 'w \<Rightarrow> error option \<times> 'w"
  CloseLog :: "'w \<Rightarrow> error option \<times> 'w"

section \<open>InMemoryLogger\<close>

record InMemoryLogger =
  entries :: "Entry list"
  sequence :: u64
  committed :: u64

definition NewInMemoryLogger :: InMemoryLogger where
  "NewInMemoryLogger = \<lparr>entries = [], sequence = 0, committed = 0\<rparr>"

definition InMemoryLogger_Append ::
    "time \<Rightarrow> Entry \<Rightarrow> InMemoryLogger \<Rightarrow> u64 result \<times> InMemoryLogger" where
  "InMemoryLogger_Append now entry l =
     (if TaskID entry = [] then (Inl ''task_id is required'', l)
      else if EntryWorkflowID entry = [] then (Inl ''workflow_id is required'', l)
      else if EntryState entry = [] then (Inl ''state is required'', l)
      else
        let l = l\<lparr>sequence := sequence l + 1\<rparr>;
            entry = entry\<lparr>Sequence := sequence l, Timestamp := now, Committed := False\<rparr>;
            l = l\<lparr>entries := entries l @ [entry]\<rparr>
        in (Inr (sequence l), l))"

definition InMemoryLogger_Replay :: "InMemoryLogger \<Rightarrow> Entry list result" where
  "InMemoryLogger_Replay l =
     (if committed l \<ge> of_nat (length (entries l)) then Inr []
      else Inr (drop (unat (committed l)) (entries l)))"

definition InMemoryLogger_Checkpoint ::
    "u64 \<Rightarrow> InMemoryLogger \<Rightarrow> error option \<times> InMemoryLogger" where
  "InMemoryLogger_Checkpoint seq l =
     (if seq > sequence l
      then (Some (''checkpoint sequence '' @ show_nat (unat seq) @
                  '' exceeds latest sequence '' @ show_nat (unat (sequence l))), l)
      else (None, l\<lparr>committed := seq\<rparr>))"

definition InMemoryLogger_Close :: "InMemoryLogger \<Rightarrow> error option \<times> InMemoryLogger" where
  "InMemoryLogger_Close l = (None, l\<lparr>entries := []\<rparr>)"

definition GetAll :: "InMemoryLogger \<Rightarrow> Entry list" where
  "GetAll l = map id (entries l)"

definition GetCommittedCount :: "InMemoryLogger \<Rightarrow> u64" where
  "GetCommittedCount l = committed l"

definition InMemoryLogger_methods :: "InMemoryLogger Logger" where
  "InMemoryLogger_methods =
     \<lparr>Append = InMemoryLogger_Append, Replay = InMemoryLogger_Replay,
      CheckpointLog = InMemoryLogger_Checkpoint, CloseLog = InMemoryLogger_Close\<rparr>"

section \<open>NoOpLogger\<close>

datatype NoOpLogger = NewNoOpLogger

definition NoOpLogger_Append :: "time \<Rightarrow> Entry \<Rightarrow> NoOpLogger \<Rightarrow> u64 result \<times> NoOpLogger" where
  "NoOpLogger_Append now entry l = (Inr 0, l)"

definition NoOpLogger_Replay :: "NoOpLogger \<Rightarrow> Entry list result" where
  "NoOpLogger_Replay l = Inr []"

definition NoOpLogger_Checkpoint :: "u64 \<Rightarrow> NoOpLogger \<Rightarrow> error option \<times> NoOpLogger" where
  "NoOpLogger_Checkpoint seq l = (None, l)"

definition NoOpLogger_Close :: "NoOpLogger \<Rightarrow> error option \<times> NoOpLogger" where
  "NoOpLogger_Close l = (None, l)"

definition NoOpLogger_methods :: "NoOpLogger Logger" where
  "NoOpLogger_methods =
     \<lparr>Append = NoOpLogger_Append, Replay = NoOpLogger_Replay,
      CheckpointLog = NoOpLogger_Checkpoint, CloseLog = NoOpLogger_Close\<rparr>"

section \<open>An interface value of either implementation\<close>

text \<open>The loggers the sources can put into a variable of type \<^verbatim>\<open>wal.Logger\<close>.\<close>

datatype WalLogger = InMemory InMemoryLogger | NoOp NoOpLogger

fun WalLogger_Append :: "time \<Rightarrow> Entry \<Rightarrow> WalLogger \<Rightarrow> u64 result \<times> WalLogger" where
  "WalLogger_Append now entry (InMemory l) = map_prod id InMemory (InMemoryLogger_Append now entry l)"
| "WalLogger_Append now entry (NoOp l) = map_prod id NoOp (NoOpLogger_Append now entry l)"

fun WalLogger_Replay :: "WalLogger \<Rightarrow> Entry list result" where
  "WalLogger_Replay (InMemory l) = InMemoryLogger_Replay l"
| "WalLogger_Replay (NoOp l) = NoOpLogger_Replay l"

fun WalLogger_Checkpoint :: "u64 \<Rightarrow> WalLogger \<Rightarrow> error option \<times> WalLogger" where
  "WalLogger_Checkpoint seq (InMemory l) = map_prod id InMemory (InMemoryLogger_Checkpoint seq l)"
| "WalLogger_Checkpoint seq (NoOp l) = map_prod id NoOp (NoOpLogger_Checkpoint seq l)"

fun WalLogger_Close :: "WalLogger \<Rightarrow> error option \<times> WalLogger" where
  "WalLogger_Close (InMemory l) = map_prod id InMemory (InMemoryLogger_Close l)"
| "WalLogger_Close (NoOp l) = map_prod id NoOp (NoOpLogger_Close l)"

definition WalLogger_methods :: "WalLogger Logger" where
  "WalLogger_methods =
     \<lparr>Append = WalLogger_Append, Replay = WalLogger_Replay,
      CheckpointLog = WalLogger_Checkpoint, CloseLog = WalLogger_Close\<rparr>"

section \<open>Contracts\<close>

definition entry_ok :: "Entry \<Rightarrow> bool" where
  "entry_ok e \<longleftrightarrow> TaskID e \<noteq> [] \<and> EntryWorkflowID e \<noteq> [] \<and> EntryState e \<noteq> []"

definition stamped :: "u64 \<Rightarrow> time \<Rightarrow> Entry \<Rightarrow> Entry" where
  "stamped seq now e = e\<lparr>Sequence := seq, Timestamp := now, Committed := False\<rparr>"

lemma stamped_simps [simp]:
  "Sequence (stamped seq now e) = seq" "TaskID (stamped seq now e) = TaskID e"
  "EntryWorkflowID (stamped seq now e) = EntryWorkflowID e"
  "EntryState (stamped seq now e) = EntryState e" "Data (stamped seq now e) = Data e"
  "Timestamp (stamped seq now e) = now" "Committed (stamped seq now e) = False"
  by (simp_all add: stamped_def)

locale wal_logger =
  fixes L :: "'w Logger" and wf :: "'w \<Rightarrow> bool"
  assumes append_accepts: "wf w \<Longrightarrow> entry_ok e \<Longrightarrow> \<exists>seq. fst (Append L now e w) = Inr seq"
    and append_wf: "wf w \<Longrightarrow> wf (snd (Append L now e w))"
    and append_rejects: "fst (Append L now e w) = Inl err \<Longrightarrow> snd (Append L now e w) = w"
    and checkpoint_wf: "wf w \<Longrightarrow> wf (snd (CheckpointLog L seq w))"
begin

lemma append_cases:
  assumes "wf w" and "entry_ok e"
  obtains seq w' where "Append L now e w = (Inr seq, w')" and "wf w'"
  using append_accepts [OF assms, of now] append_wf [OF assms(1), of now e]
  by (metis prod.collapse)

end

text \<open>
  A durable logger also has an abstract state: the entries in the order of their acceptance and
  the sequence number up to which they are committed.
\<close>

locale durable_wal = wal_logger L wf
  for L :: "'w Logger" and wf :: "'w \<Rightarrow> bool" +
  fixes log :: "'w \<Rightarrow> Entry list" and upto :: "'w \<Rightarrow> u64"
  assumes append_log: "wf w \<Longrightarrow> Append L now e w = (Inr seq, w') \<Longrightarrow>
      seq = of_nat (Suc (length (log w))) \<and> log w' = log w @ [stamped seq now e] \<and> upto w' = upto w"
    and replay_log: "wf w \<Longrightarrow> length (log w) < 2 ^ 64 \<Longrightarrow>
      Replay L w = Inr (filter (\<lambda>e. upto w < Sequence e) (log w))"
    and checkpoint_log: "log (snd (CheckpointLog L seq w)) = log w"
    and checkpoint_upto: "wf w \<Longrightarrow> seq \<le> of_nat (length (log w)) \<Longrightarrow>
      fst (CheckpointLog L seq w) = None \<and> upto (snd (CheckpointLog L seq w)) = seq"
    and upto_bound: "wf w \<Longrightarrow> length (log w) < 2 ^ 64 \<Longrightarrow> upto w \<le> of_nat (length (log w))"
begin

text \<open>What a client sees: an accepted entry is the last one replayed, after what was replayed before.\<close>

lemma replay_append:
  assumes "wf w" and "Append L now e w = (Inr seq, w')" and len: "Suc (length (log w)) < 2 ^ 64"
    and "Replay L w = Inr xs"
  shows "Replay L w' = Inr (xs @ [stamped seq now e])"
proof -
  note a = append_log [OF assms(1,2)]
  have "upto w \<le> of_nat (length (log w))" using upto_bound assms(1) len by simp
  moreover have "(of_nat (length (log w)) :: u64) < of_nat (Suc (length (log w)))"
    using len by (simp only: word_less_nat_alt unat_of_nat_u64 Suc_lessD)
  ultimately have "upto w < seq" using a by (metis order_le_less_trans)
  moreover have "wf w'" using append_wf [OF assms(1), of now e] assms(2) by simp
  ultimately show ?thesis
    using replay_log [of w'] replay_log [of w] assms a by auto
qed

lemma replay_checkpoint:
  assumes "wf w" and "seq \<le> of_nat (length (log w))" and "length (log w) < 2 ^ 64"
  shows "Replay L (snd (CheckpointLog L seq w)) = Inr (filter (\<lambda>e. seq < Sequence e) (log w))"
  using assms replay_log [OF checkpoint_wf [OF assms(1), of seq]] checkpoint_log checkpoint_upto
  by simp

end

section \<open>InMemoryLogger meets the durable contract\<close>

definition wal_inv :: "InMemoryLogger \<Rightarrow> bool" where
  "wal_inv l \<longleftrightarrow>
     sequence l = of_nat (length (entries l)) \<and>
     (\<forall>i < length (entries l). Sequence (entries l ! i) = of_nat (Suc i)) \<and>
     (\<forall>e \<in> set (entries l). entry_ok e \<and> \<not> Committed e) \<and>
     (length (entries l) < 2 ^ 64 \<longrightarrow> unat (committed l) \<le> length (entries l))"

lemma wal_inv_New [simp]: "wal_inv NewInMemoryLogger"
  by (simp add: wal_inv_def NewInMemoryLogger_def)

lemma InMemoryLogger_Append_ok:
  "entry_ok e \<Longrightarrow> InMemoryLogger_Append now e l =
     (Inr (sequence l + 1),
      l\<lparr>sequence := sequence l + 1, entries := entries l @ [stamped (sequence l + 1) now e]\<rparr>)"
  by (simp add: InMemoryLogger_Append_def entry_ok_def stamped_def Let_def)

lemma InMemoryLogger_Append_bad:
  "\<not> entry_ok e \<Longrightarrow> \<exists>err. InMemoryLogger_Append now e l = (Inl err, l)"
  by (auto simp: InMemoryLogger_Append_def entry_ok_def)

lemma wal_inv_Append: "wal_inv l \<Longrightarrow> wal_inv (snd (InMemoryLogger_Append now e l))"
proof (cases "entry_ok e")
  case True
  assume inv: "wal_inv l"
  have "Sequence ((entries l @ [stamped (sequence l + 1) now e]) ! i) = of_nat (Suc i)"
    if "i < Suc (length (entries l))" for i
    using that inv by (cases "i = length (entries l)") (auto simp: wal_inv_def nth_append)
  then show ?thesis using inv True
    by (auto simp: InMemoryLogger_Append_ok wal_inv_def entry_ok_def)
next
  case False
  assume "wal_inv l"
  with InMemoryLogger_Append_bad [OF False, of now l] show ?thesis by auto
qed

lemma wal_inv_Checkpoint: "wal_inv l \<Longrightarrow> wal_inv (snd (InMemoryLogger_Checkpoint seq l))"
  by (auto simp: InMemoryLogger_Checkpoint_def wal_inv_def not_less word_le_nat_alt unat_of_nat_u64)

lemma wal_inv_uncommitted_iff:
  assumes "wal_inv l" and "length (entries l) < 2 ^ 64" and "i < length (entries l)"
  shows "c < Sequence (entries l ! i) \<longleftrightarrow> unat c \<le> i"
proof -
  have "Sequence (entries l ! i) = of_nat (Suc i)" using assms by (simp add: wal_inv_def)
  moreover have "unat (of_nat (Suc i) :: u64) = Suc i"
    using assms by (intro unat_of_nat_u64) simp
  ultimately show ?thesis by (simp add: word_less_nat_alt less_Suc_eq_le)
qed

lemma InMemoryLogger_Replay_eq:
  assumes "wal_inv l" and "length (entries l) < 2 ^ 64"
  shows "InMemoryLogger_Replay l = Inr (filter (\<lambda>e. committed l < Sequence e) (entries l))"
proof -
  have "drop (unat (committed l)) (entries l) = filter (\<lambda>e. committed l < Sequence e) (entries l)"
    by (rule drop_eq_filter_index) (rule wal_inv_uncommitted_iff [OF assms])
  moreover have "drop (unat (committed l)) (entries l) = []"
    if "of_nat (length (entries l)) \<le> committed l"
    using that assms(2) by (simp add: word_le_nat_alt unat_of_nat_u64)
  ultimately show ?thesis by (auto simp: InMemoryLogger_Replay_def)
qed

interpretation imem: durable_wal InMemoryLogger_methods wal_inv entries committed
proof (unfold_locales, goal_cases)
  case (1 w e now)
  then show ?case by (simp add: InMemoryLogger_methods_def InMemoryLogger_Append_ok)
next
  case (2 w now e)
  then show ?case by (simp add: InMemoryLogger_methods_def wal_inv_Append)
next
  case (3 now e w err)
  then show ?case
    by (cases "entry_ok e")
      (auto simp: InMemoryLogger_methods_def InMemoryLogger_Append_ok
        dest: InMemoryLogger_Append_bad [of _ now w])
next
  case (4 w seq)
  then show ?case by (simp add: InMemoryLogger_methods_def wal_inv_Checkpoint)
next
  case (5 w now e seq w')
  then have "entry_ok e" using InMemoryLogger_Append_bad [of e now w]
    by (auto simp: InMemoryLogger_methods_def)
  with 5 show ?case
    by (auto simp: InMemoryLogger_methods_def InMemoryLogger_Append_ok wal_inv_def)
next
  case (6 w)
  then show ?case by (simp add: InMemoryLogger_methods_def InMemoryLogger_Replay_eq)
next
  case (7 seq w)
  then show ?case by (simp add: InMemoryLogger_methods_def InMemoryLogger_Checkpoint_def)
next
  case (8 w seq)
  then show ?case
    by (auto simp: InMemoryLogger_methods_def InMemoryLogger_Checkpoint_def wal_inv_def)
next
  case (9 w)
  then show ?case
    by (simp add: wal_inv_def word_le_nat_alt unat_of_nat_u64)
qed

interpretation nolog: wal_logger NoOpLogger_methods "\<lambda>_. True"
  by unfold_locales
    (simp_all add: NoOpLogger_methods_def NoOpLogger_Append_def NoOpLogger_Checkpoint_def)

fun WalLogger_wf :: "WalLogger \<Rightarrow> bool" where
  "WalLogger_wf (InMemory l) = wal_inv l"
| "WalLogger_wf (NoOp l) = True"

interpretation anylog: wal_logger WalLogger_methods WalLogger_wf
proof (unfold_locales, goal_cases)
  case (1 w e now)
  then show ?case
    by (cases w) (simp_all add: WalLogger_methods_def InMemoryLogger_Append_ok NoOpLogger_Append_def)
next
  case (2 w now e)
  then show ?case
    by (cases w) (simp_all add: WalLogger_methods_def wal_inv_Append)
next
  case (3 now e w err)
  then show ?case
    using imem.append_rejects [of now e]
    by (cases w) (auto simp: WalLogger_methods_def InMemoryLogger_methods_def NoOpLogger_Append_def)
next
  case (4 w seq)
  then show ?case by (cases w) (simp_all add: WalLogger_methods_def wal_inv_Checkpoint)
qed

text \<open>An interface value that holds an \<^verbatim>\<open>InMemoryLogger\<close> is durable, seen through the interface.\<close>

fun WalLogger_durable :: "WalLogger \<Rightarrow> bool" where
  "WalLogger_durable (InMemory l) = wal_inv l"
| "WalLogger_durable (NoOp l) = False"

fun WalLogger_log :: "WalLogger \<Rightarrow> Entry list" where
  "WalLogger_log (InMemory l) = entries l"
| "WalLogger_log (NoOp l) = []"

fun WalLogger_upto :: "WalLogger \<Rightarrow> u64" where
  "WalLogger_upto (InMemory l) = committed l"
| "WalLogger_upto (NoOp l) = 0"

interpretation durlog: durable_wal WalLogger_methods WalLogger_durable WalLogger_log WalLogger_upto
proof (unfold_locales, goal_cases)
  case (1 w e now)
  then show ?case by (cases w) (simp_all add: WalLogger_methods_def InMemoryLogger_Append_ok)
next
  case (2 w now e)
  then show ?case by (cases w) (simp_all add: WalLogger_methods_def wal_inv_Append)
next
  case (3 now e w err)
  then show ?case by (rule anylog.append_rejects)
next
  case (4 w seq)
  then show ?case by (cases w) (simp_all add: WalLogger_methods_def wal_inv_Checkpoint)
next
  case (5 w now e seq w')
  then obtain l where w: "w = InMemory l" by (cases w) auto
  with 5(2) obtain l' where l': "w' = InMemory l'" "InMemoryLogger_Append now e l = (Inr seq, l')"
    by (auto simp: WalLogger_methods_def map_prod_def split: prod.splits)
  with 5(1) w imem.append_log [of l now e seq l'] show ?case
    by (simp add: InMemoryLogger_methods_def)
next
  case (6 w)
  then show ?case by (cases w) (simp_all add: WalLogger_methods_def InMemoryLogger_Replay_eq)
next
  case (7 seq w)
  then show ?case
    by (cases w) (simp_all add: WalLogger_methods_def InMemoryLogger_Checkpoint_def)
next
  case (8 w seq)
  then obtain l where "w = InMemory l" by (cases w) auto
  with 8 imem.checkpoint_upto [of l seq] show ?case
    by (simp add: WalLogger_methods_def InMemoryLogger_methods_def)
next
  case (9 w)
  then obtain l where "w = InMemory l" by (cases w) auto
  with 9 imem.upto_bound [of l] show ?case by simp
qed

section \<open>Reachable logs\<close>

inductive wal_reach :: "InMemoryLogger \<Rightarrow> bool" where
  new: "wal_reach NewInMemoryLogger"
| append: "wal_reach l \<Longrightarrow> wal_reach (snd (InMemoryLogger_Append now e l))"
| checkpoint: "wal_reach l \<Longrightarrow> wal_reach (snd (InMemoryLogger_Checkpoint seq l))"

lemma wal_reach_inv: "wal_reach l \<Longrightarrow> wal_inv l"
  by (induction rule: wal_reach.induct) (simp_all add: wal_inv_Append wal_inv_Checkpoint)

section \<open>Properties of the write-ahead log\<close>

text \<open>C14: on every log that appends and checkpoints can produce, \<^verbatim>\<open>Replay\<close> succeeds and returns
  exactly the entries whose sequence number is above the last checkpoint, in the order in which
  they were appended; the entries are numbered 1, 2, 3 and so on.\<close>
theorem replay_returns_uncommitted:
  assumes "wal_reach l" and "length (entries l) < 2 ^ 64"
  shows "InMemoryLogger_Replay l = Inr (filter (\<lambda>e. committed l < Sequence e) (GetAll l)) \<and>
    map Sequence (GetAll l) = map (\<lambda>i. of_nat (Suc i)) [0 ..< length (entries l)]"
proof -
  have inv: "wal_inv l" by (rule wal_reach_inv [OF assms(1)])
  have "map Sequence (entries l) = map (\<lambda>i. of_nat (Suc i)) [0 ..< length (entries l)]"
    using inv by (intro nth_equalityI) (simp_all add: wal_inv_def)
  then show ?thesis using InMemoryLogger_Replay_eq [OF inv assms(2)] by (simp add: GetAll_def)
qed

theorem replay_returns_uncommitted_witness:
  "let e = \<lparr>Sequence = 0, TaskID = ''t'', EntryWorkflowID = ''w'', EntryState = ''PENDING'',
            Data = None, Timestamp = 0, Committed = False\<rparr>;
       l = snd (InMemoryLogger_Append 5 e (snd (InMemoryLogger_Append 4 e NewInMemoryLogger)));
       l' = snd (InMemoryLogger_Checkpoint 1 l)
   in InMemoryLogger_Replay l' = Inr [e\<lparr>Sequence := 2, Timestamp := 5\<rparr>] \<and>
      InMemoryLogger_Replay l' = Inr (filter (\<lambda>e. committed l' < Sequence e) (GetAll l'))"
proof -
  define e where "e = \<lparr>Sequence = 0, TaskID = ''t'', EntryWorkflowID = ''w'', EntryState = ''PENDING'',
            Data = None, Timestamp = 0, Committed = False\<rparr>"
  define l' where "l' = snd (InMemoryLogger_Checkpoint 1
      (snd (InMemoryLogger_Append 5 e (snd (InMemoryLogger_Append 4 e NewInMemoryLogger)))))"
  have r: "wal_reach l'" unfolding l'_def by (intro wal_reach.intros)
  have v: "l' = \<lparr>entries = [e\<lparr>Sequence := 1, Timestamp := 4\<rparr>, e\<lparr>Sequence := 2, Timestamp := 5\<rparr>],
      sequence = 2, committed = 1\<rparr>"
    by (simp add: l'_def e_def NewInMemoryLogger_def InMemoryLogger_Append_def
        InMemoryLogger_Checkpoint_def)
  have "InMemoryLogger_Replay l' = Inr (filter (\<lambda>e. committed l' < Sequence e) (GetAll l'))"
    using replay_returns_uncommitted [OF r] by (simp add: v)
  moreover have "InMemoryLogger_Replay l' = Inr [e\<lparr>Sequence := 2, Timestamp := 5\<rparr>]"
    by (simp add: InMemoryLogger_Replay_def v word_le_nat_alt)
  ultimately show ?thesis by (simp add: Let_def e_def l'_def)
qed

text \<open>An accepted \<^verbatim>\<open>Append\<close> returns the next sequence number, and a \<^verbatim>\<open>Replay\<close> afterwards returns
  what it returned before followed by the new entry, stamped with that number and not committed.\<close>
lemma append_then_replay:
  assumes "wal_reach l" and "Suc (length (entries l)) < 2 ^ 64"
    and "InMemoryLogger_Append now e l = (Inr seq, l')" and "InMemoryLogger_Replay l = Inr xs"
  shows "seq = sequence l + 1 \<and>
    InMemoryLogger_Replay l' = Inr (xs @ [e\<lparr>Sequence := seq, Timestamp := now, Committed := False\<rparr>])"
proof -
  have inv: "wal_inv l" by (rule wal_reach_inv [OF assms(1)])
  have ap: "Append InMemoryLogger_methods now e l = (Inr seq, l')"
    using assms(3) by (simp add: InMemoryLogger_methods_def)
  have "InMemoryLogger_Replay l' = Inr (xs @ [stamped seq now e])"
    using imem.replay_append [OF inv ap assms(2)] assms(4) by (simp add: InMemoryLogger_methods_def)
  moreover have "seq = sequence l + 1"
    using imem.append_log [OF inv ap] inv by (simp add: wal_inv_def)
  ultimately show ?thesis by (simp add: stamped_def)
qed

text \<open>\<^verbatim>\<open>Checkpoint\<close> takes any number up to the latest one, also a lower one than before: after it
  \<^verbatim>\<open>Replay\<close> returns everything above the number given, so an earlier, higher checkpoint is undone;
  a number above the latest is refused and changes nothing.\<close>
lemma checkpoint_sets_replay_point:
  assumes "wal_reach l" and "length (entries l) < 2 ^ 64"
  shows "if sequence l < seq
    then \<exists>err. InMemoryLogger_Checkpoint seq l = (Some err, l)
    else \<exists>l'. InMemoryLogger_Checkpoint seq l = (None, l') \<and> GetCommittedCount l' = seq \<and>
      InMemoryLogger_Replay l' = Inr (filter (\<lambda>e. seq < Sequence e) (GetAll l))"
proof (cases "sequence l < seq")
  case True
  then show ?thesis by (simp add: InMemoryLogger_Checkpoint_def)
next
  case False
  have inv: "wal_inv l" by (rule wal_reach_inv [OF assms(1)])
  with False have "seq \<le> of_nat (length (entries l))" by (simp add: wal_inv_def)
  from imem.replay_checkpoint [OF inv this assms(2)] False show ?thesis
    by (simp add: InMemoryLogger_methods_def InMemoryLogger_Checkpoint_def GetCommittedCount_def GetAll_def)
qed

text \<open>No operation of the in-memory log ever marks an entry as committed: the \<^verbatim>\<open>Committed\<close> flag of
  every entry it returns is false, checkpointed or not.\<close>
lemma committed_flag_never_set:
  assumes "wal_reach l" and "e \<in> set (GetAll l)"
  shows "\<not> Committed e"
  using wal_reach_inv [OF assms(1)] assms(2) by (simp add: wal_inv_def GetAll_def)



end
