(* ===== verification/Partition_Manager.thy ===== *)
theory Partition_Manager
  imports Go_Prelude
begin

text \<open>
  Partition management, \<^verbatim>\<open>src/internal/partition/partition.go\<close>: the \<^verbatim>\<open>Manager\<close> interface and
  its implementation \<^verbatim>\<open>DefaultManager\<close> with the FNV-1a hash of \<^verbatim>\<open>hash/fnv\<close>.

  \<^verbatim>\<open>rebalancePartitions\<close> ranges over the Go map of nodes, whose iteration order the language
  leaves open; every operation that reaches it takes that order as an argument
  (see \<open>range_order\<close>), and the theorems hold for every such order.
\<close>

unbundle bit_operations_syntax

section \<open>The interface\<close>

record 'p Manager =
  AssignPartition :: "'p \<Rightarrow> string \<Rightarrow> goint result"
  GetOwner :: "'p \<Rightarrow> goint \<Rightarrow> string result"
  RegisterNode :: "clock \<Rightarrow> string list \<Rightarrow> 'p \<Rightarrow> string \<Rightarrow> error option \<times> 'p"
  UnregisterNode :: "string list \<Rightarrow> 'p \<Rightarrow> string \<Rightarrow> error option \<times> 'p"
  Rebalance :: "string list \<Rightarrow> 'p \<Rightarrow> error option \<times> 'p"
  GetPartitions :: "goint list \<Rightarrow> 'p \<Rightarrow> string \<Rightarrow> goint list result"
  GetNodes :: "string list \<Rightarrow> 'p \<Rightarrow> string list"
  GetPartitionCount :: "'p \<Rightarrow> goint"

section \<open>DefaultManager\<close>

record NodeState =
  NodeID :: string
  RegisteredAt :: time
  LastHeartbeat :: time
  Healthy :: bool

record DefaultManager =
  nodes :: "string \<rightharpoonup> NodeState"
  partitionCount :: goint
  partitionOwners :: "goint \<rightharpoonup> string"

definition NewDefaultManager :: "goint \<Rightarrow> DefaultManager" where
  "NewDefaultManager count =
     (let count = (if sint count \<le> 0 then 10 else count)
      in \<lparr>nodes = Map.empty, partitionCount = count, partitionOwners = Map.empty\<rparr>)"

text \<open>\<^verbatim>\<open>fnv.New64a\<close>: offset basis and prime of the 64-bit FNV-1a hash, xor before multiply.\<close>

definition fnv64a :: "byte list \<Rightarrow> u64" where
  "fnv64a bs = foldl (\<lambda>h b. (h XOR ucast b) * 1099511628211) 14695981039346656037 bs"

definition DefaultManager_AssignPartition :: "DefaultManager \<Rightarrow> string \<Rightarrow> goint result" where
  "DefaultManager_AssignPartition m taskID =
     (if taskID = [] then Inl ''task_id cannot be empty''
      else if partitionCount m = 0 then Inl ''no partitions configured''
      else let hash = fnv64a (bytes_of_string taskID) in Inr (hash mod partitionCount m))"

definition rebalancePartitions :: "string list \<Rightarrow> DefaultManager \<Rightarrow> DefaultManager" where
  "rebalancePartitions nodeIDs m =
     (if length nodeIDs = 0 then m\<lparr>partitionOwners := Map.empty\<rparr>
      else
        let newOwners =
              foldl (\<lambda>owners i. owners(of_nat i \<mapsto> nodeIDs ! (i mod length nodeIDs)))
                Map.empty [0 ..< nat (sint (partitionCount m))]
        in m\<lparr>partitionOwners := newOwners\<rparr>)"

definition DefaultManager_RegisterNode ::
    "clock \<Rightarrow> string list \<Rightarrow> DefaultManager \<Rightarrow> string \<Rightarrow> error option \<times> DefaultManager" where
  "DefaultManager_RegisterNode clk order m nodeID =
     (if nodeID = [] then (Some ''node_id cannot be empty'', m)
      else if nodes m nodeID \<noteq> None
      then (Some (''node '' @ nodeID @ '' already registered''), m)
      else
        let m = m\<lparr>nodes := (nodes m)(nodeID \<mapsto>
                    \<lparr>NodeID = nodeID, RegisteredAt = clk 0, LastHeartbeat = clk 1, Healthy = True\<rparr>)\<rparr>
        in (None, rebalancePartitions order m))"

definition DefaultManager_UnregisterNode ::
    "string list \<Rightarrow> DefaultManager \<Rightarrow> string \<Rightarrow> error option \<times> DefaultManager" where
  "DefaultManager_UnregisterNode order m nodeID =
     (if nodeID = [] then (Some ''node_id cannot be empty'', m)
      else if nodes m nodeID = None then (Some (''node '' @ nodeID @ '' not found''), m)
      else
        let m = m\<lparr>nodes := (nodes m)(nodeID := None)\<rparr>
        in (None, rebalancePartitions order m))"

definition DefaultManager_GetOwner :: "DefaultManager \<Rightarrow> goint \<Rightarrow> string result" where
  "DefaultManager_GetOwner m partitionID =
     (if sint partitionID < 0 \<or> sint partitionID \<ge> sint (partitionCount m)
      then Inl (''invalid partition_id: '' @ show_int (sint partitionID))
      else case partitionOwners m partitionID of
             None \<Rightarrow> Inl (''no owner for partition '' @ show_int (sint partitionID))
           | Some owner \<Rightarrow> Inr owner)"

definition DefaultManager_Rebalance ::
    "string list \<Rightarrow> DefaultManager \<Rightarrow> error option \<times> DefaultManager" where
  "DefaultManager_Rebalance order m = (None, rebalancePartitions order m)"

definition DefaultManager_GetPartitions ::
    "goint list \<Rightarrow> DefaultManager \<Rightarrow> string \<Rightarrow> goint list result" where
  "DefaultManager_GetPartitions order m nodeID =
     (if nodeID = [] then Inl ''node_id cannot be empty''
      else if nodes m nodeID = None then Inl (''node '' @ nodeID @ '' not found'')
      else Inr (filter (\<lambda>partitionID. partitionOwners m partitionID = Some nodeID) order))"

definition DefaultManager_GetNodes :: "string list \<Rightarrow> DefaultManager \<Rightarrow> string list" where
  "DefaultManager_GetNodes order m = foldl (\<lambda>ns nodeID. ns @ [nodeID]) [] order"

definition DefaultManager_GetPartitionCount :: "DefaultManager \<Rightarrow> goint" where
  "DefaultManager_GetPartitionCount m = partitionCount m"

definition DefaultManager_methods :: "DefaultManager Manager" where
  "DefaultManager_methods =
     \<lparr>AssignPartition = DefaultManager_AssignPartition, GetOwner = DefaultManager_GetOwner,
      RegisterNode = DefaultManager_RegisterNode, UnregisterNode = DefaultManager_UnregisterNode,
      Rebalance = DefaultManager_Rebalance, GetPartitions = DefaultManager_GetPartitions,
      GetNodes = DefaultManager_GetNodes, GetPartitionCount = DefaultManager_GetPartitionCount\<rparr>"

section \<open>Contract of a partition manager\<close>

text \<open>
  What the execution engine relies on: every task identifier has a partition, within the
  partition count, and membership changes never move a task to another partition.
\<close>

locale partition_manager =
  fixes P :: "'p Manager" and ok :: "'p \<Rightarrow> bool"
  assumes assign_total: "ok m \<Longrightarrow> taskID \<noteq> [] \<Longrightarrow>
      \<exists>pid. AssignPartition P m taskID = Inr pid \<and>
        0 \<le> sint pid \<and> sint pid < sint (GetPartitionCount P m)"
    and register_ok: "ok m \<Longrightarrow> ok (snd (RegisterNode P clk order m nodeID))"
    and unregister_ok: "ok m \<Longrightarrow> ok (snd (UnregisterNode P order m nodeID))"
    and rebalance_ok: "ok m \<Longrightarrow> ok (snd (Rebalance P order m))"
    and register_assign:
      "AssignPartition P (snd (RegisterNode P clk order m nodeID)) = AssignPartition P m"
    and unregister_assign:
      "AssignPartition P (snd (UnregisterNode P order m nodeID)) = AssignPartition P m"
    and rebalance_assign: "AssignPartition P (snd (Rebalance P order m)) = AssignPartition P m"

section \<open>Lemmas\<close>

lemma rebalancePartitions_frame [simp]:
  "nodes (rebalancePartitions order m) = nodes m"
  "partitionCount (rebalancePartitions order m) = partitionCount m"
  by (simp_all add: rebalancePartitions_def)

lemma foldl_assign:
  "n \<le> 2 ^ 63 \<Longrightarrow>
   foldl (\<lambda>owners i. owners(of_nat i \<mapsto> f i)) Map.empty [0 ..< n] (p :: goint) =
     (if unat p < n then Some (f (unat p)) else None)"
proof (induction n)
  case 0
  then show ?case by simp
next
  case (Suc n)
  let ?f = "foldl (\<lambda>owners i. owners(of_nat i \<mapsto> f i)) Map.empty [0 ..< n] :: goint \<rightharpoonup> 'a"
  have step: "foldl (\<lambda>owners i. owners(of_nat i \<mapsto> f i)) Map.empty [0 ..< Suc n] = ?f(of_nat n \<mapsto> f n)"
    by simp
  show ?case
  proof (cases "p = of_nat n")
    case True
    moreover have "unat (of_nat n :: goint) = n" using Suc.prems by (intro unat_of_nat_u64) simp
    ultimately show ?thesis unfolding step by simp
  next
    case False
    then have "unat p \<noteq> n" by (metis of_nat_unat_u64)
    then have lt: "unat p < Suc n \<longleftrightarrow> unat p < n" by auto
    have "?f p = (if unat p < n then Some (f (unat p)) else None)"
      using Suc.IH Suc_leD [OF Suc.prems] by blast
    then show ?thesis unfolding step lt fun_upd_other [OF False] .
  qed
qed

lemma rebalanced_owner:
  assumes "order \<noteq> []"
  shows "partitionOwners (rebalancePartitions order m) p =
    (if 0 \<le> sint p \<and> sint p < sint (partitionCount m)
     then Some (order ! (nat (sint p) mod length order)) else None)"
proof -
  have "nat (sint (partitionCount m)) \<le> 2 ^ 63" using nat_sint_bound by (rule less_imp_le)
  then have own: "partitionOwners (rebalancePartitions order m) p =
      (if unat p < nat (sint (partitionCount m)) then Some (order ! (unat p mod length order)) else None)"
    using assms by (simp add: rebalancePartitions_def foldl_assign)
  have "unat p < nat (sint (partitionCount m)) \<longleftrightarrow> 0 \<le> sint p \<and> sint p < sint (partitionCount m)"
  proof
    assume lt: "unat p < nat (sint (partitionCount m))"
    then have "unat p < 2 ^ 63" using nat_sint_bound [of "partitionCount m"] by simp
    then have "sint (of_nat (unat p) :: goint) = int (unat p)" by (rule sint_of_nat_int)
    then have "sint p = int (unat p)" by (simp only: of_nat_unat_u64)
    moreover from lt have "int (unat p) < sint (partitionCount m)" by (simp only: zless_nat_eq_int_zless)
    ultimately show "0 \<le> sint p \<and> sint p < sint (partitionCount m)" by (simp only: of_nat_0_le_iff)
  qed (simp add: unat_sint_nonneg)
  then show ?thesis by (auto simp: own unat_sint_nonneg)
qed

definition pm_inv :: "DefaultManager \<Rightarrow> bool" where
  "pm_inv m \<longleftrightarrow>
     0 < sint (partitionCount m) \<and>
     finite (dom (nodes m)) \<and>
     (\<forall>n s. nodes m n = Some s \<longrightarrow> n \<noteq> [] \<and> NodeID s = n) \<and>
     (if nodes m = Map.empty then partitionOwners m = Map.empty
      else dom (partitionOwners m) = {p. 0 \<le> sint p \<and> sint p < sint (partitionCount m)}) \<and>
     ran (partitionOwners m) \<subseteq> dom (nodes m)"

lemma pm_inv_New [simp]: "pm_inv (NewDefaultManager count)"
  by (simp add: NewDefaultManager_def pm_inv_def Let_def)

lemma pm_inv_rebalance:
  assumes "range_order (nodes m) order" and "0 < sint (partitionCount m)"
    and "\<forall>n s. nodes m n = Some s \<longrightarrow> n \<noteq> [] \<and> NodeID s = n"
  shows "pm_inv (rebalancePartitions order m)"
proof (cases "order = []")
  case True
  with assms show ?thesis by (simp add: pm_inv_def rebalancePartitions_def)
next
  case False
  let ?owners = "partitionOwners (rebalancePartitions order m)"
  have "nodes m \<noteq> Map.empty" using False assms(1) by (auto simp: range_order_def)
  moreover have "dom ?owners = {p. 0 \<le> sint p \<and> sint p < sint (partitionCount m)}"
    using False by (auto simp: rebalanced_owner split: if_splits)
  moreover have "order ! (k mod length order) \<in> dom (nodes m)" for k
    using False by (intro range_order_nth_dom [OF assms(1)]) simp
  then have "ran ?owners \<subseteq> dom (nodes m)"
    using False by (auto simp: ran_def rebalanced_owner split: if_splits)
  ultimately show ?thesis
    using assms range_order_finite [OF assms(1)] by (simp add: pm_inv_def)
qed

lemma pm_invD:
  assumes "pm_inv m"
  shows "0 < sint (partitionCount m)" and "nodes m n = Some s \<Longrightarrow> n \<noteq> [] \<and> NodeID s = n"
  using assms by (auto simp: pm_inv_def)

lemma pm_inv_RegisterNode:
  assumes "pm_inv m" and "range_order (nodes (snd (DefaultManager_RegisterNode clk order m n))) order"
  shows "pm_inv (snd (DefaultManager_RegisterNode clk order m n))"
  using assms unfolding DefaultManager_RegisterNode_def Let_def
  by (auto dest: pm_invD intro!: pm_inv_rebalance split: if_splits)

lemma pm_inv_UnregisterNode:
  assumes "pm_inv m" and "range_order (nodes (snd (DefaultManager_UnregisterNode order m n))) order"
  shows "pm_inv (snd (DefaultManager_UnregisterNode order m n))"
  using assms unfolding DefaultManager_UnregisterNode_def Let_def
  by (auto dest: pm_invD intro!: pm_inv_rebalance split: if_splits)

lemma pm_inv_Rebalance:
  assumes "pm_inv m" and "range_order (nodes m) order"
  shows "pm_inv (snd (DefaultManager_Rebalance order m))"
  using assms unfolding DefaultManager_Rebalance_def
  by (auto dest: pm_invD intro!: pm_inv_rebalance)

text \<open>The unsigned remainder of the hash is a non-negative \<^verbatim>\<open>int\<close> below the partition count.\<close>

lemma mod_partition_range:
  assumes "0 < sint (count :: goint)"
  shows "0 \<le> sint (h mod count) \<and> sint (h mod count) < sint count"
proof -
  have c: "unat count = nat (sint count)" using assms by (simp add: unat_sint_nonneg)
  have "unat (h mod count) = unat h mod unat count" by (rule unat_mod)
  with c assms have lt: "unat (h mod count) < nat (sint count)" by (simp only: mod_less_divisor zero_less_nat_eq)
  then have "unat (h mod count) < 2 ^ 63" using nat_sint_bound [of count] by simp
  then have "sint (of_nat (unat (h mod count)) :: goint) = int (unat (h mod count))" by (rule sint_of_nat_int)
  then have "sint (h mod count) = int (unat (h mod count))" by (simp only: of_nat_unat_u64)
  moreover from lt have "int (unat (h mod count)) < sint count" by (simp only: zless_nat_eq_int_zless)
  ultimately show ?thesis by (simp only: of_nat_0_le_iff)
qed

lemma AssignPartition_cong:
  "partitionCount m = partitionCount m' \<Longrightarrow>
   DefaultManager_AssignPartition m = DefaultManager_AssignPartition m'"
  by (simp add: fun_eq_iff DefaultManager_AssignPartition_def)

lemma membership_count [simp]:
  "partitionCount (snd (DefaultManager_RegisterNode clk order m n)) = partitionCount m"
  "partitionCount (snd (DefaultManager_UnregisterNode order m n)) = partitionCount m"
  "partitionCount (snd (DefaultManager_Rebalance order m)) = partitionCount m"
  by (simp_all add: DefaultManager_RegisterNode_def DefaultManager_UnregisterNode_def
      DefaultManager_Rebalance_def Let_def)

interpretation dpm: partition_manager DefaultManager_methods "\<lambda>m. 0 < sint (partitionCount m)"
proof (unfold_locales, goal_cases)
  case (1 m taskID)
  then have "partitionCount m \<noteq> 0" by auto
  with 1 mod_partition_range [OF 1(1)] show ?case
    by (simp add: DefaultManager_methods_def DefaultManager_AssignPartition_def
        DefaultManager_GetPartitionCount_def Let_def)
qed (auto simp: DefaultManager_methods_def intro!: AssignPartition_cong)

text \<open>Round-robin dealing: node number \<open>j\<close> of the order owns every partition congruent to \<open>j\<close>.\<close>

lemma rebalanced_owned_set:
  assumes "distinct order" and "j < length order"
  shows "{p. partitionOwners (rebalancePartitions order m) p = Some (order ! j)} =
    of_nat ` {i. i < nat (sint (partitionCount m)) \<and> i mod length order = j}" (is "?A = ?B")
proof
  have ne: "order \<noteq> []" using assms(2) by auto
  show "?A \<subseteq> ?B"
  proof
    fix p assume "p \<in> ?A"
    then have p: "0 \<le> sint p" "sint p < sint (partitionCount m)"
      and "order ! (nat (sint p) mod length order) = order ! j"
      by (auto simp: rebalanced_owner [OF ne] split: if_splits)
    with assms ne have "nat (sint p) mod length order = j"
      by (simp add: nth_eq_iff_index_eq)
    with p show "p \<in> ?B" by (intro image_eqI [where x = "nat (sint p)"]) auto
  qed
  show "?B \<subseteq> ?A"
  proof
    fix p assume "p \<in> ?B"
    then obtain i where i: "p = of_nat i" "i < nat (sint (partitionCount m))" "i mod length order = j"
      by auto
    then have "i < 2 ^ 63" using nat_sint_bound [of "partitionCount m"] by simp
    then have "sint p = int i" unfolding i(1) by (rule sint_of_nat_int)
    with i show "p \<in> ?A" by (simp add: rebalanced_owner [OF ne] zless_nat_eq_int_zless)
  qed
qed

lemma rebalanced_load:
  assumes "distinct order" and "j < length order"
  shows "card {p. partitionOwners (rebalancePartitions order m) p = Some (order ! j)} =
    nat (sint (partitionCount m)) div length order +
    of_bool (j < nat (sint (partitionCount m)) mod length order)"
proof -
  have "inj_on (of_nat :: nat \<Rightarrow> goint) {i. i < nat (sint (partitionCount m)) \<and> i mod length order = j}"
  proof (rule inj_onI)
    fix a b assume "a \<in> {i. i < nat (sint (partitionCount m)) \<and> i mod length order = j}"
      and "b \<in> {i. i < nat (sint (partitionCount m)) \<and> i mod length order = j}"
      and eq: "(of_nat a :: goint) = of_nat b"
    then have "a < 2 ^ 64" "b < 2 ^ 64" using nat_sint_bound [of "partitionCount m"] by auto
    with arg_cong [OF eq, of unat] show "a = b" by (simp only: unat_of_nat_u64)
  qed
  with assms show ?thesis
    by (simp add: rebalanced_owned_set card_image card_mod_class)
qed

section \<open>Reachable managers\<close>

text \<open>Every membership operation of the interface, under any iteration order of the node map.\<close>

inductive pm_reach :: "DefaultManager \<Rightarrow> bool" where
  new: "pm_reach (NewDefaultManager count)"
| register: "pm_reach m \<Longrightarrow>
    range_order (nodes (snd (DefaultManager_RegisterNode clk order m n))) order \<Longrightarrow>
    pm_reach (snd (DefaultManager_RegisterNode clk order m n))"
| unregister: "pm_reach m \<Longrightarrow>
    range_order (nodes (snd (DefaultManager_UnregisterNode order m n))) order \<Longrightarrow>
    pm_reach (snd (DefaultManager_UnregisterNode order m n))"
| rebalance: "pm_reach m \<Longrightarrow> range_order (nodes m) order \<Longrightarrow>
    pm_reach (snd (DefaultManager_Rebalance order m))"

lemma pm_reach_inv: "pm_reach m \<Longrightarrow> pm_inv m"
  by (induction rule: pm_reach.induct)
    (simp_all add: pm_inv_RegisterNode pm_inv_UnregisterNode pm_inv_Rebalance)

lemma pm_inv_owner:
  assumes "pm_inv m"
  shows "DefaultManager_GetOwner m p = Inr n \<longleftrightarrow> partitionOwners m p = Some n"
proof -
  have "partitionOwners m p = Some n \<Longrightarrow> 0 \<le> sint p \<and> sint p < sint (partitionCount m)"
    using assms by (auto simp: pm_inv_def dom_def split: if_splits)
  then show ?thesis by (auto simp: DefaultManager_GetOwner_def split: option.splits)
qed

text \<open>A manager with two nodes, for the witnesses.\<close>

definition two_nodes :: DefaultManager where
  "two_nodes = snd (DefaultManager_RegisterNode (\<lambda>_. 2) [''a'', ''b'']
     (snd (DefaultManager_RegisterNode (\<lambda>_. 1) [''a''] (NewDefaultManager 3) ''a'')) ''b'')"

lemma two_nodes_reach: "pm_reach two_nodes"
  unfolding two_nodes_def
  by (intro pm_reach.intros)
    (auto simp: DefaultManager_RegisterNode_def NewDefaultManager_def range_order_def Let_def)

lemma two_nodes_simps [simp]:
  "dom (nodes two_nodes) = {''a'', ''b''}" "partitionCount two_nodes = 3"
  by (auto simp: two_nodes_def DefaultManager_RegisterNode_def NewDefaultManager_def Let_def)

section \<open>Properties of partition management\<close>

text \<open>C27: every non-empty task identifier is assigned a partition, namely its FNV-1a hash modulo the
  partition count, and the partition is a valid index for \<^verbatim>\<open>GetOwner\<close>; no manager that the
  operations can produce ever has zero partitions.\<close>
theorem assign_partition_valid:
  assumes "pm_reach m" and "taskID \<noteq> []"
  shows "DefaultManager_AssignPartition m taskID =
      Inr (fnv64a (bytes_of_string taskID) mod partitionCount m) \<and>
    0 \<le> sint (fnv64a (bytes_of_string taskID) mod partitionCount m) \<and>
    sint (fnv64a (bytes_of_string taskID) mod partitionCount m) < sint (DefaultManager_GetPartitionCount m)"
proof -
  have pos: "0 < sint (partitionCount m)" by (rule pm_invD(1) [OF pm_reach_inv [OF assms(1)]])
  then have "partitionCount m \<noteq> 0" by auto
  with assms(2) mod_partition_range [OF pos, of "fnv64a (bytes_of_string taskID)"] show ?thesis
    by (simp add: DefaultManager_AssignPartition_def DefaultManager_GetPartitionCount_def Let_def)
qed

theorem assign_partition_valid_witness:
  "DefaultManager_AssignPartition two_nodes ''foobar'' = Inr 0"
proof -
  have "fnv64a (bytes_of_string ''foobar'') = 0x85944171f73967e8"
    by (simp add: fnv64a_def bytes_of_string_def)
  with assign_partition_valid [OF two_nodes_reach, of "''foobar''"] show ?thesis by simp
qed

text \<open>The partition of a task depends on its identifier and the partition count only: registering a
  node, removing one and rebalancing leave every assignment as it was.\<close>
lemma assignment_stable_under_membership:
  "DefaultManager_AssignPartition (snd (DefaultManager_RegisterNode clk order m n)) taskID =
     DefaultManager_AssignPartition m taskID \<and>
   DefaultManager_AssignPartition (snd (DefaultManager_UnregisterNode order m n)) taskID =
     DefaultManager_AssignPartition m taskID \<and>
   DefaultManager_AssignPartition (snd (DefaultManager_Rebalance order m)) taskID =
     DefaultManager_AssignPartition m taskID"
  using dpm.register_assign [of clk order m n] dpm.unregister_assign [of order m n]
    dpm.rebalance_assign [of order m]
  by (simp add: DefaultManager_methods_def)

text \<open>C25: while any node is registered, every partition has exactly one owner and the owner is a registered
  node; without nodes no partition has an owner.\<close>
theorem every_partition_owned:
  assumes "pm_reach m" and "0 \<le> sint p" and "sint p < sint (partitionCount m)"
  shows "(nodes m \<noteq> Map.empty \<longleftrightarrow> (\<exists>n. DefaultManager_GetOwner m p = Inr n)) \<and>
    (\<forall>n. DefaultManager_GetOwner m p = Inr n \<longrightarrow> n \<in> dom (nodes m))"
proof -
  have inv: "pm_inv m" by (rule pm_reach_inv [OF assms(1)])
  have "nodes m \<noteq> Map.empty \<longleftrightarrow> p \<in> dom (partitionOwners m)"
    using inv assms(2,3) by (auto simp: pm_inv_def split: if_splits)
  moreover have "partitionOwners m p = Some n \<Longrightarrow> n \<in> dom (nodes m)" for n
    using inv unfolding pm_inv_def by (meson ranI subsetD)
  ultimately show ?thesis by (auto simp: pm_inv_owner [OF inv])
qed

theorem every_partition_owned_witness:
  "\<exists>n \<in> {''a'', ''b''}. DefaultManager_GetOwner two_nodes 2 = Inr n"
proof -
  have "nodes two_nodes \<noteq> Map.empty" using two_nodes_simps(1) by (metis dom_empty insert_not_empty)
  with every_partition_owned [OF two_nodes_reach, of 2] show ?thesis by auto
qed

text \<open>C26: rebalancing deals the partitions out evenly: whatever order the node map is iterated in, every
  registered node owns the partition count divided by the number of nodes, rounded down or up.\<close>
theorem rebalance_is_even:
  assumes "range_order (nodes m) order" and "n \<in> dom (nodes m)" and "0 < sint (partitionCount m)"
  shows "card {p. partitionOwners (rebalancePartitions order m) p = Some n} \<in>
    {nat (sint (partitionCount m)) div length order, nat (sint (partitionCount m)) div length order + 1}"
proof -
  from assms(1,2) obtain j where "j < length order" "n = order ! j" "distinct order"
    by (metis in_set_conv_nth range_order_def)
  then show ?thesis by (simp add: rebalanced_load)
qed

theorem rebalance_is_even_witness:
  "card {p. partitionOwners (rebalancePartitions [''b'', ''a''] two_nodes) p = Some ''a''} \<in> {1, 2}"
proof -
  have "range_order (nodes two_nodes) [''b'', ''a'']" by (auto simp: range_order_def)
  from rebalance_is_even [OF this, of "''a''"] show ?thesis by (simp flip: numeral_2_eq_2)
qed

text \<open>C31: the two ownership queries agree: the partitions \<^verbatim>\<open>GetPartitions\<close> lists for a registered node are,
  without repetition, exactly those for which \<^verbatim>\<open>GetOwner\<close> returns that node.\<close>
theorem get_partitions_agrees_with_owner:
  assumes "pm_reach m" and "n \<in> dom (nodes m)" and "range_order (partitionOwners m) order"
  shows "\<exists>ps. DefaultManager_GetPartitions order m n = Inr ps \<and> distinct ps \<and>
    set ps = {p. DefaultManager_GetOwner m p = Inr n}"
proof -
  have inv: "pm_inv m" by (rule pm_reach_inv [OF assms(1)])
  from assms(2) have "n \<noteq> []" "nodes m n \<noteq> None" using pm_invD(2) [OF inv] by auto
  moreover have "set order = dom (partitionOwners m)" "distinct order"
    using assms(3) by (simp_all add: range_order_def)
  ultimately show ?thesis
    by (auto simp: DefaultManager_GetPartitions_def pm_inv_owner [OF inv])
qed

theorem get_partitions_agrees_with_owner_witness:
  "\<exists>order ps. DefaultManager_GetPartitions order two_nodes ''a'' = Inr ps \<and> distinct ps \<and>
     set ps = {p. DefaultManager_GetOwner two_nodes p = Inr ''a''}"
proof -
  obtain order where "set order = dom (partitionOwners two_nodes)" "distinct order"
    using finite_distinct_list [of "dom (partitionOwners two_nodes)"] by (metis finite)
  then have "range_order (partitionOwners two_nodes) order" by (simp add: range_order_def)
  from get_partitions_agrees_with_owner [OF two_nodes_reach _ this, of "''a''"] show ?thesis by auto
qed

text \<open>C28: the owners depend on the iteration order of the node map, which \<^verbatim>\<open>rebalancePartitions\<close> does not
  sort: with two or more nodes there are two orders after which partition 0 has different owners.\<close>
theorem owners_depend_on_map_order:
  assumes "pm_reach m" and "n \<in> dom (nodes m)" and "n' \<in> dom (nodes m)" and "n \<noteq> n'"
  shows "\<exists>order order'. range_order (nodes m) order \<and> range_order (nodes m) order' \<and>
    DefaultManager_GetOwner (snd (DefaultManager_Rebalance order m)) 0 \<noteq>
    DefaultManager_GetOwner (snd (DefaultManager_Rebalance order' m)) 0"
proof -
  have inv: "pm_inv m" by (rule pm_reach_inv [OF assms(1)])
  have pos: "0 < sint (partitionCount m)" by (rule pm_invD(1) [OF inv])
  have first: "\<exists>order. range_order (nodes m) order \<and>
      DefaultManager_GetOwner (snd (DefaultManager_Rebalance order m)) 0 = Inr k"
    if "k \<in> dom (nodes m)" for k
  proof -
    obtain ks where "range_order (nodes m) ks"
      using range_order_exists inv unfolding pm_inv_def by blast
    then have "range_order (nodes m) (k # remove1 k ks)"
      using that by (auto simp: range_order_def)
    moreover have "DefaultManager_GetOwner (snd (DefaultManager_Rebalance (k # remove1 k ks) m)) 0 = Inr k"
      using pos by (simp add: DefaultManager_GetOwner_def DefaultManager_Rebalance_def rebalanced_owner)
    ultimately show ?thesis by blast
  qed
  from first [OF assms(2)] first [OF assms(3)] assms(4) show ?thesis by force
qed

theorem owners_depend_on_map_order_witness:
  "\<exists>order order'. range_order (nodes two_nodes) order \<and> range_order (nodes two_nodes) order' \<and>
    DefaultManager_GetOwner (snd (DefaultManager_Rebalance order two_nodes)) 0 \<noteq>
    DefaultManager_GetOwner (snd (DefaultManager_Rebalance order' two_nodes)) 0"
  by (rule owners_depend_on_map_order [OF two_nodes_reach, of "''a''" "''b''"]) simp_all

end
