(* ===== verification/Execution_Engine.thy ===== *)
theory Execution_Engine
  imports Task_Model Wal_Log Partition_Manager
begin

text \<open>
  The execution engine, \<^verbatim>\<open>src/internal/executor/executor.go\<close>: task creation, lookup, state
  transitions with write-ahead logging, completion, failure and the queries.

  The engine keeps pointers to task objects and hands pointers to its callers, and whether a
  caller's pointer is the engine's own object or a copy matters. So the model has a heap of task
  objects (\<open>objects\<close>, with \<open>next_addr\<close> the next unused address) and a \<^verbatim>\<open>*task.Task\<close> is an
  address. The record of the engine extends the record of the heap. Byte slices and time values
  inside a task are plain values: nothing in the package writes to an element of a slice
  (\<open>Engine_Slices\<close> follows the slices as references).

  An operation takes the engine and returns the result together with the engine afterwards. The
  operations that write hold the engine's mutex throughout, so each is one atomic step. The
  queries release it before they copy the tasks they found; here the copy is taken in the state of
  the lookup, which is what a caller sees when no other call is under way. The write-ahead log and
  the partition manager are interface values: their method tables \<open>L\<close> and \<open>P\<close> are arguments.
  Log output (logrus) is left out.
\<close>

section \<open>Heap of task objects\<close>

record Heap =
  objects :: "addr \<Rightarrow> Task"
  next_addr :: addr

definition alloc :: "Task \<Rightarrow> 'z Heap_scheme \<Rightarrow> addr \<times> 'z Heap_scheme" where
  "alloc t h =
     (next_addr h, h\<lparr>objects := (objects h)(next_addr h := t), next_addr := Suc (next_addr h)\<rparr>)"

definition store :: "addr \<Rightarrow> Task \<Rightarrow> 'z Heap_scheme \<Rightarrow> 'z Heap_scheme" where
  "store a t h = h\<lparr>objects := (objects h)(a := t)\<rparr>"

fun alloc_all :: "Task list \<Rightarrow> 'z Heap_scheme \<Rightarrow> addr list \<times> 'z Heap_scheme" where
  "alloc_all [] h = ([], h)"
| "alloc_all (t # ts) h =
     (let (a, h) = alloc t h; (as, h) = alloc_all ts h in (a # as, h))"

section \<open>The engine\<close>

record ('w, 'p) Engine = Heap +
  walLogger :: 'w
  partitionMgr :: 'p
  tasks :: "string \<rightharpoonup> addr"
  workflowTasks :: "string \<rightharpoonup> string list"
  sequenceCounter :: u64

text \<open>A nil logger is replaced by \<^verbatim>\<open>wal.NewNoOpLogger()\<close>, a nil manager by ten partitions.\<close>

definition NewEngine ::
    "Heap \<Rightarrow> WalLogger option \<Rightarrow> DefaultManager option \<Rightarrow> (WalLogger, DefaultManager) Engine" where
  "NewEngine h logger mgr =
     (let logger = (case logger of None \<Rightarrow> NoOp NewNoOpLogger | Some l \<Rightarrow> l);
          mgr = (case mgr of None \<Rightarrow> NewDefaultManager 10 | Some m \<Rightarrow> m)
      in \<lparr>objects = objects h, next_addr = next_addr h, walLogger = logger, partitionMgr = mgr,
          tasks = Map.empty, workflowTasks = Map.empty, sequenceCounter = 0\<rparr>)"

definition task_id :: "string \<Rightarrow> time \<Rightarrow> string" where
  "task_id workflowID unixNano = ''task-'' @ workflowID @ ''-'' @ show_int unixNano"

definition wal_entry :: "string \<Rightarrow> string \<Rightarrow> string \<Rightarrow> bytes \<Rightarrow> Entry" where
  "wal_entry taskID workflowID state data =
     \<lparr>Sequence = 0, TaskID = taskID, EntryWorkflowID = workflowID, EntryState = state,
      Data = data, Timestamp = zero_time, Committed = False\<rparr>"

text \<open>
  The task object is local to \<^verbatim>\<open>CreateTask\<close> until it is put into the maps, so its address is
  taken there; the pointer that is returned is the one the map holds.
\<close>

definition CreateTask ::
    "'w Logger \<Rightarrow> 'p Manager \<Rightarrow> clock \<Rightarrow> ('w, 'p) Engine \<Rightarrow> string \<Rightarrow> string \<Rightarrow> bytes \<Rightarrow>
     addr result \<times> ('w, 'p) Engine" where
  "CreateTask L P clk e workflowID taskName payload =
     (if workflowID = [] then (Inl ''workflow_id is required'', e)
      else if taskName = [] then (Inl ''task_name is required'', e)
      else
        let taskID = task_id workflowID (clk 0);
            newTask = NewTask (\<lambda>i. clk (1 + i)) taskID workflowID taskName payload
        in case AssignPartition P (partitionMgr e) taskID of
             Inl err \<Rightarrow> (Inl (''failed to assign partition: '' @ err), e)
           | Inr partitionID \<Rightarrow>
               let newTask = newTask\<lparr>PartitionID := partitionID\<rparr>;
                   entry = wal_entry taskID workflowID StatePending payload
               in case Append L (clk 2) entry (walLogger e) of
                    (Inl err, w) \<Rightarrow>
                      (Inl (''failed to persist task to WAL: '' @ err), e\<lparr>walLogger := w\<rparr>)
                  | (Inr seq, w) \<Rightarrow>
                      let e = e\<lparr>walLogger := w, sequenceCounter := seq\<rparr>;
                          (p, e) = alloc newTask e;
                          e = e\<lparr>tasks := (tasks e)(taskID \<mapsto> p)\<rparr>;
                          ids = (case workflowTasks e workflowID of None \<Rightarrow> [] | Some ids \<Rightarrow> ids);
                          e = e\<lparr>workflowTasks := (workflowTasks e)(workflowID \<mapsto> ids @ [taskID])\<rparr>
                      in (Inr p, e))"

definition GetTask :: "('w, 'p) Engine \<Rightarrow> string \<Rightarrow> addr result \<times> ('w, 'p) Engine" where
  "GetTask e taskID =
     (if taskID = [] then (Inl ''task_id is required'', e)
      else case tasks e taskID of
             None \<Rightarrow> (Inl (''task not found: '' @ taskID), e)
           | Some a \<Rightarrow> let (p, e) = alloc (Copy (objects e a)) e in (Inr p, e))"

definition TransitionTask ::
    "'w Logger \<Rightarrow> clock \<Rightarrow> ('w, 'p) Engine \<Rightarrow> string \<Rightarrow> State \<Rightarrow> addr result \<times> ('w, 'p) Engine" where
  "TransitionTask L clk e taskID newState =
     (if taskID = [] then (Inl ''task_id is required'', e)
      else case tasks e taskID of
             None \<Rightarrow> (Inl (''task not found: '' @ taskID), e)
           | Some a \<Rightarrow>
               let t = objects e a in
               case CanTransition (State t) newState of
                 Some err \<Rightarrow> (Inl (''invalid state transition: '' @ err), e)
               | None \<Rightarrow>
                   let entry = wal_entry taskID (WorkflowID t) newState (Payload t)
                   in case Append L (clk 0) entry (walLogger e) of
                        (Inl err, w) \<Rightarrow>
                          (Inl (''failed to persist state transition to WAL: '' @ err),
                           e\<lparr>walLogger := w\<rparr>)
                      | (Inr seq, w) \<Rightarrow>
                          let e = e\<lparr>walLogger := w\<rparr> in
                          case TransitionTo (\<lambda>i. clk (1 + i)) t newState of
                            (Some err, t') \<Rightarrow> (Inl err, store a t' e)
                          | (None, t') \<Rightarrow>
                              let e = (store a t' e)\<lparr>sequenceCounter := seq\<rparr>;
                                  (p, e) = alloc (Copy t') e
                              in (Inr p, e))"

definition CompleteTask ::
    "'w Logger \<Rightarrow> clock \<Rightarrow> ('w, 'p) Engine \<Rightarrow> string \<Rightarrow> bytes \<Rightarrow> addr result \<times> ('w, 'p) Engine" where
  "CompleteTask L clk e taskID result =
     (if taskID = [] then (Inl ''task_id is required'', e)
      else case tasks e taskID of
             None \<Rightarrow> (Inl (''task not found: '' @ taskID), e)
           | Some a \<Rightarrow>
               let t = objects e a in
               if State t \<noteq> StateDispatched
               then (Inl (''task must be in DISPATCHED state to complete, current: '' @ State t), e)
               else
                 let t = t\<lparr>Result := result\<rparr>;
                     e = store a t e;
                     entry = wal_entry taskID (WorkflowID t) StateCompleted result
                 in case Append L (clk 0) entry (walLogger e) of
                      (Inl err, w) \<Rightarrow>
                        (Inl (''failed to persist completion to WAL: '' @ err), e\<lparr>walLogger := w\<rparr>)
                    | (Inr seq, w) \<Rightarrow>
                        let e = e\<lparr>walLogger := w\<rparr> in
                        case TransitionTo (\<lambda>i. clk (1 + i)) t StateCompleted of
                          (Some err, t') \<Rightarrow> (Inl err, store a t' e)
                        | (None, t') \<Rightarrow>
                            let e = (store a t' e)\<lparr>sequenceCounter := seq\<rparr>;
                                (p, e) = alloc (Copy t') e
                            in (Inr p, e))"

definition FailTask ::
    "'w Logger \<Rightarrow> clock \<Rightarrow> ('w, 'p) Engine \<Rightarrow> string \<Rightarrow> string \<Rightarrow> addr result \<times> ('w, 'p) Engine" where
  "FailTask L clk e taskID errorMsg =
     (if taskID = [] then (Inl ''task_id is required'', e)
      else case tasks e taskID of
             None \<Rightarrow> (Inl (''task not found: '' @ taskID), e)
           | Some a \<Rightarrow>
               let t = objects e a in
               if State t \<noteq> StateDispatched
               then (Inl (''task must be in DISPATCHED state to fail, current: '' @ State t), e)
               else
                 let t = t\<lparr>Error := errorMsg\<rparr>;
                     e = store a t e;
                     entry = wal_entry taskID (WorkflowID t) StateFailed (Some (bytes_of_string errorMsg))
                 in case Append L (clk 0) entry (walLogger e) of
                      (Inl err, w) \<Rightarrow>
                        (Inl (''failed to persist failure to WAL: '' @ err), e\<lparr>walLogger := w\<rparr>)
                    | (Inr seq, w) \<Rightarrow>
                        let e = e\<lparr>walLogger := w\<rparr> in
                        case TransitionTo (\<lambda>i. clk (1 + i)) t StateFailed of
                          (Some err, t') \<Rightarrow> (Inl err, store a t' e)
                        | (None, t') \<Rightarrow>
                            let e = (store a t' e)\<lparr>sequenceCounter := seq\<rparr>;
                                (p, e) = alloc (Copy t') e
                            in (Inr p, e))"

text \<open>
  \<^verbatim>\<open>e.tasks[taskID]\<close> is nil for a missing key, and \<^verbatim>\<open>Copy\<close> on a nil receiver panics.
\<close>

fun copy_workflow_tasks ::
    "string list \<Rightarrow> ('w, 'p) Engine \<Rightarrow> addr list outcome \<times> ('w, 'p) Engine" where
  "copy_workflow_tasks [] e = (Return [], e)"
| "copy_workflow_tasks (taskID # ids) e =
     (case tasks e taskID of
        None \<Rightarrow> (Panic ''invalid memory address or nil pointer dereference'', e)
      | Some a \<Rightarrow>
          let (p, e) = alloc (Copy (objects e a)) e in
          case copy_workflow_tasks ids e of
            (Return ps, e) \<Rightarrow> (Return (p # ps), e)
          | (Panic m, e) \<Rightarrow> (Panic m, e))"

definition GetWorkflowTasks ::
    "('w, 'p) Engine \<Rightarrow> string \<Rightarrow> addr list result outcome \<times> ('w, 'p) Engine" where
  "GetWorkflowTasks e workflowID =
     (if workflowID = [] then (Return (Inl ''workflow_id is required''), e)
      else case workflowTasks e workflowID of
             None \<Rightarrow> (Return (Inr []), e)
           | Some taskIDs \<Rightarrow>
               (case copy_workflow_tasks taskIDs e of
                  (Return ps, e) \<Rightarrow> (Return (Inr ps), e)
                | (Panic m, e) \<Rightarrow> (Panic m, e)))"

text \<open>\<open>order\<close> is the order in which the map of tasks is ranged over.\<close>

definition selected :: "(Task \<Rightarrow> bool) \<Rightarrow> string list \<Rightarrow> ('w, 'p) Engine \<Rightarrow> Task list" where
  "selected P order e =
     filter P (List.map_filter (\<lambda>taskID. map_option (objects e) (tasks e taskID)) order)"

definition GetTasksByState ::
    "string list \<Rightarrow> ('w, 'p) Engine \<Rightarrow> State \<Rightarrow> addr list \<times> ('w, 'p) Engine" where
  "GetTasksByState order e state = alloc_all (map Copy (selected (\<lambda>t. State t = state) order e)) e"

definition GetTasksForPartition ::
    "string list \<Rightarrow> ('w, 'p) Engine \<Rightarrow> goint \<Rightarrow> addr list \<times> ('w, 'p) Engine" where
  "GetTasksForPartition order e partitionID =
     alloc_all (map Copy (selected (\<lambda>t. PartitionID t = partitionID) order e)) e"

definition Checkpoint ::
    "'w Logger \<Rightarrow> ('w, 'p) Engine \<Rightarrow> u64 \<Rightarrow> error option \<times> ('w, 'p) Engine" where
  "Checkpoint L e seq =
     (let (err, w) = CheckpointLog L seq (walLogger e) in (err, e\<lparr>walLogger := w\<rparr>))"

definition GetSequenceCounter :: "('w, 'p) Engine \<Rightarrow> u64" where
  "GetSequenceCounter e = sequenceCounter e"

definition Close :: "'w Logger \<Rightarrow> ('w, 'p) Engine \<Rightarrow> error option \<times> ('w, 'p) Engine" where
  "Close L e = (let (err, w) = CloseLog L (walLogger e) in (err, e\<lparr>walLogger := w\<rparr>))"

section \<open>Views and steps\<close>

text \<open>The engine's task of a given identifier, read through the pointer.\<close>

definition task_of :: "('w, 'p) Engine \<Rightarrow> string \<rightharpoonup> Task" where
  "task_of e taskID = map_option (objects e) (tasks e taskID)"

text \<open>
  One call of an engine operation, with any arguments in any state, \<^verbatim>\<open>Close\<close> included. The step
  carries what a statement about runs may need to exclude: the identifier a creation generates
  (workflow and clock, which the engine never compares with those in use), and that the log was
  closed.
\<close>

datatype engine_event = Creates string | Closes

inductive engine_step ::
    "'w Logger \<Rightarrow> 'p Manager \<Rightarrow> engine_event list \<Rightarrow> ('w, 'p) Engine \<Rightarrow> ('w, 'p) Engine \<Rightarrow> bool"
  for L P where
  create: "engine_step L P
    (if workflowID = [] \<or> taskName = [] then [] else [Creates (task_id workflowID (clk 0))])
    e (snd (CreateTask L P clk e workflowID taskName payload))"
| get: "engine_step L P [] e (snd (GetTask e taskID))"
| transition: "engine_step L P [] e (snd (TransitionTask L clk e taskID newState))"
| complete: "engine_step L P [] e (snd (CompleteTask L clk e taskID result))"
| failed: "engine_step L P [] e (snd (FailTask L clk e taskID errorMsg))"
| workflow: "engine_step L P [] e (snd (GetWorkflowTasks e workflowID))"
| by_state: "engine_step L P [] e (snd (GetTasksByState order e state))"
| for_partition: "engine_step L P [] e (snd (GetTasksForPartition order e partitionID))"
| checkpoint: "engine_step L P [] e (snd (Checkpoint L e seq))"
| close: "engine_step L P [Closes] e (snd (Close L e))"

text \<open>A sequence of calls, with the events of all of them in order.\<close>

inductive engine_run ::
    "'w Logger \<Rightarrow> 'p Manager \<Rightarrow> ('w, 'p) Engine \<Rightarrow> engine_event list \<Rightarrow> ('w, 'p) Engine \<Rightarrow> bool"
  for L P where
  none: "engine_run L P e [] e"
| call: "engine_run L P e evs e' \<Longrightarrow> engine_step L P es e' e'' \<Longrightarrow> engine_run L P e (evs @ es) e''"

fun created_ids :: "engine_event list \<Rightarrow> string list" where
  "created_ids [] = []"
| "created_ids (Creates i # evs) = i # created_ids evs"
| "created_ids (Closes # evs) = created_ids evs"

text \<open>
  The identifiers a run generates are new to the engine and different from each other. The code
  relies on it without a check: \<open>create_collision_overwrites\<close> shows what happens otherwise.
\<close>

definition fresh_ids :: "('w, 'p) Engine \<Rightarrow> engine_event list \<Rightarrow> bool" where
  "fresh_ids e evs \<longleftrightarrow> distinct (created_ids evs) \<and> set (created_ids evs) \<inter> dom (task_of e) = {}"

text \<open>A call that generates no identifier in use and does not close the log.\<close>

definition fresh_step :: "'w Logger \<Rightarrow> 'p Manager \<Rightarrow> ('w, 'p) Engine \<Rightarrow> ('w, 'p) Engine \<Rightarrow> bool" where
  "fresh_step L P e e' \<longleftrightarrow> (\<exists>evs. engine_step L P evs e e' \<and> fresh_ids e evs \<and> Closes \<notin> set evs)"

lemma fresh_ids_Nil [simp]: "fresh_ids e []"
  by (simp add: fresh_ids_def)

lemma fresh_step_create:
  "task_of e (task_id workflowID (clk 0)) = None \<Longrightarrow>
   fresh_step L P e (snd (CreateTask L P clk e workflowID taskName payload))"
  unfolding fresh_step_def
  by (rule exI, rule conjI, rule engine_step.create) (auto simp: fresh_ids_def)

lemma fresh_step_other:
  "engine_step L P [] e e' \<Longrightarrow> fresh_step L P e e'"
  unfolding fresh_step_def by (rule exI [of _ "[]"]) simp

lemmas fresh_step_get = fresh_step_other [OF engine_step.get]
lemmas fresh_step_transition = fresh_step_other [OF engine_step.transition]
lemmas fresh_step_complete = fresh_step_other [OF engine_step.complete]
lemmas fresh_step_failed = fresh_step_other [OF engine_step.failed]
lemmas fresh_step_workflow = fresh_step_other [OF engine_step.workflow]
lemmas fresh_step_by_state = fresh_step_other [OF engine_step.by_state]
lemmas fresh_step_for_partition = fresh_step_other [OF engine_step.for_partition]
lemmas fresh_step_checkpoint = fresh_step_other [OF engine_step.checkpoint]

lemma fresh_step_cases [consumes 1, case_names create get transition complete failed workflow
    by_state for_partition checkpoint]:
  assumes "fresh_step L P e e'"
  obtains workflowID clk taskName payload
      where "e' = snd (CreateTask L P clk e workflowID taskName payload)"
        and "workflowID \<noteq> [] \<Longrightarrow> taskName \<noteq> [] \<Longrightarrow> task_of e (task_id workflowID (clk 0)) = None"
    | taskID where "e' = snd (GetTask e taskID)"
    | clk taskID newState where "e' = snd (TransitionTask L clk e taskID newState)"
    | clk taskID result where "e' = snd (CompleteTask L clk e taskID result)"
    | clk taskID errorMsg where "e' = snd (FailTask L clk e taskID errorMsg)"
    | workflowID where "e' = snd (GetWorkflowTasks e workflowID)"
    | order state where "e' = snd (GetTasksByState order e state)"
    | order partitionID where "e' = snd (GetTasksForPartition order e partitionID)"
    | seq where "e' = snd (Checkpoint L e seq)"
proof -
  from assms obtain evs where st: "engine_step L P evs e e'" and f: "fresh_ids e evs" "Closes \<notin> set evs"
    by (auto simp: fresh_step_def)
  from st show ?thesis
  proof (cases rule: engine_step.cases)
    case (create workflowID taskName clk payload)
    show ?thesis
      by (rule that(1) [OF create(2)]) (use create(1) f in \<open>auto simp: fresh_ids_def\<close>)
  qed (use f that(2-9) in auto)
qed

definition workflow_ids :: "('w, 'p) Engine \<Rightarrow> string \<Rightarrow> string list" where
  "workflow_ids e workflowID = (case workflowTasks e workflowID of None \<Rightarrow> [] | Some ids \<Rightarrow> ids)"

definition engine_inv :: "('w, 'p) Engine \<Rightarrow> bool" where
  "engine_inv e \<longleftrightarrow>
     (\<forall>taskID a. tasks e taskID = Some a \<longrightarrow>
        a < next_addr e \<and> taskID \<noteq> [] \<and> ID (objects e a) = taskID \<and>
        WorkflowID (objects e a) \<noteq> [] \<and> task_inv (objects e a)) \<and>
     (\<forall>workflowID. distinct (workflow_ids e workflowID) \<and>
        set (workflow_ids e workflowID) =
        {taskID. \<exists>t. task_of e taskID = Some t \<and> WorkflowID t = workflowID}) \<and>
     finite (dom (tasks e))"

end
