(* ===== verification/Engine_Correct.thy ===== *)
theory Engine_Correct
  imports Execution_Engine
begin

text \<open>
  Correctness of the execution engine over its interfaces. Read-only operations only allocate
  (\<open>grows\<close>); the three transition operations share one effect (\<open>moved\<close>), and creation another
  (\<open>created\<close>). The locale \<open>engine_env\<close> joins the contracts of the log and of the partition
  manager; in it every operation either fails without any change or has that effect, and keeps
  the invariant \<open>engine_inv\<close>.
\<close>

section \<open>Allocation\<close>

definition grows :: "('w, 'p) Engine \<Rightarrow> ('w, 'p) Engine \<Rightarrow> bool" where
  "grows e e' \<longleftrightarrow>
     tasks e' = tasks e \<and> workflowTasks e' = workflowTasks e \<and> walLogger e' = walLogger e \<and>
     partitionMgr e' = partitionMgr e \<and> sequenceCounter e' = sequenceCounter e \<and>
     next_addr e \<le> next_addr e' \<and> (\<forall>a < next_addr e. objects e' a = objects e a)"

lemma grows_refl [simp]: "grows e e"
  by (simp add: grows_def)

lemma grows_trans: "grows e e' \<Longrightarrow> grows e' e'' \<Longrightarrow> grows e e''"
  by (auto simp: grows_def)

lemma grows_alloc [simp]: "grows e (snd (alloc t e))"
  by (simp add: grows_def alloc_def)

lemma fst_alloc [simp]: "fst (alloc t h) = next_addr h"
  by (simp add: alloc_def)

lemma objects_alloc [simp]: "objects (snd (alloc t h)) = (objects h)(next_addr h := t)"
  by (simp add: alloc_def)

lemma next_addr_alloc [simp]: "next_addr (snd (alloc t h)) = Suc (next_addr h)"
  by (simp add: alloc_def)

lemma engine_alloc [simp]:
  "tasks (snd (alloc t e)) = tasks e" "workflowTasks (snd (alloc t e)) = workflowTasks e"
  "walLogger (snd (alloc t e)) = walLogger e" "partitionMgr (snd (alloc t e)) = partitionMgr e"
  "sequenceCounter (snd (alloc t e)) = sequenceCounter e"
  by (simp_all add: alloc_def)

lemma engine_store [simp]:
  "tasks (store a t e) = tasks e" "workflowTasks (store a t e) = workflowTasks e"
  "walLogger (store a t e) = walLogger e" "partitionMgr (store a t e) = partitionMgr e"
  "sequenceCounter (store a t e) = sequenceCounter e"
  "next_addr (store a t e) = next_addr e" "objects (store a t e) = (objects e)(a := t)"
  by (simp_all add: store_def)

lemma store_store [simp]: "store a t (store a t' e) = store a t e"
  by (simp add: store_def)

lemma store_wal [simp]: "store a t (e\<lparr>walLogger := w\<rparr>) = (store a t e)\<lparr>walLogger := w\<rparr>"
  by (simp add: store_def)

lemma grows_alloc_all: "grows e (snd (alloc_all ts e))"
proof (induction ts arbitrary: e)
  case Nil
  then show ?case by simp
next
  case (Cons t ts)
  from grows_trans [OF grows_alloc Cons.IH] show ?case by (simp add: split_beta)
qed

lemma alloc_all_length: "length (fst (alloc_all ts h)) = length ts"
  by (induction ts arbitrary: h) (simp_all add: split_beta)

lemma alloc_all_fresh: "a \<in> set (fst (alloc_all ts h)) \<Longrightarrow> next_addr h \<le> a"
proof (induction ts arbitrary: h)
  case Nil
  then show ?case by simp
next
  case (Cons t ts)
  then show ?case using Cons.IH [of "snd (alloc t h)"] by (auto simp: split_beta)
qed

lemma alloc_all_contents:
  "map (objects (snd (alloc_all ts e))) (fst (alloc_all ts e)) = ts" for e :: "('w, 'p) Engine"
proof (induction ts arbitrary: e)
  case Nil
  then show ?case by simp
next
  case (Cons t ts)
  let ?e = "snd (alloc t e)"
  have "grows ?e (snd (alloc_all ts ?e))" by (rule grows_alloc_all)
  then have "objects (snd (alloc_all ts ?e)) (next_addr e) = t" by (simp add: grows_def)
  with Cons.IH [of ?e] show ?case by (simp add: split_beta)
qed

section \<open>The invariant under allocation\<close>

lemma task_of_Some_iff: "task_of e i = Some t \<longleftrightarrow> (\<exists>a. tasks e i = Some a \<and> objects e a = t)"
  by (auto simp: task_of_def)

lemma engine_inv_task:
  assumes "engine_inv e" and "tasks e i = Some a"
  shows "a < next_addr e" "i \<noteq> []" "ID (objects e a) = i" "WorkflowID (objects e a) \<noteq> []"
    "task_inv (objects e a)"
  using assms by (auto simp: engine_inv_def)

lemma engine_inv_inj:
  "engine_inv e \<Longrightarrow> tasks e i = Some a \<Longrightarrow> tasks e j = Some a \<Longrightarrow> i = j"
  by (metis engine_inv_task(3))

lemma grows_task_of:
  assumes "engine_inv e" and "grows e e'"
  shows "task_of e' = task_of e"
proof
  fix i show "task_of e' i = task_of e i"
  proof (cases "tasks e i")
    case None
    with assms(2) show ?thesis by (simp add: task_of_def grows_def)
  next
    case (Some a)
    with engine_inv_task(1) [OF assms(1) Some] assms(2) show ?thesis
      by (simp add: task_of_def grows_def)
  qed
qed

lemma engine_invI:
  assumes "\<And>i a. tasks e i = Some a \<Longrightarrow> a < next_addr e \<and> i \<noteq> [] \<and> ID (objects e a) = i \<and>
      WorkflowID (objects e a) \<noteq> [] \<and> task_inv (objects e a)"
    and "\<And>w. distinct (workflow_ids e w)"
    and "\<And>w. set (workflow_ids e w) = {i. \<exists>t. task_of e i = Some t \<and> WorkflowID t = w}"
    and "finite (dom (tasks e))"
  shows "engine_inv e"
  using assms unfolding engine_inv_def by simp

lemma engine_inv_workflow:
  assumes "engine_inv e"
  shows "distinct (workflow_ids e w)"
    and "set (workflow_ids e w) = {i. \<exists>t. task_of e i = Some t \<and> WorkflowID t = w}"
    and "finite (dom (tasks e))"
  using assms unfolding engine_inv_def by simp_all

lemma engine_inv_grows:
  assumes "engine_inv e" and "grows e e'"
  shows "engine_inv e'"
proof (rule engine_invI)
  fix i a assume "tasks e' i = Some a"
  with assms(2) have a: "tasks e i = Some a" by (simp add: grows_def)
  note inv = engine_inv_task [OF assms(1) a]
  with assms(2) have "objects e' a = objects e a" "a < next_addr e'" by (auto simp: grows_def)
  with inv show "a < next_addr e' \<and> i \<noteq> [] \<and> ID (objects e' a) = i \<and>
      WorkflowID (objects e' a) \<noteq> [] \<and> task_inv (objects e' a)" by simp
next
  have w: "workflow_ids e' = workflow_ids e" "tasks e' = tasks e"
    using assms(2) by (simp_all add: fun_eq_iff workflow_ids_def grows_def)
  show "distinct (workflow_ids e' w)" for w
    unfolding w by (rule engine_inv_workflow(1) [OF assms(1)])
  show "set (workflow_ids e' w) = {i. \<exists>t. task_of e' i = Some t \<and> WorkflowID t = w}" for w
    unfolding w grows_task_of [OF assms] by (rule engine_inv_workflow(2) [OF assms(1)])
  show "finite (dom (tasks e'))"
    unfolding w by (rule engine_inv_workflow(3) [OF assms(1)])
qed

section \<open>The effect of a transition\<close>

text \<open>The tail the three transition operations share: append, apply, return a copy.\<close>

definition commit ::
    "'w Logger \<Rightarrow> clock \<Rightarrow> ('w, 'p) Engine \<Rightarrow> addr \<Rightarrow> Task \<Rightarrow> Entry \<Rightarrow> State \<Rightarrow> string \<Rightarrow>
     addr result \<times> ('w, 'p) Engine" where
  "commit L clk e a t entry s msg =
     (case Append L (clk 0) entry (walLogger e) of
        (Inl err, w) \<Rightarrow> (Inl (msg @ err), e\<lparr>walLogger := w\<rparr>)
      | (Inr seq, w) \<Rightarrow>
          let e = e\<lparr>walLogger := w\<rparr> in
          case TransitionTo (\<lambda>i. clk (1 + i)) t s of
            (Some err, t') \<Rightarrow> (Inl err, store a t' e)
          | (None, t') \<Rightarrow>
              let e = (store a t' e)\<lparr>sequenceCounter := seq\<rparr>;
                  (p, e) = alloc (Copy t') e
              in (Inr p, e))"

lemma TransitionTask_commit:
  "TransitionTask L clk e i s =
     (if i = [] then (Inl ''task_id is required'', e)
      else case tasks e i of
             None \<Rightarrow> (Inl (''task not found: '' @ i), e)
           | Some a \<Rightarrow>
               (case CanTransition (State (objects e a)) s of
                  Some err \<Rightarrow> (Inl (''invalid state transition: '' @ err), e)
                | None \<Rightarrow>
                    commit L clk e a (objects e a)
                      (wal_entry i (WorkflowID (objects e a)) s (Payload (objects e a))) s
                      ''failed to persist state transition to WAL: ''))"
  unfolding TransitionTask_def commit_def Let_def ..

lemma CompleteTask_commit:
  "CompleteTask L clk e i r =
     (if i = [] then (Inl ''task_id is required'', e)
      else case tasks e i of
             None \<Rightarrow> (Inl (''task not found: '' @ i), e)
           | Some a \<Rightarrow>
               if State (objects e a) \<noteq> StateDispatched
               then (Inl (''task must be in DISPATCHED state to complete, current: '' @
                       State (objects e a)), e)
               else commit L clk (store a ((objects e a)\<lparr>Result := r\<rparr>) e) a ((objects e a)\<lparr>Result := r\<rparr>)
                      (wal_entry i (WorkflowID (objects e a)) StateCompleted r) StateCompleted
                      ''failed to persist completion to WAL: '')"
  unfolding CompleteTask_def commit_def Let_def by (cases "tasks e i") simp_all

lemma FailTask_commit:
  "FailTask L clk e i m =
     (if i = [] then (Inl ''task_id is required'', e)
      else case tasks e i of
             None \<Rightarrow> (Inl (''task not found: '' @ i), e)
           | Some a \<Rightarrow>
               if State (objects e a) \<noteq> StateDispatched
               then (Inl (''task must be in DISPATCHED state to fail, current: '' @
                       State (objects e a)), e)
               else commit L clk (store a ((objects e a)\<lparr>Error := m\<rparr>) e) a ((objects e a)\<lparr>Error := m\<rparr>)
                      (wal_entry i (WorkflowID (objects e a)) StateFailed (Some (bytes_of_string m)))
                      StateFailed ''failed to persist failure to WAL: '')"
  unfolding FailTask_def commit_def Let_def by (cases "tasks e i") simp_all

lemma commit_ok:
  assumes "transition (State t) s" and "Append L (clk 0) entry (walLogger e) = (Inr seq, w)"
  shows "commit L clk e a t entry s msg =
    (Inr (next_addr e),
     snd (alloc (snd (TransitionTo (\<lambda>i. clk (1 + i)) t s))
       ((store a (snd (TransitionTo (\<lambda>i. clk (1 + i)) t s)) e)\<lparr>walLogger := w, sequenceCounter := seq\<rparr>)))"
proof -
  from assms(1) obtain t' where "TransitionTo (\<lambda>i. clk (1 + i)) t s = (None, t')"
    by (metis TransitionTo_None_iff prod.collapse)
  with assms(2) show ?thesis
    by (simp add: commit_def Let_def split_beta)
qed

lemma commit_err:
  "Append L (clk 0) entry (walLogger e) = (Inl err, w) \<Longrightarrow>
   commit L clk e a t entry s msg = (Inl (msg @ err), e\<lparr>walLogger := w\<rparr>)"
  by (simp add: commit_def)

text \<open>
  The result changes only with completion and the error text only with failure.
\<close>

definition payload_rule :: "State \<Rightarrow> Task \<Rightarrow> Task \<Rightarrow> bool" where
  "payload_rule s t u \<longleftrightarrow>
     (s \<noteq> StateCompleted \<longrightarrow> Result u = Result t) \<and> (s \<noteq> StateFailed \<longrightarrow> Error u = Error t)"

text \<open>The common effect of a successful transition of task \<open>i\<close> to state \<open>s\<close>.\<close>

inductive moved :: "'w Logger \<Rightarrow> ('w, 'p) Engine \<Rightarrow> string \<Rightarrow> State \<Rightarrow> ('w, 'p) Engine \<Rightarrow> bool"
  for L where
  movedI: "tasks e i = Some a \<Longrightarrow> u = (objects e a)\<lparr>Result := r, Error := m\<rparr> \<Longrightarrow>
    payload_rule s (objects e a) u \<Longrightarrow>
    transition (State u) s \<Longrightarrow>
    Append L now (wal_entry i (WorkflowID u) s d) (walLogger e) = (Inr seq, w) \<Longrightarrow>
    t = snd (TransitionTo clk u s) \<Longrightarrow>
    moved L e i s (snd (alloc t ((store a t e)\<lparr>walLogger := w, sequenceCounter := seq\<rparr>)))"

lemma stored_view:
  assumes "engine_inv e" and a: "tasks e i = Some a"
  shows "task_of (snd (alloc t ((store a t e)\<lparr>walLogger := w, sequenceCounter := seq\<rparr>))) =
    (task_of e)(i \<mapsto> t)" (is "task_of ?e = _")
proof
  fix j show "task_of ?e j = ((task_of e)(i \<mapsto> t)) j"
  proof (cases "tasks e j")
    case None
    with a show ?thesis by (auto simp: task_of_def)
  next
    case (Some b)
    have "b < next_addr e" by (rule engine_inv_task(1) [OF assms(1) Some])
    moreover have "b = a \<longleftrightarrow> j = i"
      using engine_inv_inj [OF assms(1)] a Some by auto
    ultimately show ?thesis using Some by (simp add: task_of_def)
  qed
qed

lemma moved_task_of:
  assumes "engine_inv e" and "moved L e i s e'"
  obtains t u clk where "task_of e i = Some t" and "u = t\<lparr>Result := Result u, Error := Error u\<rparr>"
    and "transition (State t) s" and "payload_rule s t u"
    and "task_of e' = (task_of e)(i \<mapsto> snd (TransitionTo clk u s))"
  using assms(2)
proof (cases rule: moved.cases)
  case (movedI a u r m now d seq w t clk)
  with stored_view [OF assms(1) movedI(2)] show ?thesis
    by (intro that [of "objects e a" u]) (auto simp: task_of_def)
qed

lemma moved_tasks:
  assumes "moved L e i s e'"
  shows "tasks e' = tasks e" "workflowTasks e' = workflowTasks e" "partitionMgr e' = partitionMgr e"
    "next_addr e' = Suc (next_addr e)"
  using assms by (auto elim!: moved.cases)

lemma moved_wal:
  assumes "moved L e i s e'"
  obtains t now d seq where "task_of e i = Some t"
    and "Append L now (wal_entry i (WorkflowID t) s d) (walLogger e) = (Inr seq, walLogger e')"
    and "sequenceCounter e' = seq"
  using assms
proof (cases rule: moved.cases)
  case (movedI a u r m now d seq w t clk)
  have "WorkflowID u = WorkflowID (objects e a)" by (simp add: movedI(3))
  with movedI show ?thesis
    by (intro that [of "objects e a" now d seq]) (auto simp: task_of_def)
qed

lemma task_inv_payload [simp]: "task_inv (t\<lparr>Result := r, Error := m\<rparr>) = task_inv t"
  by (simp add: task_inv_def)

lemma engine_inv_view:
  assumes "\<And>i a. tasks e i = Some a \<Longrightarrow> a < next_addr e"
    and "\<And>i t. task_of e i = Some t \<Longrightarrow> i \<noteq> [] \<and> ID t = i \<and> WorkflowID t \<noteq> [] \<and> task_inv t"
    and "\<And>w. distinct (workflow_ids e w)"
    and "\<And>w. set (workflow_ids e w) = {i. \<exists>t. task_of e i = Some t \<and> WorkflowID t = w}"
    and "finite (dom (tasks e))"
  shows "engine_inv e"
proof (rule engine_invI)
  fix i a assume a: "tasks e i = Some a"
  then have "task_of e i = Some (objects e a)" by (simp add: task_of_def)
  from assms(2) [OF this] assms(1) [OF a]
  show "a < next_addr e \<and> i \<noteq> [] \<and> ID (objects e a) = i \<and> WorkflowID (objects e a) \<noteq> [] \<and>
      task_inv (objects e a)" by simp
qed (use assms(3-5) in simp_all)

lemma engine_inv_task_of:
  assumes "engine_inv e" and "task_of e i = Some t"
  shows "i \<noteq> [] \<and> ID t = i \<and> WorkflowID t \<noteq> [] \<and> task_inv t"
  using assms engine_inv_task by (fastforce simp: task_of_Some_iff)

lemma engine_inv_moved:
  assumes inv: "engine_inv e" and mv: "moved L e i s e'"
  shows "engine_inv e'"
proof -
  from moved_task_of [OF inv mv] obtain t u clk where t: "task_of e i = Some t"
    and u: "u = t\<lparr>Result := Result u, Error := Error u\<rparr>"
    and view: "task_of e' = (task_of e)(i \<mapsto> snd (TransitionTo clk u s))" by metis
  let ?t = "snd (TransitionTo clk u s)"
  have "ID u = ID t" "WorkflowID u = WorkflowID t" "task_inv u = task_inv t"
    by (subst u, simp)+
  with engine_inv_task_of [OF inv t] have
    new: "i \<noteq> [] \<and> ID ?t = i \<and> WorkflowID ?t = WorkflowID t \<and> WorkflowID ?t \<noteq> [] \<and> task_inv ?t"
    by (simp add: task_inv_TransitionTo)
  have w: "workflow_ids e' = workflow_ids e"
    by (simp add: fun_eq_iff workflow_ids_def moved_tasks [OF mv])
  show ?thesis
  proof (rule engine_inv_view)
    show "tasks e' j = Some b \<Longrightarrow> b < next_addr e'" for j b
      using engine_inv_task(1) [OF inv] by (auto simp: moved_tasks [OF mv] less_Suc_eq)
    show "task_of e' j = Some x \<Longrightarrow> j \<noteq> [] \<and> ID x = j \<and> WorkflowID x \<noteq> [] \<and> task_inv x" for j x
      using new engine_inv_task_of [OF inv] by (auto simp: view split: if_splits)
    show "distinct (workflow_ids e' v)" for v
      unfolding w by (rule engine_inv_workflow(1) [OF inv])
    show "set (workflow_ids e' v) = {j. \<exists>x. task_of e' j = Some x \<and> WorkflowID x = v}" for v
      unfolding w engine_inv_workflow(2) [OF inv] view using new t by auto
    show "finite (dom (tasks e'))"
      unfolding moved_tasks [OF mv] by (rule engine_inv_workflow(3) [OF inv])
  qed
qed

section \<open>The effect of creation\<close>

inductive created ::
    "'w Logger \<Rightarrow> 'p Manager \<Rightarrow> ('w, 'p) Engine \<Rightarrow> string \<Rightarrow> Task \<Rightarrow> ('w, 'p) Engine \<Rightarrow> bool"
  for L P where
  createdI: "i \<noteq> [] \<Longrightarrow> w \<noteq> [] \<Longrightarrow>
    Append L now (wal_entry i w StatePending d) (walLogger e) = (Inr seq, l) \<Longrightarrow>
    AssignPartition P (partitionMgr e) i = Inr pid \<Longrightarrow>
    t = (NewTask clk i w n d)\<lparr>PartitionID := pid\<rparr> \<Longrightarrow>
    created L P e i t
      ((snd (alloc t (e\<lparr>walLogger := l, sequenceCounter := seq\<rparr>)))
        \<lparr>tasks := (tasks e)(i \<mapsto> next_addr e),
         workflowTasks := (workflowTasks e)(w \<mapsto> workflow_ids e w @ [i])\<rparr>)"

lemma CreateTask_ok:
  assumes "workflowID \<noteq> []" and "taskName \<noteq> []" and "i = task_id workflowID (clk 0)"
    and "AssignPartition P (partitionMgr e) i = Inr pid"
    and "Append L (clk 2) (wal_entry i workflowID StatePending d) (walLogger e) = (Inr seq, l)"
    and "t = (NewTask (\<lambda>k. clk (1 + k)) i workflowID taskName d)\<lparr>PartitionID := pid\<rparr>"
  shows "CreateTask L P clk e workflowID taskName d =
    (Inr (next_addr e),
     (snd (alloc t (e\<lparr>walLogger := l, sequenceCounter := seq\<rparr>)))
        \<lparr>tasks := (tasks e)(i \<mapsto> next_addr e),
         workflowTasks := (workflowTasks e)(workflowID \<mapsto> workflow_ids e workflowID @ [i])\<rparr>)"
  unfolding CreateTask_def Let_def assms(3) [symmetric] assms(4)
  using assms(1,2,5,6) by (simp add: split_beta workflow_ids_def)

lemma created_task_of:
  assumes "engine_inv e" and "created L P e i t e'"
  shows "task_of e' = (task_of e)(i \<mapsto> t)"
  using assms(2)
proof (cases rule: created.cases)
  case (createdI w now d seq l pid clk n)
  have "task_of e' j = ((task_of e)(i \<mapsto> t)) j" for j
  proof (cases "j = i \<or> tasks e j = None")
    case True
    then show ?thesis by (auto simp: createdI(1) task_of_def)
  next
    case False
    then obtain b where b: "tasks e j = Some b" "j \<noteq> i" by auto
    from engine_inv_task(1) [OF assms(1) b(1)] b show ?thesis by (simp add: createdI(1) task_of_def)
  qed
  then show ?thesis by (rule ext)
qed

lemma created_task:
  assumes "created L P e i t e'"
  shows "i \<noteq> []" "ID t = i" "WorkflowID t \<noteq> []" "State t = StatePending" "task_inv t"
    "Result t = None" "Error t = []" "Attempts t = 0" "MaxAttempts t = 3"
    "AssignPartition P (partitionMgr e) i = Inr (PartitionID t)"
  using assms by (auto elim!: created.cases simp: task_inv_def)

lemma created_tasks:
  assumes "created L P e i t e'"
  shows "tasks e' = (tasks e)(i \<mapsto> next_addr e)" "next_addr e' = Suc (next_addr e)"
    "partitionMgr e' = partitionMgr e"
    "workflow_ids e' = (workflow_ids e)(WorkflowID t := workflow_ids e (WorkflowID t) @ [i])"
  using assms by (auto elim!: created.cases simp: workflow_ids_def fun_eq_iff)

lemma created_wal:
  assumes "created L P e i t e'"
  obtains now d seq where
    "Append L now (wal_entry i (WorkflowID t) StatePending d) (walLogger e) = (Inr seq, walLogger e')"
    and "sequenceCounter e' = seq" and "d = Payload t"
  using assms
proof (cases rule: created.cases)
  case (createdI w now d seq l pid clk n)
  then have "WorkflowID t = w" "Payload t = d" by simp_all
  with createdI show ?thesis by (intro that [of now d seq]) auto
qed

lemma engine_inv_created:
  assumes inv: "engine_inv e" and cr: "created L P e i t e'" and fresh: "task_of e i = None"
  shows "engine_inv e'"
proof (rule engine_inv_view)
  note view = created_task_of [OF inv cr]
  note ct = created_task [OF cr]
  have notin: "i \<notin> set (workflow_ids e v)" for v
    using fresh by (simp add: engine_inv_workflow(2) [OF inv])
  show "tasks e' j = Some b \<Longrightarrow> b < next_addr e'" for j b
    using engine_inv_task(1) [OF inv] by (auto simp: created_tasks [OF cr] less_Suc_eq split: if_splits)
  show "task_of e' j = Some x \<Longrightarrow> j \<noteq> [] \<and> ID x = j \<and> WorkflowID x \<noteq> [] \<and> task_inv x" for j x
    using ct engine_inv_task_of [OF inv] by (auto simp: view split: if_splits)
  show "distinct (workflow_ids e' v)" for v
    using engine_inv_workflow(1) [OF inv] notin by (simp add: created_tasks [OF cr])
  show "set (workflow_ids e' v) = {j. \<exists>x. task_of e' j = Some x \<and> WorkflowID x = v}" for v
    using fresh by (auto simp: created_tasks [OF cr] engine_inv_workflow(2) [OF inv] view)
  show "finite (dom (tasks e'))"
    using engine_inv_workflow(3) [OF inv] by (simp add: created_tasks [OF cr])
qed

lemma wal_entry_simps [simp]:
  "TaskID (wal_entry i w s d) = i" "EntryWorkflowID (wal_entry i w s d) = w"
  "EntryState (wal_entry i w s d) = s" "Data (wal_entry i w s d) = d"
  by (simp_all add: wal_entry_def)

lemma entry_ok_wal_entry [simp]:
  "entry_ok (wal_entry i w s d) \<longleftrightarrow> i \<noteq> [] \<and> w \<noteq> [] \<and> s \<noteq> []"
  by (simp add: entry_ok_def)

lemma transition_nonempty: "transition s s' \<Longrightarrow> s' \<noteq> []"
  using transition_valid IsValidState_nonempty by blast

section \<open>Queries only allocate copies\<close>

lemma GetTask_grows: "grows e (snd (GetTask e i))"
  by (auto simp: GetTask_def split_beta split: option.splits)

lemma copy_workflow_tasks_grows: "grows e (snd (copy_workflow_tasks ids e))"
proof (induction ids arbitrary: e)
  case Nil
  then show ?case by simp
next
  case (Cons i ids)
  show ?case
  proof (cases "tasks e i")
    case None
    then show ?thesis by simp
  next
    case (Some a)
    have "grows e (snd (copy_workflow_tasks ids (snd (alloc (Copy (objects e a)) e))))"
      by (rule grows_trans [OF grows_alloc Cons.IH])
    with Some show ?thesis by (simp add: split_beta split: outcome.splits prod.splits)
  qed
qed

lemma GetWorkflowTasks_grows: "grows e (snd (GetWorkflowTasks e w))"
  using copy_workflow_tasks_grows [of e]
  by (auto simp: GetWorkflowTasks_def split: option.splits outcome.splits prod.splits)
    (metis snd_conv)+

lemma selection_grows:
  "grows e (snd (GetTasksByState order e s))" "grows e (snd (GetTasksForPartition order e pid))"
  by (simp_all add: GetTasksByState_def GetTasksForPartition_def grows_alloc_all)

lemma copy_workflow_tasks_ok:
  assumes "engine_inv e" and "\<forall>i \<in> set ids. task_of e i \<noteq> None"
  shows "\<exists>ps e'. copy_workflow_tasks ids e = (Return ps, e') \<and>
    map (\<lambda>p. Some (objects e' p)) ps = map (task_of e) ids \<and> (\<forall>p \<in> set ps. next_addr e \<le> p)"
  using assms
proof (induction ids arbitrary: e)
  case Nil
  then show ?case by simp
next
  case (Cons i ids)
  then obtain a where a: "tasks e i = Some a" by (auto simp: task_of_def)
  let ?e = "snd (alloc (objects e a) e)"
  have view: "task_of ?e = task_of e" by (rule grows_task_of [OF Cons.prems(1) grows_alloc])
  have "engine_inv ?e" by (rule engine_inv_grows [OF Cons.prems(1) grows_alloc])
  with Cons.IH [of ?e] Cons.prems(2) obtain ps e' where
    ih: "copy_workflow_tasks ids ?e = (Return ps, e')" "map (\<lambda>p. Some (objects e' p)) ps = map (task_of e) ids"
      "\<forall>p \<in> set ps. Suc (next_addr e) \<le> p"
    by (auto simp: view)
  from ih(1) copy_workflow_tasks_grows [of ?e ids] have "grows ?e e'" by simp
  then have "objects e' (next_addr e) = objects e a" by (simp add: grows_def)
  with ih a show ?case by (auto simp: split_beta task_of_def)
qed

section \<open>Specification: a registry of tasks\<close>

text \<open>
  What the engine promises its callers, without pointers, log or partitions: a map from
  identifiers to tasks, in which a task is added in state PENDING and then only moves along the
  transitions that state.go accepts.
\<close>

inductive spec_step :: "(string \<rightharpoonup> Task) \<Rightarrow> (string \<rightharpoonup> Task) \<Rightarrow> bool" where
  idle: "spec_step m m"
| add: "m i = None \<Longrightarrow> ID t = i \<Longrightarrow> State t = StatePending \<Longrightarrow> Attempts t = 0 \<Longrightarrow>
    Result t = None \<Longrightarrow> Error t = [] \<Longrightarrow> spec_step m (m(i \<mapsto> t))"
| move: "m i = Some t \<Longrightarrow> u = t\<lparr>Result := Result u, Error := Error u\<rparr> \<Longrightarrow> payload_rule s t u \<Longrightarrow>
    transition (State t) s \<Longrightarrow> spec_step m (m(i \<mapsto> snd (TransitionTo clk u s)))"

lemma spec_step_moved:
  assumes "engine_inv e" and "moved L e i s e'"
  shows "spec_step (task_of e) (task_of e')"
  by (rule moved_task_of [OF assms]) (metis spec_step.move)

lemma spec_step_created:
  assumes "engine_inv e" and "created L P e i t e'" and "task_of e i = None"
  shows "spec_step (task_of e) (task_of e')"
  unfolding created_task_of [OF assms(1,2)]
  by (rule spec_step.add [of "task_of e", OF assms(3)]) (simp_all add: created_task [OF assms(2)])

locale engine_env = wal_logger L wf + partition_manager P ok
  for L :: "'w Logger" and wf and P :: "'p Manager" and ok
begin

definition good :: "('w, 'p) Engine \<Rightarrow> bool" where
  "good e \<longleftrightarrow> engine_inv e \<and> wf (walLogger e) \<and> ok (partitionMgr e)"

text \<open>
  The common tail succeeds: the log accepts the entry, the task in the registry is replaced by
  the transitioned one, and the pointer returned is a new object with the same contents.
\<close>

lemma commit_effect:
  assumes "good e" and a: "tasks e i = Some a" and u: "u = (objects e a)\<lparr>Result := r, Error := m\<rparr>"
    and tr: "transition (State u) s" and "payload_rule s (objects e a) u"
    and e1: "e1 = store a u e" and t: "t = snd (TransitionTo (\<lambda>k. clk (1 + k)) u s)"
  shows "\<exists>e'. commit L clk e1 a u (wal_entry i (WorkflowID (objects e a)) s d) s msg = (Inr (next_addr e), e') \<and>
     moved L e i s e' \<and> task_of e' = (task_of e)(i \<mapsto> t) \<and> objects e' (next_addr e) = t"
proof -
  from assms have wf: "wf (walLogger e)" and inv: "engine_inv e" by (auto simp: good_def)
  have "entry_ok (wal_entry i (WorkflowID (objects e a)) s d)"
    using engine_inv_task [OF inv a] transition_nonempty [OF tr] by simp
  from append_cases [OF wf this, of "clk 0"] obtain seq w where
    ap: "Append L (clk 0) (wal_entry i (WorkflowID (objects e a)) s d) (walLogger e) = (Inr seq, w)"
    by metis
  let ?e = "snd (alloc t ((store a t e)\<lparr>walLogger := w, sequenceCounter := seq\<rparr>))"
  have "moved L e i s ?e"
    using assms(2-5) ap t by (intro movedI [where d = d and now = "clk 0"]) (auto simp: u)
  moreover have ap1: "Append L (clk 0) (wal_entry i (WorkflowID (objects e a)) s d) (walLogger e1) = (Inr seq, w)"
    using ap by (simp add: e1)
  moreover note commit_ok [where clk = clk, OF tr ap1, of a msg, folded t]
  ultimately show ?thesis using stored_view [OF inv a, where t = t and w = w and seq = seq] by (simp add: e1)
qed

lemma TransitionTask_success:
  assumes "good e" and a: "tasks e i = Some a" and tr: "transition (State (objects e a)) s"
  shows "\<exists>e'. TransitionTask L clk e i s = (Inr (next_addr e), e') \<and> moved L e i s e' \<and>
    (\<exists>t. t = snd (TransitionTo (\<lambda>k. clk (1 + k)) (objects e a) s) \<and>
      task_of e' = (task_of e)(i \<mapsto> t) \<and> objects e' (next_addr e) = t)"
proof -
  have "i \<noteq> []" using assms engine_inv_task(2) by (auto simp: good_def)
  with a tr commit_effect [OF assms(1) a, where u = "objects e a" and r = "Result (objects e a)"
        and m = "Error (objects e a)" and s = s and clk = clk]
  show ?thesis by (simp add: TransitionTask_commit payload_rule_def store_def)
qed

lemma CompleteTask_success:
  assumes "good e" and a: "tasks e i = Some a" and st: "State (objects e a) = StateDispatched"
  shows "\<exists>e'. CompleteTask L clk e i r = (Inr (next_addr e), e') \<and> moved L e i StateCompleted e' \<and>
    (\<exists>t. t = snd (TransitionTo (\<lambda>k. clk (1 + k)) ((objects e a)\<lparr>Result := r\<rparr>) StateCompleted) \<and>
      task_of e' = (task_of e)(i \<mapsto> t) \<and> objects e' (next_addr e) = t)"
proof -
  have "i \<noteq> []" using assms engine_inv_task(2) by (auto simp: good_def)
  with a st commit_effect [OF assms(1) a, where u = "(objects e a)\<lparr>Result := r\<rparr>" and r = r
      and m = "Error (objects e a)" and s = StateCompleted and clk = clk]
  show ?thesis by (simp add: CompleteTask_commit payload_rule_def)
qed

lemma FailTask_success:
  assumes "good e" and a: "tasks e i = Some a" and st: "State (objects e a) = StateDispatched"
  shows "\<exists>e'. FailTask L clk e i m = (Inr (next_addr e), e') \<and> moved L e i StateFailed e' \<and>
    (\<exists>t. t = snd (TransitionTo (\<lambda>k. clk (1 + k)) ((objects e a)\<lparr>Error := m\<rparr>) StateFailed) \<and>
      task_of e' = (task_of e)(i \<mapsto> t) \<and> objects e' (next_addr e) = t)"
proof -
  have "i \<noteq> []" using assms engine_inv_task(2) by (auto simp: good_def)
  with a st commit_effect [OF assms(1) a, where u = "(objects e a)\<lparr>Error := m\<rparr>" and m = m
      and r = "Result (objects e a)" and s = StateFailed and clk = clk]
  show ?thesis by (simp add: FailTask_commit payload_rule_def)
qed

text \<open>Each transition operation fails without any change or has the effect \<open>moved\<close>.\<close>

lemma TransitionTask_cases:
  assumes "good e"
  shows "(\<exists>err. TransitionTask L clk e i s = (Inl err, e)) \<or>
    (\<exists>e'. TransitionTask L clk e i s = (Inr (next_addr e), e') \<and> moved L e i s e')"
proof (cases "\<exists>a. tasks e i = Some a \<and> transition (State (objects e a)) s")
  case True
  then show ?thesis using TransitionTask_success [OF assms] by blast
next
  case False
  then have "\<exists>err. CanTransition (State (objects e a)) s = Some err" if "tasks e i = Some a" for a
    using that CanTransition_Some_iff by blast
  then show ?thesis by (cases "tasks e i") (auto simp: TransitionTask_commit)
qed

lemma CompleteTask_cases:
  assumes "good e"
  shows "(\<exists>err. CompleteTask L clk e i r = (Inl err, e)) \<or>
    (\<exists>e'. CompleteTask L clk e i r = (Inr (next_addr e), e') \<and> moved L e i StateCompleted e')"
proof (cases "\<exists>a. tasks e i = Some a \<and> State (objects e a) = StateDispatched")
  case True
  then show ?thesis using CompleteTask_success [OF assms] by blast
next
  case False
  then show ?thesis by (cases "tasks e i") (auto simp: CompleteTask_commit)
qed

lemma FailTask_cases:
  assumes "good e"
  shows "(\<exists>err. FailTask L clk e i m = (Inl err, e)) \<or>
    (\<exists>e'. FailTask L clk e i m = (Inr (next_addr e), e') \<and> moved L e i StateFailed e')"
proof (cases "\<exists>a. tasks e i = Some a \<and> State (objects e a) = StateDispatched")
  case True
  then show ?thesis using FailTask_success [OF assms] by blast
next
  case False
  then show ?thesis by (cases "tasks e i") (auto simp: FailTask_commit)
qed

lemma CreateTask_success:
  assumes "good e" and ne: "workflowID \<noteq> []" "taskName \<noteq> []"
  shows "\<exists>t e'. CreateTask L P clk e workflowID taskName d = (Inr (next_addr e), e') \<and>
    created L P e (task_id workflowID (clk 0)) t e' \<and> WorkflowID t = workflowID \<and>
    Name t = taskName \<and> Payload t = d \<and> objects e' (next_addr e) = t"
proof -
  let ?i = "task_id workflowID (clk 0)"
  have i: "?i \<noteq> []" by (simp add: task_id_def)
  from assms have wf: "wf (walLogger e)" and ok: "ok (partitionMgr e)" by (auto simp: good_def)
  from assign_total [OF ok i] obtain pid where pid: "AssignPartition P (partitionMgr e) ?i = Inr pid" by auto
  have "entry_ok (wal_entry ?i workflowID StatePending d)" using i ne by simp
  from append_cases [OF wf this, of "clk 2"] obtain seq l where
    ap: "Append L (clk 2) (wal_entry ?i workflowID StatePending d) (walLogger e) = (Inr seq, l)" by metis
  let ?t = "(NewTask (\<lambda>k. clk (1 + k)) ?i workflowID taskName d)\<lparr>PartitionID := pid\<rparr>"
  note res = CreateTask_ok [OF ne refl pid ap refl]
  moreover have "created L P e ?i ?t (snd (CreateTask L P clk e workflowID taskName d))"
    unfolding res snd_conv by (rule createdI [OF i ne(1) ap pid refl])
  ultimately show ?thesis by (auto simp del: One_nat_def)
qed

lemma CreateTask_cases:
  assumes "good e"
  shows "(\<exists>err. CreateTask L P clk e workflowID taskName d = (Inl err, e)) \<or>
    (\<exists>t e'. CreateTask L P clk e workflowID taskName d = (Inr (next_addr e), e') \<and>
       created L P e (task_id workflowID (clk 0)) t e')"
proof (cases "workflowID = [] \<or> taskName = []")
  case True
  then show ?thesis by (auto simp: CreateTask_def)
next
  case False
  then show ?thesis using CreateTask_success [OF assms] by blast
qed

lemma moved_good:
  assumes "good e" and mv: "moved L e i s e'"
  shows "good e'"
proof -
  from mv obtain t :: Task and now d seq where
    "Append L now (wal_entry i (WorkflowID t) s d) (walLogger e) = (Inr seq, walLogger e')"
    by (rule moved_wal) blast
  with assms(1) append_wf have "wf (walLogger e')" by (metis good_def snd_conv)
  with assms engine_inv_moved [OF _ mv] show ?thesis by (simp add: good_def moved_tasks [OF mv])
qed

lemma created_good:
  assumes "good e" and cr: "created L P e i t e'" and "task_of e i = None"
  shows "good e'"
proof -
  from cr obtain now d seq where
    "Append L now (wal_entry i (WorkflowID t) StatePending d) (walLogger e) = (Inr seq, walLogger e')"
    by (rule created_wal) blast
  with assms(1) append_wf have "wf (walLogger e')" by (metis good_def snd_conv)
  with assms engine_inv_created [OF _ cr] show ?thesis by (simp add: good_def created_tasks [OF cr])
qed

lemma grows_good: "good e \<Longrightarrow> grows e e' \<Longrightarrow> good e'"
  using engine_inv_grows by (auto simp: good_def grows_def)

lemma Checkpoint_good: "good e \<Longrightarrow> good (snd (Checkpoint L e seq)) \<and> task_of (snd (Checkpoint L e seq)) = task_of e"
proof -
  assume g: "good e"
  let ?e = "snd (Checkpoint L e seq)"
  have fields: "tasks ?e = tasks e" "workflowTasks ?e = workflowTasks e" "objects ?e = objects e"
    "next_addr ?e = next_addr e" "partitionMgr ?e = partitionMgr e"
    "walLogger ?e = snd (CheckpointLog L seq (walLogger e))"
    by (simp_all add: Checkpoint_def split_beta)
  then have view: "task_of ?e = task_of e" "workflow_ids ?e = workflow_ids e"
    by (intro ext, simp add: task_of_def workflow_ids_def)+
  with g show ?thesis
    using checkpoint_wf by (simp add: good_def engine_inv_def fields)
qed

lemma step_cases:
  assumes "good e" and "fresh_step L P e e'"
  obtains "grows e e'" | i t where "created L P e i t e'" and "task_of e i = None"
    | i s where "moved L e i s e'" | seq where "e' = snd (Checkpoint L e seq)"
  using assms(2)
proof (cases rule: fresh_step_cases)
  case (create workflowID clk taskName payload)
  show ?thesis
  proof (cases "workflowID = [] \<or> taskName = []")
    case True
    then have "e' = e" by (auto simp: create(1) CreateTask_def)
    then show ?thesis by (intro that(1)) simp
  next
    case False
    then obtain t where "created L P e (task_id workflowID (clk 0)) t e'"
      using CreateTask_success [OF assms(1), of workflowID taskName clk payload] create(1) by auto
    then show ?thesis by (rule that(2)) (use create(2) False in auto)
  qed
next
  case (transition clk taskID newState)
  with TransitionTask_cases [OF assms(1), of clk taskID newState] that show ?thesis by fastforce
next
  case (complete clk taskID result)
  with CompleteTask_cases [OF assms(1), of clk taskID result] that show ?thesis by fastforce
next
  case (failed clk taskID errorMsg)
  with FailTask_cases [OF assms(1), of clk taskID errorMsg] that show ?thesis by fastforce
next
  case get
  then show ?thesis using that(1) GetTask_grows by metis
next
  case workflow
  then show ?thesis using that(1) GetWorkflowTasks_grows by metis
next
  case by_state
  then show ?thesis using that(1) selection_grows(1) by metis
next
  case for_partition
  then show ?thesis using that(1) selection_grows(2) by metis
next
  case checkpoint
  then show ?thesis by (rule that(4))
qed

text \<open>Every step keeps the engine well-formed and is a step of the registry.\<close>

lemma step_simulates:
  assumes "good e" and "fresh_step L P e e'"
  shows "good e' \<and> spec_step (task_of e) (task_of e')"
proof -
  have inv: "engine_inv e" using assms(1) by (simp add: good_def)
  show ?thesis
    using assms
  proof (cases rule: step_cases)
    case 1
    have "task_of e' = task_of e" by (rule grows_task_of [OF inv 1])
    then show ?thesis using grows_good [OF assms(1) 1] by (simp add: spec_step.idle)
  next
    case (2 i t)
    then show ?thesis
      using created_good [OF assms(1)] spec_step_created [OF inv] by blast
  next
    case (3 i s)
    then show ?thesis using moved_good [OF assms(1)] spec_step_moved [OF inv] by blast
  next
    case (4 seq)
    then show ?thesis using Checkpoint_good [OF assms(1)] by (simp add: spec_step.idle)
  qed
qed

lemma steps_simulate:
  assumes "(fresh_step L P)\<^sup>*\<^sup>* e e'" and "good e"
  shows "good e' \<and> spec_step\<^sup>*\<^sup>* (task_of e) (task_of e')"
  using assms
proof (induction rule: rtranclp_induct)
  case base
  then show ?case by simp
next
  case (step y z)
  then show ?case using step_simulates [of y z] by (metis rtranclp.rtrancl_into_rtrancl)
qed

end

text \<open>The engine as the program builds it: either logger, and the default partition manager.\<close>

interpretation eng: engine_env WalLogger_methods WalLogger_wf DefaultManager_methods
  "\<lambda>m. 0 < sint (partitionCount m)"
  by unfold_locales

text \<open>
  The engine with a log in any state, also one that was closed: for the registry it only matters
  that the log accepts entries.
\<close>

interpretation anyeng: engine_env WalLogger_methods "\<lambda>_. True" DefaultManager_methods
  "\<lambda>m. 0 < sint (partitionCount m)"
proof
  show "\<exists>seq. fst (Append WalLogger_methods now en w) = Inr seq" if "entry_ok en" for w en now
    using that by (cases w) (auto simp: WalLogger_methods_def InMemoryLogger_Append_def
        NoOpLogger_Append_def entry_ok_def Let_def)
  show "snd (Append WalLogger_methods now en w) = w" if "fst (Append WalLogger_methods now en w) = Inl err"
    for now en w err
    using that by (rule anylog.append_rejects)
qed simp_all

section \<open>Runs\<close>

abbreviation "wal_m \<equiv> WalLogger_methods"
abbreviation "pm_m \<equiv> DefaultManager_methods"

lemma created_ids_append [simp]: "created_ids (evs @ es) = created_ids evs @ created_ids es"
  by (induction evs rule: created_ids.induct) simp_all

lemma created_ids_set: "i \<in> set (created_ids evs) \<longleftrightarrow> Creates i \<in> set evs"
  by (induction evs rule: created_ids.induct) auto

lemma tasks_commit: "tasks (snd (commit L clk e a t entry s msg)) = tasks e"
  by (simp add: commit_def Let_def split_beta split: sum.split option.split)

text \<open>Only creations add identifiers, in any engine and with any arguments.\<close>

lemma engine_step_dom:
  assumes "engine_step L P evs e e'"
  shows "dom (task_of e') \<subseteq> dom (task_of e) \<union> set (created_ids evs)"
proof -
  have dom: "dom (task_of x) = dom (tasks x)" for x :: "('w, 'p) Engine"
    by (auto simp: task_of_def)
  from assms have "dom (tasks e') \<subseteq> dom (tasks e) \<union> set (created_ids evs)"
  proof (cases rule: engine_step.cases)
    case (create w n clk d)
    then show ?thesis
      by (auto simp: CreateTask_def Let_def alloc_def split: sum.splits prod.splits if_splits)
  next
    case (transition clk i s)
    then show ?thesis
      by (auto simp: TransitionTask_commit tasks_commit split: option.splits)
  next
    case (complete clk i r)
    then show ?thesis by (auto simp: CompleteTask_commit tasks_commit split: option.splits)
  next
    case (failed clk i m)
    then show ?thesis by (auto simp: FailTask_commit tasks_commit split: option.splits)
  next
    case (get i)
    then show ?thesis using GetTask_grows [of e i] by (simp add: grows_def)
  next
    case (workflow w)
    then show ?thesis using GetWorkflowTasks_grows [of e w] by (simp add: grows_def)
  next
    case (by_state order s)
    then show ?thesis using selection_grows(1) [of e order s] by (simp add: grows_def)
  next
    case (for_partition order k)
    then show ?thesis using selection_grows(2) [of e order k] by (simp add: grows_def)
  next
    case (checkpoint seq)
    then show ?thesis by (simp add: Checkpoint_def split_beta)
  next
    case close
    then show ?thesis by (simp add: Close_def split_beta)
  qed
  then show ?thesis by (simp only: dom)
qed

lemma engine_run_dom:
  "engine_run L P e evs e' \<Longrightarrow> dom (task_of e') \<subseteq> dom (task_of e) \<union> set (created_ids evs)"
proof (induction rule: engine_run.induct)
  case (call e evs e' es e'')
  then show ?case using engine_step_dom [OF call(2)] unfolding created_ids_append set_append by blast
qed simp

lemma fresh_ids_append:
  assumes "engine_run L P e evs e'" and "fresh_ids e (evs @ es)"
  shows "fresh_ids e evs" and "fresh_ids e' es"
  using engine_run_dom [OF assms(1)] assms(2) by (auto simp: fresh_ids_def)

text \<open>A run that does not close the log is a sequence of fresh steps.\<close>

lemma engine_run_fresh:
  assumes "engine_run L P e evs e'" and "fresh_ids e evs" and "Closes \<notin> set evs"
  shows "(fresh_step L P)\<^sup>*\<^sup>* e e'"
  using assms
proof (induction rule: engine_run.induct)
  case (call e evs e' es e'')
  have "(fresh_step L P)\<^sup>*\<^sup>* e e'"
    using call.IH fresh_ids_append(1) [OF call(1) call.prems(1)] call.prems(2) by simp
  moreover have "fresh_step L P e' e''"
    using call(2) fresh_ids_append(2) [OF call(1) call.prems(1)] call.prems(2)
    by (auto simp: fresh_step_def)
  ultimately show ?case by simp
qed simp

lemma Close_effect:
  "task_of (snd (Close L e)) = task_of e \<and> workflow_ids (snd (Close L e)) = workflow_ids e \<and>
   tasks (snd (Close L e)) = tasks e \<and> next_addr (snd (Close L e)) = next_addr e \<and>
   objects (snd (Close L e)) = objects e \<and> partitionMgr (snd (Close L e)) = partitionMgr e"
  by (simp add: Close_def split_beta task_of_def workflow_ids_def fun_eq_iff)

text \<open>Every step, \<^verbatim>\<open>Close\<close> included, that generates no identifier in use is a step of the registry.\<close>

lemma engine_step_simulates:
  assumes "engine_step wal_m pm_m evs e e'" and "fresh_ids e evs" and "anyeng.good e"
  shows "anyeng.good e' \<and> spec_step (task_of e) (task_of e')"
proof (cases "Closes \<in> set evs")
  case True
  with assms(1) have "e' = snd (Close wal_m e)" by (cases rule: engine_step.cases) (auto split: if_splits)
  with assms(3) Close_effect [of wal_m e] show ?thesis
    by (simp add: anyeng.good_def engine_inv_def spec_step.idle)
next
  case False
  with assms have "fresh_step wal_m pm_m e e'" by (auto simp: fresh_step_def)
  then show ?thesis by (rule anyeng.step_simulates [OF assms(3)])
qed

lemma engine_run_simulates:
  assumes "engine_run wal_m pm_m e evs e'" and "fresh_ids e evs" and "anyeng.good e"
  shows "anyeng.good e' \<and> spec_step\<^sup>*\<^sup>* (task_of e) (task_of e')"
  using assms
proof (induction rule: engine_run.induct)
  case (call e evs e' es e'')
  have "anyeng.good e' \<and> spec_step\<^sup>*\<^sup>* (task_of e) (task_of e')"
    using call.IH fresh_ids_append(1) [OF call(1) call.prems(1)] call.prems(2) by simp
  with engine_step_simulates [OF call(2) fresh_ids_append(2) [OF call(1) call.prems(1)]] show ?case
    by (meson rtranclp.rtrancl_into_rtrancl)
qed simp

lemma engine_run_one: "engine_step L P es e e' \<Longrightarrow> engine_run L P e es e'"
  using engine_run.call [OF engine_run.none] by fastforce

lemma engine_run_append:
  assumes "engine_run L P e' es e''" and "engine_run L P e evs e'"
  shows "engine_run L P e (evs @ es) e''"
  using assms
proof (induction rule: engine_run.induct)
  case (call e' es x fs y)
  from engine_run.call [OF call.IH [OF call.prems] call(2)] show ?case by simp
qed simp

section \<open>Reachable engines\<close>

text \<open>
  The engines the statements on single calls are about: built by \<^verbatim>\<open>NewEngine\<close>, and reached by calls
  that generate no identifier in use and do not close the log.
\<close>

inductive engine_reach :: "(WalLogger, DefaultManager) Engine \<Rightarrow> bool" where
  start: "pred_option WalLogger_wf logger \<Longrightarrow>
    pred_option (\<lambda>m. 0 < sint (partitionCount m)) mgr \<Longrightarrow> engine_reach (NewEngine h logger mgr)"
| step: "engine_reach e \<Longrightarrow> fresh_step WalLogger_methods DefaultManager_methods e e' \<Longrightarrow> engine_reach e'"

lemma NewEngine_view [simp]: "task_of (NewEngine h logger mgr) = Map.empty"
  by (simp add: fun_eq_iff task_of_def NewEngine_def Let_def)

lemma engine_inv_New [simp]: "engine_inv (NewEngine h logger mgr)"
  by (rule engine_inv_view) (simp_all add: NewEngine_def workflow_ids_def Let_def task_of_def)

lemma NewEngine_parts:
  "walLogger (NewEngine h logger mgr) = (case logger of None \<Rightarrow> NoOp NewNoOpLogger | Some l \<Rightarrow> l)"
  "partitionMgr (NewEngine h logger mgr) = (case mgr of None \<Rightarrow> NewDefaultManager 10 | Some m \<Rightarrow> m)"
  "sequenceCounter (NewEngine h logger mgr) = 0"
  by (simp_all add: NewEngine_def Let_def)

lemma NewEngine_good:
  "pred_option WalLogger_wf logger \<Longrightarrow> pred_option (\<lambda>m. 0 < sint (partitionCount m)) mgr \<Longrightarrow>
   eng.good (NewEngine h logger mgr)"
  using pm_invD(1) [OF pm_inv_New [of 10]]
  by (cases logger; cases mgr) (simp_all add: eng.good_def NewEngine_parts)

lemma NewEngine_any:
  "pred_option (\<lambda>m. 0 < sint (partitionCount m)) mgr \<Longrightarrow> anyeng.good (NewEngine h logger mgr)"
  using pm_invD(1) [OF pm_inv_New [of 10]]
  by (cases mgr) (simp_all add: anyeng.good_def NewEngine_parts)

lemma NewEngine_fresh [simp]: "fresh_ids (NewEngine h logger mgr) evs \<longleftrightarrow> distinct (created_ids evs)"
  by (simp add: fresh_ids_def)

lemma engine_reach_good: "engine_reach e \<Longrightarrow> eng.good e"
proof (induction rule: engine_reach.induct)
  case (start logger mgr h)
  then show ?case by (rule NewEngine_good)
next
  case (step e e')
  then show ?case using eng.step_simulates by blast
qed

lemma engine_reach_inv: "engine_reach e \<Longrightarrow> engine_inv e"
  using engine_reach_good by (simp add: eng.good_def)

section \<open>Runs of the registry\<close>

lemma spec_step_keeps:
  assumes "spec_step m m'" and "m i = Some t"
  obtains t' where "m' i = Some t'" and "State t' = State t \<and> t' = t \<or> transition (State t) (State t')"
    and "ID t' = ID t" "WorkflowID t' = WorkflowID t" "Name t' = Name t" "Payload t' = Payload t"
    "PartitionID t' = PartitionID t" "CreatedAt t' = CreatedAt t" "MaxAttempts t' = MaxAttempts t"
  using assms(1)
proof (cases rule: spec_step.cases)
  case idle
  with assms(2) show ?thesis by (intro that [of t]) simp_all
next
  case (add j x)
  with assms(2) show ?thesis by (intro that [of t]) auto
next
  case (move j x u s clk)
  show ?thesis
  proof (cases "j = i")
    case True
    with move assms(2) have x: "x = t" by simp
    have u: "State u = State t" "ID u = ID t" "WorkflowID u = WorkflowID t" "Name u = Name t"
      "Payload u = Payload t" "PartitionID u = PartitionID t" "CreatedAt u = CreatedAt t"
      "MaxAttempts u = MaxAttempts t"
      by (subst move(3) [unfolded x], simp)+
    then have "State (snd (TransitionTo clk u s)) = s" using move(5) x by (simp add: TransitionTo_effect)
    with move True x u show ?thesis by (intro that [of "snd (TransitionTo clk u s)"]) simp_all
  next
    case False
    with move assms(2) show ?thesis by (intro that [of t]) simp_all
  qed
qed

lemma spec_steps_keep:
  assumes "spec_step\<^sup>*\<^sup>* m m'" and "m i = Some t"
  shows "\<exists>t'. m' i = Some t' \<and> transition\<^sup>*\<^sup>* (State t) (State t') \<and>
    ID t' = ID t \<and> WorkflowID t' = WorkflowID t \<and> Name t' = Name t \<and> Payload t' = Payload t \<and>
    PartitionID t' = PartitionID t \<and> CreatedAt t' = CreatedAt t \<and> MaxAttempts t' = MaxAttempts t"
  using assms
proof (induction rule: rtranclp_induct)
  case base
  then show ?case by simp
next
  case (step y z)
  then obtain t1 where t1: "y i = Some t1" "transition\<^sup>*\<^sup>* (State t) (State t1)"
    "ID t1 = ID t" "WorkflowID t1 = WorkflowID t" "Name t1 = Name t" "Payload t1 = Payload t"
    "PartitionID t1 = PartitionID t" "CreatedAt t1 = CreatedAt t" "MaxAttempts t1 = MaxAttempts t"
    by blast
  from spec_step_keeps [OF step(2) t1(1)] obtain t2 where t2: "z i = Some t2"
    "State t2 = State t1 \<and> t2 = t1 \<or> transition (State t1) (State t2)"
    "ID t2 = ID t1" "WorkflowID t2 = WorkflowID t1" "Name t2 = Name t1" "Payload t2 = Payload t1"
    "PartitionID t2 = PartitionID t1" "CreatedAt t2 = CreatedAt t1" "MaxAttempts t2 = MaxAttempts t1"
    by metis
  from t1(2) t2(2) have "transition\<^sup>*\<^sup>* (State t) (State t2)"
    by (metis rtranclp.rtrancl_into_rtrancl)
  with t1 t2 show ?case by auto
qed

lemma spec_steps_terminal:
  assumes "spec_step\<^sup>*\<^sup>* m m'" and "m i = Some t" and "IsTerminal (State t)"
  shows "m' i = Some t"
  using assms
proof (induction rule: rtranclp_induct)
  case base
  then show ?case by simp
next
  case (step y z)
  then have "y i = Some t" by simp
  from spec_step_keeps [OF step(2) this] IsTerminal_no_transition [OF step(5)] show ?case by metis
qed

end
