(* ===== verification/Engine_Wal.thy ===== *)
theory Engine_Wal
  imports Engine_Correct
begin

text \<open>
  The write-ahead property: what a durable log holds determines the state of every task. Each
  task's entries, in order, form a path of accepted transitions that starts at PENDING and ends at
  the task's current state, so replaying the log recovers the state of all tasks. The engine
  itself has no recovery code; \<open>recover\<close> is the specification of what recovery would read.
\<close>

section \<open>Recovery from a log\<close>

definition history :: "Entry list \<Rightarrow> string \<Rightarrow> State list" where
  "history es taskID = map EntryState (filter (\<lambda>e. TaskID e = taskID) es)"

definition recover :: "Entry list \<Rightarrow> string \<rightharpoonup> State" where
  "recover es taskID = (if history es taskID = [] then None else Some (last (history es taskID)))"

definition valid_history :: "State list \<Rightarrow> bool" where
  "valid_history h \<longleftrightarrow> (h = [] \<or> hd h = StatePending \<and> successively transition h)"

definition dispatches :: "State list \<Rightarrow> nat" where
  "dispatches h = length (filter (\<lambda>s. s = StateDispatched) h)"

lemma history_snoc:
  "history (es @ [e]) i = (if TaskID e = i then history es i @ [EntryState e] else history es i)"
  by (simp add: history_def)

lemma recover_None_iff: "recover es i = None \<longleftrightarrow> history es i = []"
  by (simp add: recover_def)

lemma recover_Some_iff: "recover es i = Some s \<longleftrightarrow> history es i \<noteq> [] \<and> last (history es i) = s"
  by (auto simp: recover_def)

lemma recover_snoc:
  "recover (es @ [e]) = (recover es)(TaskID e \<mapsto> EntryState e)"
  by (auto simp: fun_eq_iff recover_def history_snoc)

lemma valid_history_snoc:
  "valid_history h \<Longrightarrow> h \<noteq> [] \<Longrightarrow> transition (last h) s \<Longrightarrow> valid_history (h @ [s])"
  by (auto simp: valid_history_def successively_append_iff)

lemma valid_history_start [simp]: "valid_history [StatePending]"
  by (simp add: valid_history_def)

lemma dispatches_snoc: "dispatches (h @ [s]) = dispatches h + of_bool (s = StateDispatched)"
  by (simp add: dispatches_def)

section \<open>The log and the engine agree\<close>

definition wal_consistent :: "Entry list \<Rightarrow> ('w, 'p) Engine \<Rightarrow> bool" where
  "wal_consistent es e \<longleftrightarrow>
     (\<forall>i. map_option State (task_of e i) = recover es i) \<and>
     (\<forall>i. valid_history (history es i)) \<and>
     (\<forall>i t. task_of e i = Some t \<longrightarrow> Attempts t = of_nat (dispatches (history es i))) \<and>
     sequenceCounter e = of_nat (length es)"

lemma wal_consistent_snoc:
  assumes cons: "wal_consistent es e"
    and view: "task_of e' = (task_of e)(i \<mapsto> t)"
    and entry: "TaskID entry = i" "EntryState entry = State t"
    and path: "case task_of e i of
        None \<Rightarrow> State t = StatePending \<and> Attempts t = 0
      | Some t0 \<Rightarrow> transition (State t0) (State t) \<and>
          Attempts t = Attempts t0 + of_bool (State t = StateDispatched)"
    and seq: "sequenceCounter e' = of_nat (Suc (length es))"
  shows "wal_consistent (es @ [entry]) e'"
proof -
  let ?h = "history es i"
  have rec: "map_option State (task_of e j) = recover es j" for j
    using cons by (simp add: wal_consistent_def)
  have "valid_history (?h @ [State t]) \<and> Attempts t = of_nat (dispatches (?h @ [State t]))"
  proof (cases "task_of e i")
    case None
    with rec [of i] have "?h = []" by (metis option.simps(8) recover_None_iff)
    with None path show ?thesis by (simp add: dispatches_def)
  next
    case (Some t0)
    with rec [of i] have "recover es i = Some (State t0)" by simp
    then have "?h \<noteq> []" "last ?h = State t0" by (simp_all add: recover_Some_iff)
    moreover have "valid_history ?h" "Attempts t0 = of_nat (dispatches ?h)"
      using cons Some by (simp_all add: wal_consistent_def)
    ultimately show ?thesis
      using Some path by (simp add: valid_history_snoc dispatches_snoc)
  qed
  with cons show ?thesis
    unfolding wal_consistent_def view recover_snoc entry
    using seq entry rec by (auto simp: history_snoc)
qed

locale durable_engine = durable_wal L wf log upto + partition_manager P ok
  for L :: "'w Logger" and wf log upto and P :: "'p Manager" and ok

sublocale durable_engine \<subseteq> engine_env L wf P ok
  by unfold_locales

context durable_engine
begin

lemma step_consistent:
  assumes g: "good e" and cons: "wal_consistent (log (walLogger e)) e" and st: "fresh_step L P e e'"
  shows "wal_consistent (log (walLogger e')) e'"
proof -
  have inv: "engine_inv e" and wf: "wf (walLogger e)" using g by (auto simp: good_def)
  from g st show ?thesis
  proof (cases rule: step_cases)
    case 1
    have "task_of e' = task_of e" by (rule grows_task_of [OF inv 1])
    with 1 cons show ?thesis by (simp add: wal_consistent_def grows_def)
  next
    case (2 i t)
    from 2(1) obtain now d seq where
      ap: "Append L now (wal_entry i (WorkflowID t) StatePending d) (walLogger e) = (Inr seq, walLogger e')"
      and sc: "sequenceCounter e' = seq" by (rule created_wal) blast
    from append_log [OF wf ap] sc created_task [OF 2(1)] 2(2) show ?thesis
      using wal_consistent_snoc [OF cons created_task_of [OF inv 2(1)]] by simp
  next
    case (3 i s)
    from 3 obtain t :: Task and now d seq where
      ap: "Append L now (wal_entry i (WorkflowID t) s d) (walLogger e) = (Inr seq, walLogger e')"
      and sc: "sequenceCounter e' = seq" by (rule moved_wal) blast
    from moved_task_of [OF inv 3] obtain t u clk where t: "task_of e i = Some t"
      and u: "u = t\<lparr>Result := Result u, Error := Error u\<rparr>" and tr: "transition (State t) s"
      and view: "task_of e' = (task_of e)(i \<mapsto> snd (TransitionTo clk u s))" by metis
    have u': "State u = State t" "Attempts u = Attempts t" by (subst u, simp)+
    have "transition (State u) s" using tr u' by simp
    note eff = TransitionTo_effect [OF this, of clk]
    from append_log [OF wf ap] sc show ?thesis
      using wal_consistent_snoc [OF cons view] t tr eff u' by simp
  next
    case (4 seq)
    have "sequenceCounter e' = sequenceCounter e" "log (walLogger e') = log (walLogger e)"
      using checkpoint_log by (simp_all add: 4 Checkpoint_def split_beta)
    with cons Checkpoint_good [OF g, of seq] show ?thesis by (simp add: wal_consistent_def 4)
  qed
qed

lemma steps_consistent:
  assumes "(fresh_step L P)\<^sup>*\<^sup>* e e'" and "good e" and "wal_consistent (log (walLogger e)) e"
  shows "good e' \<and> wal_consistent (log (walLogger e')) e'"
  using assms
proof (induction rule: rtranclp_induct)
  case base
  then show ?case by simp
next
  case (step y z)
  then show ?case using step_consistent [of y z] step_simulates [of y z] by blast
qed

end

interpretation deng: durable_engine WalLogger_methods WalLogger_durable WalLogger_log WalLogger_upto
  DefaultManager_methods "\<lambda>m. 0 < sint (partitionCount m)"
  by unfold_locales

end
