(* ===== verification/Engine_Properties.thy ===== *)
theory Engine_Properties
  imports Engine_Wal
begin

text \<open>
  The properties of the execution engine, for the engine as the program builds it (\<open>engine_reach\<close>:
  a new engine over any well-formed logger and partition manager, then calls that neither generate an
  identifier in use nor close the log), and for whole runs (\<open>engine_run\<close>), where these conditions are
  stated; and concrete engines that serve as witnesses.
\<close>

section \<open>The operations on the registry of a reachable engine\<close>

lemma task_of_SomeE:
  assumes "task_of e i = Some t"
  obtains a where "tasks e i = Some a" and "t = objects e a"
  using assms by (auto simp: task_of_def)

lemma create_view:
  assumes "engine_reach e" and "workflowID \<noteq> []" "taskName \<noteq> []" and i: "i = task_id workflowID (clk 0)"
  shows "\<exists>t e'. CreateTask wal_m pm_m clk e workflowID taskName d = (Inr (next_addr e), e') \<and>
    task_of e' = (task_of e)(i \<mapsto> t) \<and> objects e' (next_addr e) = t \<and> tasks e' i = Some (next_addr e) \<and>
    ID t = i \<and> WorkflowID t = workflowID \<and> Name t = taskName \<and> Payload t = d \<and>
    State t = StatePending \<and> Attempts t = 0 \<and> Result t = None \<and> Error t = [] \<and>
    DefaultManager_AssignPartition (partitionMgr e) i = Inr (PartitionID t) \<and>
    workflow_ids e' = (workflow_ids e)(workflowID := workflow_ids e workflowID @ [i])"
proof -
  from eng.CreateTask_success [OF engine_reach_good [OF assms(1)] assms(2,3), of clk d]
  obtain t e' where res: "CreateTask wal_m pm_m clk e workflowID taskName d = (Inr (next_addr e), e')"
    and cr: "created wal_m pm_m e i t e'"
    and t: "WorkflowID t = workflowID" "Name t = taskName" "Payload t = d" "objects e' (next_addr e) = t"
    unfolding i by metis
  have "AssignPartition pm_m = DefaultManager_AssignPartition" by (simp add: DefaultManager_methods_def)
  with res t created_task_of [OF engine_reach_inv [OF assms(1)] cr] created_task [OF cr]
    created_tasks [OF cr]
  show ?thesis by auto
qed

lemma transition_view:
  assumes "engine_reach e" and t: "task_of e i = Some t" and "transition (State t) s"
    and u: "u = snd (TransitionTo (\<lambda>k. clk (1 + k)) t s)"
  shows "\<exists>e'. TransitionTask wal_m clk e i s = (Inr (next_addr e), e') \<and>
    task_of e' = (task_of e)(i \<mapsto> u) \<and> objects e' (next_addr e) = u \<and> engine_reach e'"
proof -
  from t obtain a where a: "tasks e i = Some a" "t = objects e a" by (rule task_of_SomeE)
  from eng.TransitionTask_success [OF engine_reach_good [OF assms(1)] a(1), of s clk] assms(3) a(2) u
  obtain e' where "TransitionTask wal_m clk e i s = (Inr (next_addr e), e')"
    "task_of e' = (task_of e)(i \<mapsto> u)" "objects e' (next_addr e) = u" by auto
  then show ?thesis
    using engine_reach.step [OF assms(1) fresh_step_transition, of clk i s] by simp
qed

lemma complete_view:
  assumes "engine_reach e" and t: "task_of e i = Some t" and "State t = StateDispatched"
    and u: "u = snd (TransitionTo (\<lambda>k. clk (1 + k)) (t\<lparr>Result := r\<rparr>) StateCompleted)"
  shows "\<exists>e'. CompleteTask wal_m clk e i r = (Inr (next_addr e), e') \<and>
    task_of e' = (task_of e)(i \<mapsto> u) \<and> objects e' (next_addr e) = u \<and> engine_reach e'"
proof -
  from t obtain a where a: "tasks e i = Some a" "t = objects e a" by (rule task_of_SomeE)
  from eng.CompleteTask_success [OF engine_reach_good [OF assms(1)] a(1), of clk r] assms(3) a(2) u
  obtain e' where "CompleteTask wal_m clk e i r = (Inr (next_addr e), e')"
    "task_of e' = (task_of e)(i \<mapsto> u)" "objects e' (next_addr e) = u" by auto
  then show ?thesis
    using engine_reach.step [OF assms(1) fresh_step_complete, of clk i r] by simp
qed

lemma fail_view:
  assumes "engine_reach e" and t: "task_of e i = Some t" and "State t = StateDispatched"
    and u: "u = snd (TransitionTo (\<lambda>k. clk (1 + k)) (t\<lparr>Error := m\<rparr>) StateFailed)"
  shows "\<exists>e'. FailTask wal_m clk e i m = (Inr (next_addr e), e') \<and>
    task_of e' = (task_of e)(i \<mapsto> u) \<and> objects e' (next_addr e) = u \<and> engine_reach e'"
proof -
  from t obtain a where a: "tasks e i = Some a" "t = objects e a" by (rule task_of_SomeE)
  from eng.FailTask_success [OF engine_reach_good [OF assms(1)] a(1), of clk m] assms(3) a(2) u
  obtain e' where "FailTask wal_m clk e i m = (Inr (next_addr e), e')"
    "task_of e' = (task_of e)(i \<mapsto> u)" "objects e' (next_addr e) = u" by auto
  then show ?thesis
    using engine_reach.step [OF assms(1) fresh_step_failed, of clk i m] by simp
qed

lemma get_view:
  assumes "engine_reach e" and t: "task_of e i = Some t"
  shows "\<exists>e'. GetTask e i = (Inr (next_addr e), e') \<and> objects e' (next_addr e) = t \<and>
    task_of e' = task_of e \<and> engine_reach e'"
proof -
  from t obtain a where a: "tasks e i = Some a" "t = objects e a" by (rule task_of_SomeE)
  have "i \<noteq> []" using engine_inv_task(2) [OF engine_reach_inv [OF assms(1)] a(1)] .
  with a have res: "GetTask e i = (Inr (next_addr e), snd (alloc t e))"
    by (simp add: GetTask_def split_beta)
  moreover have "task_of (snd (alloc t e)) = task_of e"
    by (rule grows_task_of [OF engine_reach_inv [OF assms(1)] grows_alloc])
  moreover have "engine_reach (snd (alloc t e))"
    using engine_reach.step [OF assms(1) fresh_step_get, of i] res by simp
  ultimately show ?thesis by simp
qed

section \<open>Concrete engines\<close>

definition heap0 :: Heap where
  "heap0 = \<lparr>objects = \<lambda>_. NewTask (\<lambda>_. 0) [] [] [] None, next_addr = 0\<rparr>"

definition eng0 :: "(WalLogger, DefaultManager) Engine" where
  "eng0 = NewEngine heap0 (Some (InMemory NewInMemoryLogger)) (Some (NewDefaultManager 4))"

definition id1 :: string where "id1 = task_id ''w'' 5"

definition eng1 :: "(WalLogger, DefaultManager) Engine" where
  "eng1 = snd (CreateTask wal_m pm_m (\<lambda>_. 5) eng0 ''w'' ''n'' (Some [1]))"

definition eng2 :: "(WalLogger, DefaultManager) Engine" where
  "eng2 = snd (TransitionTask wal_m (\<lambda>_. 6) eng1 id1 StateScheduled)"

definition eng3 :: "(WalLogger, DefaultManager) Engine" where
  "eng3 = snd (TransitionTask wal_m (\<lambda>_. 7) eng2 id1 StateDispatched)"

definition eng4 :: "(WalLogger, DefaultManager) Engine" where
  "eng4 = snd (CompleteTask wal_m (\<lambda>_. 8) eng3 id1 (Some [42]))"

lemma id1_nonempty [simp]: "id1 \<noteq> []"
  by (simp add: id1_def task_id_def)

lemma eng0_reach: "engine_reach eng0"
  unfolding eng0_def by (rule engine_reach.start) (simp_all add: NewDefaultManager_def)

lemma eng0_simps [simp]:
  "task_of eng0 = Map.empty" "tasks eng0 = Map.empty" "next_addr eng0 = 0" "workflow_ids eng0 w = []"
  by (simp_all add: eng0_def NewEngine_def Let_def fun_eq_iff task_of_def workflow_ids_def heap0_def)

lemma step1: "fresh_step wal_m pm_m eng0 eng1"
  unfolding eng1_def by (rule fresh_step_create) simp

lemma step2: "fresh_step wal_m pm_m eng1 eng2"
  unfolding eng2_def by (rule fresh_step_transition)

lemma step3: "fresh_step wal_m pm_m eng2 eng3"
  unfolding eng3_def by (rule fresh_step_transition)

lemma step4: "fresh_step wal_m pm_m eng3 eng4"
  unfolding eng4_def by (rule fresh_step_complete)

lemma eng1_reach: "engine_reach eng1" by (rule engine_reach.step [OF eng0_reach step1])
lemma eng2_reach: "engine_reach eng2" by (rule engine_reach.step [OF eng1_reach step2])
lemma eng3_reach: "engine_reach eng3" by (rule engine_reach.step [OF eng2_reach step3])
lemma eng4_reach: "engine_reach eng4" by (rule engine_reach.step [OF eng3_reach step4])

lemma eng1_view:
  "\<exists>t. task_of eng1 = [id1 \<mapsto> t] \<and> State t = StatePending \<and> WorkflowID t = ''w'' \<and> Attempts t = 0 \<and>
     workflow_ids eng1 ''w'' = [id1] \<and> tasks eng1 id1 = Some 0"
  using create_view [OF eng0_reach, of "''w''" "''n''" id1 "\<lambda>_. 5" "Some [1]"]
  by (auto simp: eng1_def id1_def)

lemma eng3_view: "\<exists>t. task_of eng3 = [id1 \<mapsto> t] \<and> State t = StateDispatched \<and> WorkflowID t = ''w''"
proof -
  from eng1_view obtain t where t: "task_of eng1 = [id1 \<mapsto> t]" "State t = StatePending" "WorkflowID t = ''w''"
    by auto
  define t2 where "t2 = snd (TransitionTo (\<lambda>k. 6) t StateScheduled)"
  have t2: "State t2 = StateScheduled" "WorkflowID t2 = ''w''"
    using t by (simp_all add: t2_def TransitionTo_effect)
  have v2: "task_of eng2 = [id1 \<mapsto> t2]"
    using transition_view [OF eng1_reach, of id1 t StateScheduled t2 "\<lambda>_. 6"] t t2_def
    by (auto simp: eng2_def)
  define t3 where "t3 = snd (TransitionTo (\<lambda>k. 7) t2 StateDispatched)"
  have "task_of eng3 = [id1 \<mapsto> t3]"
    using transition_view [OF eng2_reach, of id1 t2 StateDispatched t3 "\<lambda>_. 7"] v2 t2 t3_def
    by (auto simp: eng3_def)
  moreover have "State t3 = StateDispatched" "WorkflowID t3 = ''w''"
    using t2 by (simp_all add: t3_def TransitionTo_effect)
  ultimately show ?thesis by blast
qed

lemma eng4_view: "\<exists>t. task_of eng4 = [id1 \<mapsto> t] \<and> State t = StateCompleted \<and> Result t = Some [42]"
proof -
  from eng3_view obtain t where t: "task_of eng3 = [id1 \<mapsto> t]" "State t = StateDispatched" by auto
  define u where "u = snd (TransitionTo (\<lambda>k. 8) (t\<lparr>Result := Some [42]\<rparr>) StateCompleted)"
  have "task_of eng4 = [id1 \<mapsto> u]"
    using complete_view [OF eng3_reach, of id1 t u "\<lambda>_. 8" "Some [42]"] t u_def
    by (auto simp: eng4_def)
  moreover have "State u = StateCompleted" "Result u = Some [42]"
    using t by (simp_all add: u_def TransitionTo_effect)
  ultimately show ?thesis by blast
qed

lemma run_0_1: "engine_run wal_m pm_m eng0 [Creates id1] eng1"
  using engine_step.create [of wal_m pm_m "''w''" "''n''" "\<lambda>_. 5" eng0 "Some [1]"]
  by (intro engine_run_one) (simp add: eng1_def id1_def)

lemma run_1_4: "engine_run wal_m pm_m eng1 [] eng4"
proof -
  have steps: "engine_step wal_m pm_m [] eng1 eng2" "engine_step wal_m pm_m [] eng2 eng3"
    "engine_step wal_m pm_m [] eng3 eng4"
    unfolding eng2_def eng3_def eng4_def
    by (rule engine_step.transition engine_step.complete)+
  from engine_run_append [OF engine_run_one [OF steps(2)] engine_run_one [OF steps(1)]]
    engine_run_one [OF steps(3)] show ?thesis
    using engine_run_append by fastforce
qed

lemma run_0_4: "engine_run wal_m pm_m eng0 [Creates id1] eng4"
  using engine_run_append [OF run_1_4 run_0_1] by simp

section \<open>Properties: the engine implements the registry\<close>

text \<open>What two parts of a run of a new engine have in common.\<close>

lemma run_from_new:
  assumes "pred_option (\<lambda>m. 0 < sint (partitionCount m)) mgr"
    and "engine_run wal_m pm_m (NewEngine h logger mgr) evs e" and "engine_run wal_m pm_m e evs' e'"
    and "distinct (created_ids (evs @ evs'))"
  shows "engine_inv e \<and> engine_inv e' \<and> spec_step\<^sup>*\<^sup>* (task_of e) (task_of e')"
proof -
  have f: "fresh_ids (NewEngine h logger mgr) (evs @ evs')" using assms(4) by simp
  note parts = fresh_ids_append [OF assms(2) f]
  from engine_run_simulates [OF assms(2) parts(1) NewEngine_any [OF assms(1)]]
  have g: "anyeng.good e" by simp
  from engine_run_simulates [OF assms(3) parts(2) g] g show ?thesis by (simp add: anyeng.good_def)
qed

lemma spec_1_4: "spec_step\<^sup>*\<^sup>* (task_of eng1) (task_of eng4)"
  using run_from_new [OF _ run_0_1 [unfolded eng0_def] run_1_4] by (simp add: NewDefaultManager_def)

text \<open>C1: with either log and any calls, \<^verbatim>\<open>Close\<close> included, as long as no two creations generate the same identifier
  (the engine takes it from the workflow and the clock and does not check it): the engine's maps stay
  consistent (every identifier names a live object with that identifier, each workflow lists exactly
  its own tasks, once each) and the run is a run of the task registry: tasks are added in state PENDING
  and then only move along transitions that state.go accepts. (A run consists of calls; a caller that
  writes through the pointer \<^verbatim>\<open>CreateTask\<close> returned is \<open>created_pointer_is_shared\<close>.)\<close>
theorem engine_refines_registry:
  assumes "pred_option (\<lambda>m. 0 < sint (partitionCount m)) mgr"
    and "engine_run wal_m pm_m (NewEngine h logger mgr) evs e" and "distinct (created_ids evs)"
  shows "engine_inv e \<and> spec_step\<^sup>*\<^sup>* Map.empty (task_of e)"
  using engine_run_simulates [OF assms(2) _ NewEngine_any [OF assms(1)]] assms(3)
  by (simp add: anyeng.good_def)

theorem engine_refines_registry_witness:
  "engine_inv eng4 \<and> spec_step\<^sup>*\<^sup>* Map.empty (task_of eng4) \<and> task_of eng4 id1 \<noteq> None"
proof -
  have "engine_inv eng4 \<and> spec_step\<^sup>*\<^sup>* Map.empty (task_of eng4)"
    by (rule engine_refines_registry [OF _ run_0_4 [unfolded eng0_def]])
      (simp_all add: NewDefaultManager_def)
  with eng4_view show ?thesis by auto
qed

text \<open>C3: a task that has reached COMPLETED, FAILED or CANCELLED, the terminal states of the code, is never changed
  again in any field and never disappears, whatever calls of the engine are made afterwards, \<^verbatim>\<open>Close\<close>
  included, as long as no two creations of the run generate the same identifier.\<close>
theorem terminal_tasks_immutable:
  assumes "pred_option (\<lambda>m. 0 < sint (partitionCount m)) mgr"
    and "engine_run wal_m pm_m (NewEngine h logger mgr) evs e" and "engine_run wal_m pm_m e evs' e'"
    and "distinct (created_ids (evs @ evs'))"
    and "task_of e i = Some t" and "IsTerminal (State t)"
  shows "task_of e' i = Some t"
  using run_from_new [OF assms(1-4)] spec_steps_terminal assms(5,6) by blast

theorem terminal_tasks_immutable_witness:
  "task_of (snd (TransitionTask wal_m (\<lambda>_. 9) eng4 id1 StatePending)) id1 = task_of eng4 id1 \<and>
   (\<exists>t. task_of eng4 id1 = Some t \<and> State t = StateCompleted)"
proof -
  from eng4_view obtain t where t: "task_of eng4 id1 = Some t" "State t = StateCompleted" by auto
  have "engine_run wal_m pm_m eng4 [] (snd (TransitionTask wal_m (\<lambda>_. 9) eng4 id1 StatePending))"
    by (rule engine_run_one [OF engine_step.transition])
  from terminal_tasks_immutable [OF _ run_0_4 [unfolded eng0_def] this _ t(1)] t show ?thesis
    by (simp add: IsTerminal_def NewDefaultManager_def)
qed

text \<open>C5: between any two moments of a run in which no two creations generate the same identifier, a task keeps its
  identifier, workflow, name, payload, partition, creation time and attempt limit, and its state moves
  only along transitions that state.go accepts.\<close>
theorem tasks_follow_diagram:
  assumes "pred_option (\<lambda>m. 0 < sint (partitionCount m)) mgr"
    and "engine_run wal_m pm_m (NewEngine h logger mgr) evs e" and "engine_run wal_m pm_m e evs' e'"
    and "distinct (created_ids (evs @ evs'))" and "task_of e i = Some t"
  shows "\<exists>t'. task_of e' i = Some t' \<and> transition\<^sup>*\<^sup>* (State t) (State t') \<and>
    ID t' = ID t \<and> WorkflowID t' = WorkflowID t \<and> Name t' = Name t \<and> Payload t' = Payload t \<and>
    PartitionID t' = PartitionID t \<and> CreatedAt t' = CreatedAt t \<and> MaxAttempts t' = MaxAttempts t"
  using run_from_new [OF assms(1-4)] spec_steps_keep assms(5) by blast

theorem tasks_follow_diagram_witness:
  "\<exists>t t'. task_of eng1 id1 = Some t \<and> task_of eng4 id1 = Some t' \<and> State t = StatePending \<and>
     State t' = StateCompleted \<and> transition\<^sup>*\<^sup>* (State t) (State t') \<and> PartitionID t' = PartitionID t"
proof -
  from eng1_view obtain t where t: "task_of eng1 id1 = Some t" "State t = StatePending" by auto
  from eng4_view obtain t' where t': "task_of eng4 id1 = Some t'" "State t' = StateCompleted" by auto
  from tasks_follow_diagram [OF _ run_0_1 [unfolded eng0_def] run_1_4 _ t(1)] t t' show ?thesis
    by (auto simp: NewDefaultManager_def)
qed

section \<open>Properties: creation, lookup and pointers\<close>

text \<open>C8: creating a task with a workflow and a name always succeeds with the loggers and the partition
  manager of the program, and looking the new identifier up returns a separate copy of a PENDING
  task with the given workflow, name and payload, no attempts, and the partition of its identifier.\<close>
theorem create_then_get:
  assumes "engine_reach e" and "workflowID \<noteq> []" and "taskName \<noteq> []"
  shows "\<exists>p e1 q e2. CreateTask wal_m pm_m clk e workflowID taskName payload = (Inr p, e1) \<and>
    GetTask e1 (task_id workflowID (clk 0)) = (Inr q, e2) \<and> q \<noteq> p \<and> objects e2 q = objects e1 p \<and>
    ID (objects e2 q) = task_id workflowID (clk 0) \<and> WorkflowID (objects e2 q) = workflowID \<and>
    Name (objects e2 q) = taskName \<and> Payload (objects e2 q) = payload \<and>
    State (objects e2 q) = StatePending \<and> Attempts (objects e2 q) = 0 \<and>
    DefaultManager_AssignPartition (partitionMgr e) (task_id workflowID (clk 0)) =
      Inr (PartitionID (objects e2 q))"
proof -
  let ?i = "task_id workflowID (clk 0)"
  from create_view [OF assms refl, of clk payload] obtain t e1 where
    c: "CreateTask wal_m pm_m clk e workflowID taskName payload = (Inr (next_addr e), e1)"
      "objects e1 (next_addr e) = t" "tasks e1 ?i = Some (next_addr e)"
      "ID t = ?i" "WorkflowID t = workflowID" "Name t = taskName" "Payload t = payload"
      "State t = StatePending" "Attempts t = 0"
      "DefaultManager_AssignPartition (partitionMgr e) ?i = Inr (PartitionID t)" by blast
  have "?i \<noteq> []" by (simp add: task_id_def)
  with c(2,3) have g: "GetTask e1 ?i = (Inr (next_addr e1), snd (alloc t e1))"
    by (simp add: GetTask_def split_beta)
  have "next_addr e1 = Suc (next_addr e)"
    using eng.CreateTask_success [OF engine_reach_good [OF assms(1)] assms(2,3), of clk payload] c(1)
      created_tasks(2) by fastforce
  with c g show ?thesis
    by (intro exI [of _ "next_addr e"] exI [of _ e1] exI [of _ "next_addr e1"] exI [of _ "snd (alloc t e1)"])
      simp
qed

theorem create_then_get_witness:
  "\<exists>p e1 q e2. CreateTask wal_m pm_m (\<lambda>_. 5) eng0 ''w'' ''n'' (Some [1]) = (Inr p, e1) \<and>
    GetTask e1 id1 = (Inr q, e2) \<and> State (objects e2 q) = StatePending"
  using create_then_get [OF eng0_reach, of "''w''" "''n''" "\<lambda>_. 5" "Some [1]"]
  by (fastforce simp: id1_def)

text \<open>C11: the pointers that \<^verbatim>\<open>GetTask\<close>, \<^verbatim>\<open>TransitionTask\<close>, \<^verbatim>\<open>CompleteTask\<close> and \<^verbatim>\<open>FailTask\<close> return are
  private copies: whatever a caller stores through them, no task of the engine changes.\<close>
theorem returned_copies_are_private:
  assumes "engine_reach e"
    and "GetTask e i = (Inr p, e') \<or> TransitionTask wal_m clk e i s = (Inr p, e') \<or>
      CompleteTask wal_m clk e i r = (Inr p, e') \<or> FailTask wal_m clk e i m = (Inr p, e')"
  shows "task_of (store p x e') = task_of e'"
proof -
  have g: "eng.good e" by (rule engine_reach_good [OF assms(1)])
  have inv: "engine_inv e" by (rule engine_reach_inv [OF assms(1)])
  have "p = next_addr e \<and> tasks e' = tasks e"
    using assms(2)
  proof (elim disjE)
    assume "GetTask e i = (Inr p, e')"
    then show ?thesis by (auto simp: GetTask_def split_beta split: if_splits option.splits)
  next
    assume "TransitionTask wal_m clk e i s = (Inr p, e')"
    then show ?thesis using eng.TransitionTask_cases [OF g, of clk i s] moved_tasks(1) by fastforce
  next
    assume "CompleteTask wal_m clk e i r = (Inr p, e')"
    then show ?thesis using eng.CompleteTask_cases [OF g, of clk i r] moved_tasks(1) by fastforce
  next
    assume "FailTask wal_m clk e i m = (Inr p, e')"
    then show ?thesis using eng.FailTask_cases [OF g, of clk i m] moved_tasks(1) by fastforce
  qed
  then have fresh: "tasks e' j \<noteq> Some p" for j
    using engine_inv_task(1) [OF inv, of j] by auto
  show ?thesis
  proof (rule ext)
    fix j
    show "task_of (store p x e') j = task_of e' j"
      using fresh [of j] by (cases "tasks e' j") (simp_all add: task_of_def store_def)
  qed
qed

theorem returned_copies_are_private_witness:
  "\<exists>p e'. GetTask eng1 id1 = (Inr p, e') \<and>
     task_of (store p ((objects e' p)\<lparr>State := StateCompleted\<rparr>) e') = task_of e'"
proof -
  from eng1_view get_view [OF eng1_reach, of id1] obtain e' where
    g: "GetTask eng1 id1 = (Inr (next_addr eng1), e')" by auto
  from returned_copies_are_private [OF eng1_reach, of id1 "next_addr eng1" e'] g show ?thesis by blast
qed

text \<open>The pointer that \<^verbatim>\<open>CreateTask\<close> returns is the engine's own object: whatever the caller stores
  through it becomes the task, with no validation and no log entry.\<close>
lemma created_pointer_is_shared:
  assumes "engine_reach e" and "CreateTask wal_m pm_m clk e workflowID taskName payload = (Inr p, e')"
  shows "task_of (store p x e') (task_id workflowID (clk 0)) = Some x \<and>
    walLogger (store p x e') = walLogger e'"
proof -
  have "workflowID \<noteq> []" "taskName \<noteq> []"
    using assms(2) by (auto simp: CreateTask_def split: if_splits)
  from create_view [OF assms(1) this refl, of clk payload] assms(2)
  have "tasks e' (task_id workflowID (clk 0)) = Some p" by auto
  then show ?thesis by (simp add: task_of_def)
qed

end
