(* ===== verification/Engine_Queries.thy ===== *)
theory Engine_Queries
  imports Engine_Properties
begin

text \<open>
  The engine's queries, the branches of its transition operations, identifiers, recovery from the
  log, and what happens when the log refuses an entry.
\<close>

section \<open>Queries\<close>

lemma map_filter_view:
  "List.map_filter (\<lambda>i. map_option (objects e) (tasks e i)) order = List.map_filter (task_of e) order"
  by (simp add: task_of_def [abs_def])

lemma set_map_filter_range:
  assumes "range_order (tasks e) order"
  shows "set (List.map_filter (task_of e) order) = {t. \<exists>i. task_of e i = Some t}"
proof -
  have "set order = dom (task_of e)"
    using assms by (auto simp: range_order_def task_of_def)
  then show ?thesis by (force simp: List.map_filter_def)
qed

lemma selected_set:
  assumes "range_order (tasks e) order"
  shows "set (selected P order e) = {t. (\<exists>i. task_of e i = Some t) \<and> P t}"
  by (auto simp: selected_def map_filter_view set_map_filter_range [OF assms])

text \<open>The copies a selection allocates.\<close>

lemma alloc_all_copies:
  assumes "alloc_all (map Copy ts) e = (ps, e')" and "engine_inv e"
  shows "map (objects e') ps = ts" "task_of e' = task_of e" "\<forall>p \<in> set ps. next_addr e \<le> p"
proof -
  have ts: "map Copy ts = ts" by (simp add: map_idI)
  show "map (objects e') ps = ts"
    using alloc_all_contents [of ts e] assms(1) by (simp add: ts)
  show "task_of e' = task_of e"
    using grows_task_of [OF assms(2) grows_alloc_all [of e ts]] assms(1) by (simp add: ts)
  show "\<forall>p \<in> set ps. next_addr e \<le> p"
    using alloc_all_fresh [of _ ts e] assms(1) by (auto simp: ts)
qed

text \<open>C10: whatever order the map is ranged over, \<^verbatim>\<open>GetTasksByState\<close> returns copies of exactly the tasks in
  the given state and \<^verbatim>\<open>GetTasksForPartition\<close> of exactly the tasks of the given partition; no task of
  the engine changes.\<close>
theorem task_queries_exact:
  assumes "engine_reach e" and "range_order (tasks e) order"
    and "GetTasksByState order e s = (ps, e1)" and "GetTasksForPartition order e k = (qs, e2)"
  shows "objects e1 ` set ps = {t. (\<exists>i. task_of e i = Some t) \<and> State t = s} \<and>
    objects e2 ` set qs = {t. (\<exists>i. task_of e i = Some t) \<and> PartitionID t = k} \<and>
    task_of e1 = task_of e \<and> task_of e2 = task_of e"
proof -
  note inv = engine_reach_inv [OF assms(1)]
  note a = alloc_all_copies [OF assms(3) [unfolded GetTasksByState_def] inv]
  note b = alloc_all_copies [OF assms(4) [unfolded GetTasksForPartition_def] inv]
  have "objects e1 ` set ps = set (map (objects e1) ps)" "objects e2 ` set qs = set (map (objects e2) qs)"
    by simp_all
  then show ?thesis unfolding a b selected_set [OF assms(2)] by simp
qed

lemma eng1_range: "range_order (tasks eng1) [id1]"
proof -
  from eng1_view have "dom (task_of eng1) = {id1}" by (auto split: if_splits)
  moreover have "dom (tasks eng1) = dom (task_of eng1)" by (auto simp: task_of_def)
  ultimately show ?thesis by (simp add: range_order_def)
qed

theorem task_queries_exact_witness:
  "\<exists>t. task_of eng1 id1 = Some t \<and>
    (let (ps, e1) = GetTasksByState [id1] eng1 StatePending in objects e1 ` set ps = {t}) \<and>
    (let (ps, e1) = GetTasksByState [id1] eng1 StateFailed in objects e1 ` set ps = {})"
proof -
  from eng1_view obtain t where t: "task_of eng1 = [id1 \<mapsto> t]" "State t = StatePending" by auto
  have pend: "{x. (\<exists>i. task_of eng1 i = Some x) \<and> State x = StatePending} = {t}"
    and fail: "{x. (\<exists>i. task_of eng1 i = Some x) \<and> State x = StateFailed} = {}"
    using t by auto
  obtain ps e1 where p: "GetTasksByState [id1] eng1 StatePending = (ps, e1)" by force
  obtain qs e2 where q: "GetTasksByState [id1] eng1 StateFailed = (qs, e2)" by force
  obtain rs e3 where r: "GetTasksForPartition [id1] eng1 0 = (rs, e3)" by force
  have "objects e1 ` set ps = {t}"
    using task_queries_exact [OF eng1_reach eng1_range p r] unfolding pend by simp
  moreover have "objects e2 ` set qs = {}"
    using task_queries_exact [OF eng1_reach eng1_range q r] unfolding fail by simp
  ultimately show ?thesis using t(1) unfolding p q by simp
qed

text \<open>C9: \<^verbatim>\<open>GetWorkflowTasks\<close>, on an engine reached without a repeated identifier, never panics on a nil task, and
  returns one copy of each task of the workflow, in the order of their creation, and no other.\<close>
theorem workflow_query_exact:
  assumes "engine_reach e" and "w \<noteq> []"
  shows "\<exists>ps e'. GetWorkflowTasks e w = (Return (Inr ps), e') \<and>
    map (\<lambda>p. Some (objects e' p)) ps = map (task_of e) (workflow_ids e w) \<and>
    objects e' ` set ps = {t. (\<exists>i. task_of e i = Some t) \<and> WorkflowID t = w} \<and>
    task_of e' = task_of e"
proof -
  note inv = engine_reach_inv [OF assms(1)]
  note ids = engine_inv_workflow(2) [OF inv, of w]
  have "\<forall>i \<in> set (workflow_ids e w). task_of e i \<noteq> None" unfolding ids by auto
  from copy_workflow_tasks_ok [OF inv this] obtain ps e' where
    c: "copy_workflow_tasks (workflow_ids e w) e = (Return ps, e')"
    and m: "map (\<lambda>p. Some (objects e' p)) ps = map (task_of e) (workflow_ids e w)" by auto
  have res: "GetWorkflowTasks e w = (Return (Inr ps), e')"
  proof (cases "workflowTasks e w")
    case None
    with c assms(2) show ?thesis by (simp add: GetWorkflowTasks_def workflow_ids_def)
  next
    case (Some ids)
    then have "workflow_ids e w = ids" by (simp add: workflow_ids_def)
    with c Some assms(2) show ?thesis by (simp add: GetWorkflowTasks_def)
  qed
  have "Some ` objects e' ` set ps = set (map (\<lambda>p. Some (objects e' p)) ps)" by (simp add: image_image)
  also have "\<dots> = task_of e ` set (workflow_ids e w)" unfolding m by simp
  also have "\<dots> = Some ` {t. (\<exists>i. task_of e i = Some t) \<and> WorkflowID t = w}" unfolding ids by force
  finally have "objects e' ` set ps = {t. (\<exists>i. task_of e i = Some t) \<and> WorkflowID t = w}"
    by (simp add: inj_image_eq_iff)
  moreover have "task_of e' = task_of e"
    using grows_task_of [OF inv GetWorkflowTasks_grows [of e w]] res by simp
  ultimately show ?thesis using res m by blast
qed

theorem workflow_query_exact_witness:
  "\<exists>ps e' t. GetWorkflowTasks eng1 ''w'' = (Return (Inr ps), e') \<and> task_of eng1 id1 = Some t \<and>
     map (\<lambda>p. Some (objects e' p)) ps = [Some t]"
proof -
  from eng1_view obtain t where t: "task_of eng1 id1 = Some t" "workflow_ids eng1 ''w'' = [id1]" by auto
  with workflow_query_exact [OF eng1_reach, of "''w''"] show ?thesis by auto
qed

section \<open>Every branch of the transition operations\<close>

text \<open>C6: \<^verbatim>\<open>TransitionTask\<close> on every branch. Without an identifier, for an unknown task and for a refused
  transition it returns an error and changes nothing; otherwise it returns a copy of the task, whose
  state and update time are set, a dispatch time and one more attempt when it is dispatched, a
  completion time when it is completed, and no other task changes.\<close>
theorem transition_task_spec:
  assumes "engine_reach e"
  shows "case task_of e i of
     None \<Rightarrow> TransitionTask wal_m clk e i s =
       (Inl (if i = [] then ''task_id is required'' else ''task not found: '' @ i), e)
   | Some t \<Rightarrow>
      (case CanTransition (State t) s of
         Some err \<Rightarrow> TransitionTask wal_m clk e i s = (Inl (''invalid state transition: '' @ err), e)
       | None \<Rightarrow> \<exists>t' p e'. TransitionTask wal_m clk e i s = (Inr p, e') \<and> objects e' p = t' \<and>
           task_of e' = (task_of e)(i \<mapsto> t') \<and>
           t' = t\<lparr>State := s, UpdatedAt := clk 1,
                  DispatchedAt := (if s = StateDispatched then Some (clk 2) else DispatchedAt t),
                  Attempts := Attempts t + of_bool (s = StateDispatched),
                  CompletedAt := (if s = StateCompleted then Some (clk 2) else CompletedAt t)\<rparr>)"
proof (cases "task_of e i")
  case None
  then show ?thesis by (simp add: TransitionTask_def task_of_def)
next
  case (Some t)
  then obtain a where a: "tasks e i = Some a" "t = objects e a" by (rule task_of_SomeE)
  have ne: "i \<noteq> []" using engine_inv_task(2) [OF engine_reach_inv [OF assms] a(1)] .
  show ?thesis
  proof (cases "CanTransition (State t) s")
    case None
    then have tr: "transition (State t) s" by simp
    have eq: "snd (TransitionTo (\<lambda>k. clk (1 + k)) t s) =
      t\<lparr>State := s, UpdatedAt := clk 1,
        DispatchedAt := (if s = StateDispatched then Some (clk 2) else DispatchedAt t),
        Attempts := Attempts t + of_bool (s = StateDispatched),
        CompletedAt := (if s = StateCompleted then Some (clk 2) else CompletedAt t)\<rparr>"
      using tr by (cases t) (simp add: TransitionTo_def Let_def numeral_2_eq_2)
    from transition_view [OF assms Some tr eq [symmetric]] None Some show ?thesis by auto
  next
    case (Some err)
    with \<open>task_of e i = Some t\<close> a ne show ?thesis by (simp add: TransitionTask_def)
  qed
qed

theorem transition_task_spec_witness:
  "(\<exists>p e'. TransitionTask wal_m (\<lambda>_. 9) eng1 id1 StateScheduled = (Inr p, e') \<and>
      State (objects e' p) = StateScheduled \<and> UpdatedAt (objects e' p) = 9) \<and>
   TransitionTask wal_m (\<lambda>_. 9) eng1 id1 StateCompleted =
     (Inl ''invalid state transition: invalid transition from PENDING to COMPLETED'', eng1)"
proof -
  from eng1_view obtain t where t: "task_of eng1 id1 = Some t" "State t = StatePending" by auto
  have bad: "CanTransition StatePending StateCompleted = Some ''invalid transition from PENDING to COMPLETED''"
    by (simp add: CanTransition_def validTransitions_def) (simp add: state_defs)
  from transition_task_spec [OF eng1_reach, where i = id1 and clk = "\<lambda>_. 9" and s = StateScheduled] t
    transition_task_spec [OF eng1_reach, where i = id1 and clk = "\<lambda>_. 9" and s = StateCompleted] bad
  show ?thesis by fastforce
qed

lemma finish_refused_branch:
  assumes "tasks e i = Some a" and "i \<noteq> []" and "State (objects e a) \<noteq> StateDispatched"
  shows "CompleteTask L clk e i r =
      (Inl (''task must be in DISPATCHED state to complete, current: '' @ State (objects e a)), e)"
    and "FailTask L clk e i m =
      (Inl (''task must be in DISPATCHED state to fail, current: '' @ State (objects e a)), e)"
  using assms by (simp_all add: CompleteTask_def FailTask_def Let_def)

text \<open>C7: \<^verbatim>\<open>CompleteTask\<close> and \<^verbatim>\<open>FailTask\<close> on every branch. Without an identifier, for an unknown task, and for a task that
  is not DISPATCHED they return an error and change nothing; otherwise they return a copy of the task,
  which becomes COMPLETED with the given result and a completion time, or FAILED with the given error
  text, and nothing else of it changes but the update time, and no other task changes.\<close>
theorem finish_task_spec:
  assumes "engine_reach e"
  shows "case task_of e i of
     None \<Rightarrow>
       CompleteTask wal_m clk e i r =
         (Inl (if i = [] then ''task_id is required'' else ''task not found: '' @ i), e) \<and>
       FailTask wal_m clk e i m =
         (Inl (if i = [] then ''task_id is required'' else ''task not found: '' @ i), e)
   | Some t \<Rightarrow>
       (if State t \<noteq> StateDispatched
        then CompleteTask wal_m clk e i r =
               (Inl (''task must be in DISPATCHED state to complete, current: '' @ State t), e) \<and>
             FailTask wal_m clk e i m =
               (Inl (''task must be in DISPATCHED state to fail, current: '' @ State t), e)
        else (\<exists>p e'. CompleteTask wal_m clk e i r = (Inr p, e') \<and>
               objects e' p = t\<lparr>Result := r, State := StateCompleted, UpdatedAt := clk 1, CompletedAt := Some (clk 2)\<rparr> \<and>
               task_of e' = (task_of e)(i \<mapsto> objects e' p)) \<and>
             (\<exists>p e'. FailTask wal_m clk e i m = (Inr p, e') \<and>
               objects e' p = t\<lparr>Error := m, State := StateFailed, UpdatedAt := clk 1\<rparr> \<and>
               task_of e' = (task_of e)(i \<mapsto> objects e' p)))"
proof (cases "task_of e i")
  case None
  then have "tasks e i = None" by (simp add: task_of_def)
  with None show ?thesis by (simp add: CompleteTask_def FailTask_def)
next
  case (Some t)
  show ?thesis
  proof (cases "State t = StateDispatched")
    case True
    have "snd (TransitionTo (\<lambda>k. clk (1 + k)) (t\<lparr>Result := r\<rparr>) StateCompleted) =
        t\<lparr>Result := r, State := StateCompleted, UpdatedAt := clk 1, CompletedAt := Some (clk 2)\<rparr>"
      "snd (TransitionTo (\<lambda>k. clk (1 + k)) (t\<lparr>Error := m\<rparr>) StateFailed) =
        t\<lparr>Error := m, State := StateFailed, UpdatedAt := clk 1\<rparr>"
      using True by (simp_all add: TransitionTo_def Let_def numeral_2_eq_2)
    with complete_view [OF assms Some True refl, of clk r] fail_view [OF assms Some True refl, of clk m] True Some
    show ?thesis by auto
  next
    case False
    from Some obtain a where a: "tasks e i = Some a" "t = objects e a" by (rule task_of_SomeE)
    have "i \<noteq> []" using engine_inv_task(2) [OF engine_reach_inv [OF assms] a(1)] .
    from finish_refused_branch [OF a(1) this] a(2) False Some show ?thesis by simp
  qed
qed

theorem finish_task_spec_witness:
  "(\<exists>p e'. CompleteTask wal_m (\<lambda>_. 8) eng3 id1 (Some [42]) = (Inr p, e') \<and>
      State (objects e' p) = StateCompleted \<and> Result (objects e' p) = Some [42]) \<and>
   FailTask wal_m (\<lambda>_. 8) eng1 id1 ''boom'' =
     (Inl ''task must be in DISPATCHED state to fail, current: PENDING'', eng1) \<and>
   CompleteTask wal_m (\<lambda>_. 8) eng1 ''x'' None = (Inl ''task not found: x'', eng1)"
proof -
  from eng1_view obtain t where t: "task_of eng1 = [id1 \<mapsto> t]" "State t = StatePending" by auto
  from eng3_view obtain u where u: "task_of eng3 id1 = Some u" "State u = StateDispatched" by auto
  have x: "task_of eng1 ''x'' = None" using t by (simp add: id1_def task_id_def)
  note spec = finish_task_spec [where clk = "\<lambda>_. 8" and m = "''boom''"]
  from spec [OF eng3_reach, where i = id1 and r = "Some [42]"] u have
    "\<exists>p e'. CompleteTask wal_m (\<lambda>_. 8) eng3 id1 (Some [42]) = (Inr p, e') \<and>
      State (objects e' p) = StateCompleted \<and> Result (objects e' p) = Some [42]" by fastforce
  moreover from spec [OF eng1_reach, where i = id1] t have
    "FailTask wal_m (\<lambda>_. 8) eng1 id1 ''boom'' =
      (Inl ''task must be in DISPATCHED state to fail, current: PENDING'', eng1)" by (simp add: state_defs)
  moreover from spec [OF eng1_reach, where i = "''x''" and r = None] x have
    "CompleteTask wal_m (\<lambda>_. 8) eng1 ''x'' None = (Inl ''task not found: x'', eng1)" by simp
  ultimately show ?thesis by blast
qed

end
