(* ===== verification/Engine_Recovery.thy ===== *)
theory Engine_Recovery
  imports Engine_Queries
begin

text \<open>
  The engine and its log: the entries determine the states of all tasks, a log that refuses an
  entry, and the generated identifiers, on which the registry and the log both rely.
\<close>

section \<open>Recovery\<close>

lemma NewEngine_durable:
  assumes "pred_option (\<lambda>m. 0 < sint (partitionCount m)) mgr"
  shows "deng.good (NewEngine h (Some (InMemory NewInMemoryLogger)) mgr) \<and>
    wal_consistent (WalLogger_log (walLogger (NewEngine h (Some (InMemory NewInMemoryLogger)) mgr)))
      (NewEngine h (Some (InMemory NewInMemoryLogger)) mgr)"
proof -
  have "eng.good (NewEngine h (Some (InMemory NewInMemoryLogger)) mgr)"
    by (rule NewEngine_good) (use assms in simp_all)
  then show ?thesis
    by (simp add: eng.good_def deng.good_def wal_consistent_def NewEngine_parts NewInMemoryLogger_def
        recover_def history_def valid_history_def wal_inv_def)
qed

text \<open>C2: with the in-memory log, after any sequence of engine calls that does not close the log (closing drops its
  entries) and in which no two creations generate the same identifier, the log alone determines the
  state of every task: the last entry of a task is its state and a task without entries does not
  exist. The entries of a task form a path of accepted transitions from PENDING, its attempt counter is
  the number of its DISPATCHED entries, and the sequence counter is the length of the log.\<close>
theorem wal_determines_states:
  assumes "pred_option (\<lambda>m. 0 < sint (partitionCount m)) mgr"
    and "engine_run wal_m pm_m (NewEngine h (Some (InMemory NewInMemoryLogger)) mgr) evs e"
    and "distinct (created_ids evs)" and "Closes \<notin> set evs"
  shows "\<exists>l. walLogger e = InMemory l \<and>
    (\<forall>i. map_option State (task_of e i) = recover (GetAll l) i \<and> valid_history (history (GetAll l) i)) \<and>
    (\<forall>i t. task_of e i = Some t \<longrightarrow> Attempts t = of_nat (dispatches (history (GetAll l) i))) \<and>
    GetSequenceCounter e = of_nat (length (GetAll l))"
proof -
  from engine_run_fresh [OF assms(2) _ assms(4)] assms(3)
  have "(fresh_step wal_m pm_m)\<^sup>*\<^sup>* (NewEngine h (Some (InMemory NewInMemoryLogger)) mgr) e" by simp
  from deng.steps_consistent [OF this] NewEngine_durable [OF assms(1)]
  have "deng.good e" and cons: "wal_consistent (WalLogger_log (walLogger e)) e" by simp_all
  then obtain l where l: "walLogger e = InMemory l" by (cases "walLogger e") (auto simp: deng.good_def)
  with cons show ?thesis by (simp add: wal_consistent_def GetAll_def GetSequenceCounter_def)
qed

theorem wal_determines_states_witness:
  "\<exists>l. walLogger eng4 = InMemory l \<and> recover (GetAll l) id1 = Some StateCompleted \<and>
     recover (GetAll l) ''other'' = None"
proof -
  from eng4_view obtain t where t: "task_of eng4 = [id1 \<mapsto> t]" "State t = StateCompleted" by auto
  have ne: "''other'' \<noteq> id1" by (simp add: id1_def task_id_def)
  obtain l where l: "walLogger eng4 = InMemory l"
    "\<forall>i. map_option State (task_of eng4 i) = recover (GetAll l) i"
    using wal_determines_states [OF _ run_0_4 [unfolded eng0_def]] by (auto simp: NewDefaultManager_def)
  from l(2) [rule_format, of id1] l(2) [rule_format, of "''other''"] l(1) t ne show ?thesis by simp
qed

section \<open>A log that refuses an entry\<close>

definition refuses :: "'w Logger \<Rightarrow> 'w \<Rightarrow> bool" where
  "refuses L w \<longleftrightarrow> (\<forall>now entry. \<exists>err. Append L now entry w = (Inl err, w))"

lemma refusesE:
  assumes "refuses L w"
  obtains err where "Append L now entry w = (Inl err, w)"
  using assms by (auto simp: refuses_def)

lemma store_task_of:
  assumes "engine_inv e" and a: "tasks e i = Some a"
  shows "task_of (store a t e) = (task_of e)(i \<mapsto> t)"
proof
  fix j show "task_of (store a t e) j = ((task_of e)(i \<mapsto> t)) j"
  proof (cases "tasks e j")
    case None
    with a show ?thesis by (auto simp: task_of_def)
  next
    case (Some b)
    moreover have "b = a \<longleftrightarrow> j = i" using engine_inv_inj [OF assms(1)] a Some by auto
    ultimately show ?thesis by (simp add: task_of_def)
  qed
qed

lemma task_of_wal [simp]: "task_of (e\<lparr>walLogger := w\<rparr>) = task_of e"
  by (simp add: fun_eq_iff task_of_def)

text \<open>C21: when the log refuses the entry, creation and transition fail and leave every task as it was, but
  completion and failure have already written the result or the error text into the task, which stays
  DISPATCHED: the call reports an error and the task is changed all the same.\<close>
theorem refused_entry_effect:
  assumes "engine_inv e" and "refuses L (walLogger e)" and "task_of e i = Some t"
    and "State t = StateDispatched"
  shows "(\<exists>err. fst (CreateTask L P clk e w n d) = Inl err) \<and> task_of (snd (CreateTask L P clk e w n d)) = task_of e \<and>
    (\<exists>err. fst (TransitionTask L clk e i s) = Inl err) \<and> task_of (snd (TransitionTask L clk e i s)) = task_of e \<and>
    (\<exists>err. fst (CompleteTask L clk e i r) = Inl err) \<and>
      task_of (snd (CompleteTask L clk e i r)) = (task_of e)(i \<mapsto> t\<lparr>Result := r\<rparr>) \<and>
    (\<exists>err. fst (FailTask L clk e i m) = Inl err) \<and>
      task_of (snd (FailTask L clk e i m)) = (task_of e)(i \<mapsto> t\<lparr>Error := m\<rparr>)"
proof -
  from assms(3) obtain a where a: "tasks e i = Some a" "t = objects e a" by (rule task_of_SomeE)
  have ne: "i \<noteq> []" using engine_inv_task(2) [OF assms(1) a(1)] .
  have commit: "\<exists>err. commit L clk e' a' u entry s' msg = (Inl err, e')"
    if "walLogger e' = walLogger e" for e' :: "('a, 'b) Engine" and a' u entry s' msg
  proof -
    from assms(2) obtain err where "Append L (clk 0) entry (walLogger e) = (Inl err, walLogger e)"
      by (rule refusesE)
    then show ?thesis using commit_err [of L clk entry e' err "walLogger e"] that by auto
  qed
  have "(\<exists>err. CreateTask L P clk e w n d = (Inl err, e))"
  proof -
    from assms(2) obtain err where
      "Append L (clk 2) (wal_entry (task_id w (clk 0)) w StatePending d) (walLogger e) = (Inl err, walLogger e)"
      by (rule refusesE)
    then show ?thesis by (auto simp: CreateTask_def Let_def split: sum.split)
  qed
  moreover have "\<exists>err. TransitionTask L clk e i s = (Inl err, e)"
    using a(1) ne commit [OF refl] by (auto simp: TransitionTask_commit split: option.split)
  moreover have "\<exists>err. CompleteTask L clk e i r = (Inl err, store a (t\<lparr>Result := r\<rparr>) e)"
    using a ne assms(4) commit [of "store a (t\<lparr>Result := r\<rparr>) e"] by (simp add: CompleteTask_commit)
  moreover have "\<exists>err. FailTask L clk e i m = (Inl err, store a (t\<lparr>Error := m\<rparr>) e)"
    using a ne assms(4) commit [of "store a (t\<lparr>Error := m\<rparr>) e"] by (simp add: FailTask_commit)
  ultimately show ?thesis using store_task_of [OF assms(1) a(1)] by auto
qed

definition full_disk :: "WalLogger Logger" where
  "full_disk = wal_m\<lparr>Append := \<lambda>now entry w. (Inl ''no space left on device'', w)\<rparr>"

theorem refused_entry_effect_witness:
  "\<exists>t. task_of eng3 id1 = Some t \<and> State t = StateDispatched \<and>
     (\<exists>err. fst (CompleteTask full_disk (\<lambda>_. 8) eng3 id1 (Some [42])) = Inl err) \<and>
     task_of (snd (CompleteTask full_disk (\<lambda>_. 8) eng3 id1 (Some [42]))) id1 = Some (t\<lparr>Result := Some [42]\<rparr>)"
proof -
  from eng3_view obtain t where t: "task_of eng3 id1 = Some t" "State t = StateDispatched" by auto
  have "refuses full_disk (walLogger eng3)" by (simp add: refuses_def full_disk_def)
  from refused_entry_effect [OF engine_reach_inv [OF eng3_reach] this t,
      where clk = "\<lambda>_. 8" and r = "Some [42]"] t
  show ?thesis by simp
qed

section \<open>Identifiers\<close>

lemma show_int_nonneg: "0 \<le> a \<Longrightarrow> show_int a = show_nat (nat a)"
  by (simp add: show_int_def)

text \<open>The identifiers \<^verbatim>\<open>CreateTask\<close> generates (\<^verbatim>\<open>task-<workflow>-<nanoseconds>\<close>) are different for different
  workflows, even when workflow names contain dashes and digits, and for different times.\<close>
lemma task_id_unique:
  assumes "0 \<le> a" and "0 \<le> b"
  shows "task_id w a = task_id v b \<longleftrightarrow> w = v \<and> a = b"
proof
  assume "task_id w a = task_id v b"
  then have "w @ CHR ''-'' # show_nat (nat a) = v @ CHR ''-'' # show_nat (nat b)"
    using assms by (simp add: task_id_def show_int_nonneg)
  from append_sep_inject [OF this show_nat_no_minus show_nat_no_minus] assms
  show "w = v \<and> a = b" by (simp add: eq_nat_nat_iff)
qed simp

text \<open>C24: two creations in one workflow within the same nanosecond collide: the second succeeds, takes the
  identifier over with a new PENDING task, whatever state the first task had reached, and the
  workflow lists the identifier twice.\<close>
theorem create_collision_overwrites:
  assumes "engine_reach e" and "task_of e (task_id w (clk 0)) = Some t0" and "WorkflowID t0 = w"
    and "n \<noteq> []"
  shows "\<exists>p e' t. CreateTask wal_m pm_m clk e w n d = (Inr p, e') \<and>
    task_of e' (task_id w (clk 0)) = Some t \<and> State t = StatePending \<and> Payload t = d \<and>
    \<not> distinct (workflow_ids e' w)"
proof -
  let ?i = "task_id w (clk 0)"
  note inv = engine_reach_inv [OF assms(1)]
  have w: "w \<noteq> []" using engine_inv_task_of [OF inv assms(2)] assms(3) by simp
  have "?i \<in> set (workflow_ids e w)" using engine_inv_workflow(2) [OF inv, of w] assms(2,3) by auto
  with create_view [OF assms(1) w assms(4) refl, of clk d] show ?thesis by fastforce
qed

theorem create_collision_overwrites_witness:
  "(\<exists>t. task_of eng4 id1 = Some t \<and> State t = StateCompleted) \<and>
   (\<exists>p e' t. CreateTask wal_m pm_m (\<lambda>_. 5) eng4 ''w'' ''n'' None = (Inr p, e') \<and>
      task_of e' id1 = Some t \<and> State t = StatePending \<and> \<not> distinct (workflow_ids e' ''w''))"
proof -
  from eng1_view obtain t1 where t1: "task_of eng1 id1 = Some t1" "WorkflowID t1 = ''w''" by auto
  from spec_steps_keep [OF spec_1_4 t1(1)] t1(2) obtain t where
    t: "task_of eng4 id1 = Some t" "WorkflowID t = ''w''" by auto
  with eng4_view create_collision_overwrites [OF eng4_reach, of "''w''" "\<lambda>_. 5" t "''n''" None]
  show ?thesis unfolding id1_def by auto
qed

end
