(* ===== verification/Engine_Races.thy ===== *)
theory Engine_Races
  imports Engine_Recovery
begin

text \<open>
  The engine's queries release the mutex before they copy the tasks they found. Here a query is
  split where the mutex is released: the references are collected in one state of the engine and
  copied in a later one. Below that, a copy is split into its reads and a transition into its writes,
  which interleave when the copy runs without the mutex.
\<close>

section \<open>Queries in two phases\<close>

definition collect_by_state :: "string list \<Rightarrow> ('w, 'p) Engine \<Rightarrow> State \<Rightarrow> addr list" where
  "collect_by_state order e state =
     filter (\<lambda>a. State (objects e a) = state) (List.map_filter (tasks e) order)"

definition collect_for_partition :: "string list \<Rightarrow> ('w, 'p) Engine \<Rightarrow> goint \<Rightarrow> addr list" where
  "collect_for_partition order e partitionID =
     filter (\<lambda>a. PartitionID (objects e a) = partitionID) (List.map_filter (tasks e) order)"

definition copy_refs :: "addr list \<Rightarrow> ('w, 'p) Engine \<Rightarrow> addr list \<times> ('w, 'p) Engine" where
  "copy_refs refs e = alloc_all (map (\<lambda>a. Copy (objects e a)) refs) e"

lemma map_filter_map_option:
  "List.map_filter (\<lambda>i. map_option f (g i)) xs = map f (List.map_filter g xs)"
  by (induction xs) (auto simp: List.map_filter_simps split: option.split)

text \<open>Without any step in between, the two phases are the query.\<close>

lemma two_phases:
  "GetTasksByState order e s = copy_refs (collect_by_state order e s) e"
  "GetTasksForPartition order e k = copy_refs (collect_for_partition order e k) e"
  by (simp_all add: GetTasksByState_def GetTasksForPartition_def copy_refs_def collect_by_state_def
      collect_for_partition_def selected_def map_filter_map_option filter_map o_def)

lemma step_keeps_pointers:
  assumes "anyeng.good e" and "engine_step wal_m pm_m evs e e'" and "fresh_ids e evs"
    and a: "tasks e i = Some a"
  shows "tasks e' i = Some a"
proof (cases "Closes \<in> set evs")
  case True
  with assms(2) have "e' = snd (Close wal_m e)" by (cases rule: engine_step.cases) (auto split: if_splits)
  with a Close_effect [of wal_m e] show ?thesis by simp
next
  case False
  with assms(2,3) have "fresh_step wal_m pm_m e e'" by (auto simp: fresh_step_def)
  with assms(1) show ?thesis
  proof (cases rule: anyeng.step_cases)
    case 1
    with a show ?thesis by (simp add: grows_def)
  next
    case (2 j t)
    have "j \<noteq> i" using 2(2) a by (auto simp: task_of_def)
    with a created_tasks(1) [OF 2(1)] show ?thesis by simp
  next
    case (3 j s)
    with a moved_tasks(1) show ?thesis by metis
  next
    case (4 seq)
    with a show ?thesis by (simp add: Checkpoint_def split_beta)
  qed
qed

lemma run_keeps_pointers:
  assumes "engine_run wal_m pm_m e evs e'" and "fresh_ids e evs" and "anyeng.good e" and "tasks e i = Some a"
  shows "anyeng.good e' \<and> tasks e' i = Some a"
  using assms
proof (induction rule: engine_run.induct)
  case (call e evs e' es e'')
  have "anyeng.good e' \<and> tasks e' i = Some a"
    using call.IH fresh_ids_append(1) [OF call(1) call.prems(1)] call.prems(2,3) by simp
  then show ?case
    using step_keeps_pointers [OF _ call(2)] engine_step_simulates [OF call(2)]
      fresh_ids_append(2) [OF call(1) call.prems(1)] by blast
qed simp

lemma copy_refs_contents:
  assumes "copy_refs refs e = (ps, e')"
  shows "map (objects e') ps = map (objects e) refs"
  using alloc_all_contents [of "map (objects e) refs" e] assms by (simp add: copy_refs_def)

text \<open>C22: a query by state that other calls overtake between its two phases returns the tasks it selected as they
  are when they are copied: each is a current task of the engine, and its state may have moved on, but
  only along accepted transitions from the state that was asked for. This holds for any other calls,
  \<^verbatim>\<open>Close\<close> included, that generate no identifier in use and none twice.\<close>
theorem overtaken_query_follows_diagram:
  assumes "engine_reach e" and "engine_run wal_m pm_m e evs e'" and "fresh_ids e evs"
    and "copy_refs (collect_by_state order e s) e' = (ps, e'')" and "p \<in> set ps"
  shows "\<exists>i t t'. task_of e i = Some t \<and> State t = s \<and> task_of e' i = Some t' \<and> objects e'' p = t' \<and>
    transition\<^sup>*\<^sup>* s (State t')"
proof -
  have g: "anyeng.good e"
    using engine_reach_good [OF assms(1)] by (simp add: eng.good_def anyeng.good_def)
  have "objects e'' p \<in> objects e' ` set (collect_by_state order e s)"
    using arg_cong [OF copy_refs_contents [OF assms(4)], of set] assms(5) by force
  then obtain i a where a: "tasks e i = Some a" "State (objects e a) = s" "objects e'' p = objects e' a"
    by (auto simp: collect_by_state_def List.map_filter_def)
  have t: "task_of e i = Some (objects e a)" using a by (simp add: task_of_def)
  from run_keeps_pointers [OF assms(2,3) g a(1)] have "task_of e' i = Some (objects e' a)"
    by (simp add: task_of_def)
  moreover from spec_steps_keep [OF conjunct2 [OF engine_run_simulates [OF assms(2,3) g]] t] obtain t' where
    "task_of e' i = Some t'" "transition\<^sup>*\<^sup>* s (State t')" using a(2) by auto
  ultimately show ?thesis using t a by auto
qed

theorem overtaken_query_follows_diagram_witness:
  "\<exists>ps e'' p. copy_refs (collect_by_state [id1] eng1 StatePending) eng4 = (ps, e'') \<and> p \<in> set ps \<and>
     State (objects e'' p) = StateCompleted \<and> transition\<^sup>*\<^sup>* StatePending StateCompleted"
proof -
  from eng1_view obtain t where t: "task_of eng1 id1 = Some t" "State t = StatePending" "tasks eng1 id1 = Some 0" by auto
  then have refs: "collect_by_state [id1] eng1 StatePending = [0]"
    by (simp add: collect_by_state_def List.map_filter_simps task_of_def)
  obtain ps e'' where c: "copy_refs (collect_by_state [id1] eng1 StatePending) eng4 = (ps, e'')" by force
  then have "length ps = 1" using copy_refs_contents [OF c] refs by (metis length_map length_Cons list.size(3) One_nat_def)
  then obtain p where p: "p \<in> set ps" by (cases ps) auto
  from overtaken_query_follows_diagram [OF eng1_reach run_1_4 fresh_ids_Nil c p] obtain i t0 t' where
    i: "task_of eng1 i = Some t0" "task_of eng4 i = Some t'" "objects e'' p = t'"
      "transition\<^sup>*\<^sup>* StatePending (State t')" by auto
  from eng1_view i(1) have "i = id1" by (auto split: if_splits)
  with i(2) eng4_view have "State t' = StateCompleted" by auto
  with c p i show ?thesis by auto
qed

section \<open>A copy that runs during a transition\<close>

text \<open>
  The assignments of \<^verbatim>\<open>TransitionTo\<close> in their order, and the reads of \<^verbatim>\<open>Copy\<close>: \<^verbatim>\<open>result := *t\<close> field by field in
  the order of the struct, then once more the slices and the times that are not nil. A read copies
  one field of the shared task into the result.
\<close>

definition transition_writes :: "clock \<Rightarrow> State \<Rightarrow> (Task \<Rightarrow> Task) list" where
  "transition_writes clk newState =
     [State_update (\<lambda>_. newState), UpdatedAt_update (\<lambda>_. clk 0)] @
     (if newState = StateDispatched
      then [DispatchedAt_update (\<lambda>_. Some (clk 1)), Attempts_update (\<lambda>n. n + 1)]
      else if newState = StateCompleted then [CompletedAt_update (\<lambda>_. Some (clk 1))]
      else [])"

definition copy_reads :: "(Task \<Rightarrow> Task \<Rightarrow> Task) list" where
  "copy_reads =
     [\<lambda>t. ID_update (\<lambda>_. ID t), \<lambda>t. WorkflowID_update (\<lambda>_. WorkflowID t), \<lambda>t. Name_update (\<lambda>_. Name t),
      \<lambda>t. State_update (\<lambda>_. State t), \<lambda>t. Payload_update (\<lambda>_. Payload t),
      \<lambda>t. Result_update (\<lambda>_. Result t), \<lambda>t. Error_update (\<lambda>_. Error t),
      \<lambda>t. PartitionID_update (\<lambda>_. PartitionID t), \<lambda>t. Attempts_update (\<lambda>_. Attempts t),
      \<lambda>t. MaxAttempts_update (\<lambda>_. MaxAttempts t), \<lambda>t. CreatedAt_update (\<lambda>_. CreatedAt t),
      \<lambda>t. UpdatedAt_update (\<lambda>_. UpdatedAt t), \<lambda>t. DispatchedAt_update (\<lambda>_. DispatchedAt t),
      \<lambda>t. CompletedAt_update (\<lambda>_. CompletedAt t),
      \<lambda>t. if Result t \<noteq> None then Result_update (\<lambda>_. Result t) else id,
      \<lambda>t. if Payload t \<noteq> None then Payload_update (\<lambda>_. Payload t) else id,
      \<lambda>t. if DispatchedAt t \<noteq> None then DispatchedAt_update (\<lambda>_. DispatchedAt t) else id,
      \<lambda>t. if CompletedAt t \<noteq> None then CompletedAt_update (\<lambda>_. CompletedAt t) else id]"

datatype access = Write "Task \<Rightarrow> Task" | Read "Task \<Rightarrow> Task \<Rightarrow> Task"

text \<open>The shared task and the copy, under a sequence of accesses.\<close>

fun run_accesses :: "access list \<Rightarrow> Task \<times> Task \<Rightarrow> Task \<times> Task" where
  "run_accesses [] s = s"
| "run_accesses (Write f # xs) (t, c) = run_accesses xs (f t, c)"
| "run_accesses (Read r # xs) (t, c) = run_accesses xs (t, r t c)"

definition interleavings :: "clock \<Rightarrow> State \<Rightarrow> access list set" where
  "interleavings clk newState = shuffles (map Write (transition_writes clk newState)) (map Read copy_reads)"

text \<open>Alone, the writes are the transition and the reads are a copy.\<close>

lemma writes_are_transition:
  "transition (State t) s \<Longrightarrow>
   run_accesses (map Write (transition_writes clk s)) (t, c) = (snd (TransitionTo clk t s), c)"
  by (cases t) (simp add: transition_writes_def TransitionTo_def Let_def)

lemma reads_are_copy: "run_accesses (map Read copy_reads) (t, c) = (t, Copy t)"
  by (cases t, cases c) (simp add: copy_reads_def)

text \<open>The values a field of the shared task takes while the writes are carried out.\<close>

fun field_values :: "(Task \<Rightarrow> 'a) \<Rightarrow> (Task \<Rightarrow> Task) list \<Rightarrow> Task \<Rightarrow> 'a set" where
  "field_values f [] t = {f t}"
| "field_values f (w # ws) t = insert (f t) (field_values f ws (w t))"

definition keeps_or_reads :: "(Task \<Rightarrow> 'a) \<Rightarrow> (Task \<Rightarrow> Task \<Rightarrow> Task) \<Rightarrow> bool" where
  "keeps_or_reads f r \<longleftrightarrow> (\<forall>t c. f (r t c) = f t \<or> f (r t c) = f c)"

definition always_reads :: "(Task \<Rightarrow> 'a) \<Rightarrow> (Task \<Rightarrow> Task \<Rightarrow> Task) \<Rightarrow> bool" where
  "always_reads f r \<longleftrightarrow> (\<forall>t c. f (r t c) = f t)"

lemma field_values_first: "f t \<in> field_values f ws t"
  by (cases ws) simp_all

lemma shuffle_cases [consumes 1, case_names Write Read]:
  assumes "z # zs \<in> shuffles (map Write ws) (map Read rs)"
  obtains w ws' where "z = Write w" "ws = w # ws'" "zs \<in> shuffles (map Write ws') (map Read rs)"
    | r rs' where "z = Read r" "rs = r # rs'" "zs \<in> shuffles (map Write ws) (map Read rs')"
  using assms by (cases ws; cases rs) (auto simp: Cons_in_shuffles_iff)

lemma shuffle_writes:
  assumes "zs \<in> shuffles (map Write ws) (map Read rs)"
  shows "fst (run_accesses zs (t, c)) = fold (\<lambda>w. w) ws t"
  using assms
proof (induction zs arbitrary: ws rs t c)
  case Nil
  then show ?case by simp
next
  case (Cons z zs)
  from Cons.prems show ?case
  proof (cases rule: shuffle_cases)
    case (Write w ws')
    with Cons.IH [of ws' rs "w t" c] show ?thesis by simp
  next
    case (Read r rs')
    with Cons.IH [of ws rs' t "r t c"] show ?thesis by simp
  qed
qed

lemma shuffle_reads:
  assumes "zs \<in> shuffles (map Write ws) (map Read rs)"
    and "field_values f ws t \<subseteq> S" and "\<forall>r \<in> set rs. keeps_or_reads f r"
    and "f c \<in> S \<or> (\<exists>r \<in> set rs. always_reads f r)"
  shows "f (snd (run_accesses zs (t, c))) \<in> S"
  using assms
proof (induction zs arbitrary: ws rs t c)
  case Nil
  then show ?case by auto
next
  case (Cons z zs)
  from Cons.prems(1) show ?case
  proof (cases rule: shuffle_cases)
    case (Write w ws')
    with Cons.IH [of ws' rs "w t" c] Cons.prems(2-4) show ?thesis by simp
  next
    case (Read r rs')
    have "f t \<in> S" using Cons.prems(2) field_values_first by blast
    then have "f (r t c) \<in> S \<or> (\<exists>r \<in> set rs'. always_reads f r)"
      using Cons.prems(3,4) Read(2) unfolding keeps_or_reads_def always_reads_def by (metis set_ConsD list.set_intros(1))
    with Read Cons.IH [of ws rs' t "r t c"] Cons.prems(2,3) show ?thesis by simp
  qed
qed

lemma copy_reads_field:
  assumes "zs \<in> interleavings clk s" and "\<forall>r \<in> set copy_reads. keeps_or_reads f r"
    and "\<exists>r \<in> set copy_reads. always_reads f r"
    and "field_values f (transition_writes clk s) t \<subseteq> S"
  shows "f (snd (run_accesses zs (t, c))) \<in> S"
  using shuffle_reads [where rs = copy_reads] assms unfolding interleavings_def by blast

lemmas copy_read_defs = copy_reads_def keeps_or_reads_def always_reads_def

text \<open>A copy that runs during a transition, in any interleaving of its reads with the writes, gets the identity of
  the task right and for every other field either the value before or the value after the transition;
  the transition itself is not disturbed.\<close>
lemma unlocked_copy_is_mixture:
  assumes "transition (State t) s" and "zs \<in> interleavings clk s" and "run_accesses zs (t, c) = (t', cp)"
  shows "t' = snd (TransitionTo clk t s) \<and>
    ID cp = ID t \<and> WorkflowID cp = WorkflowID t \<and> Name cp = Name t \<and> Payload cp = Payload t \<and>
    Result cp = Result t \<and> Error cp = Error t \<and> PartitionID cp = PartitionID t \<and>
    MaxAttempts cp = MaxAttempts t \<and> CreatedAt cp = CreatedAt t \<and>
    State cp \<in> {State t, State t'} \<and> UpdatedAt cp \<in> {UpdatedAt t, UpdatedAt t'} \<and>
    DispatchedAt cp \<in> {DispatchedAt t, DispatchedAt t'} \<and> CompletedAt cp \<in> {CompletedAt t, CompletedAt t'} \<and>
    Attempts cp \<in> {Attempts t, Attempts t'}"
proof -
  have t': "t' = snd (TransitionTo clk t s)"
    using shuffle_writes [OF assms(2) [unfolded interleavings_def], of t c] assms(3)
      shuffle_writes [of "map Write (transition_writes clk s)" "transition_writes clk s" "[]" t c]
      writes_are_transition [OF assms(1), of clk c] by simp
  note eff = TransitionTo_effect [OF assms(1), of clk, folded t']
  note field = copy_reads_field [OF assms(2), where t = t and c = c, unfolded assms(3) snd_conv]
  have "ID cp \<in> {ID t}" "WorkflowID cp \<in> {WorkflowID t}" "Name cp \<in> {Name t}" "Payload cp \<in> {Payload t}"
    "Result cp \<in> {Result t}" "Error cp \<in> {Error t}" "PartitionID cp \<in> {PartitionID t}"
    "MaxAttempts cp \<in> {MaxAttempts t}" "CreatedAt cp \<in> {CreatedAt t}"
    by (rule field; auto simp: copy_read_defs transition_writes_def)+
  moreover have "State cp \<in> {State t, State t'}" "UpdatedAt cp \<in> {UpdatedAt t, UpdatedAt t'}"
    "DispatchedAt cp \<in> {DispatchedAt t, DispatchedAt t'}" "CompletedAt cp \<in> {CompletedAt t, CompletedAt t'}"
    "Attempts cp \<in> {Attempts t, Attempts t'}"
    by (rule field; auto simp: copy_read_defs transition_writes_def eff)+
  ultimately show ?thesis using t' by simp
qed

lemma append_in_shuffles: "ys @ xs \<in> shuffles xs ys"
  by (induction ys) (auto simp: Cons_in_shuffles_iff)

definition scheduled_task :: Task where
  "scheduled_task = (NewTask (\<lambda>_. 1) ''t'' ''w'' ''n'' None)\<lparr>State := StateScheduled\<rparr>"

definition torn :: "clock \<Rightarrow> access list" where
  "torn clk =
     Write (State_update (\<lambda>_. StateDispatched)) #
     map Read copy_reads @ map Write (tl (transition_writes clk StateDispatched))"

lemma torn_interleaving: "torn clk \<in> interleavings clk StateDispatched"
  using append_in_shuffles [of "map Read copy_reads" "map Write (tl (transition_writes clk StateDispatched))"]
  by (simp add: torn_def interleavings_def transition_writes_def Cons_in_shuffles_iff)

lemma run_accesses_append: "run_accesses (xs @ ys) s = run_accesses ys (run_accesses xs s)"
  by (induction xs s rule: run_accesses.induct) simp_all

lemma run_writes: "snd (run_accesses (map Write ws) (t, c)) = c"
  by (induction ws arbitrary: t) simp_all

lemma torn_copy: "snd (run_accesses (torn clk) (t, c)) = t\<lparr>State := StateDispatched\<rparr>"
  by (simp add: torn_def run_accesses_append reads_are_copy run_writes)

text \<open>C23: such a copy can be incoherent: a reader that overlaps the dispatch of a task can get a task in state
  DISPATCHED that has no dispatch time and not the new attempt, which no call of the engine ever
  produces.\<close>
theorem unlocked_copy_can_be_torn:
  assumes "State t = StateScheduled" and "DispatchedAt t = None"
  shows "\<exists>zs. zs \<in> interleavings clk StateDispatched \<and>
    State (snd (run_accesses zs (t, c))) = StateDispatched \<and>
    DispatchedAt (snd (run_accesses zs (t, c))) = None \<and>
    Attempts (snd (run_accesses zs (t, c))) = Attempts t \<and> \<not> task_inv (snd (run_accesses zs (t, c)))"
  using assms by (intro exI [of _ "torn clk"]) (simp add: torn_interleaving torn_copy task_inv_def)

theorem unlocked_copy_can_be_torn_witness:
  "task_inv scheduled_task \<and> (\<exists>zs. zs \<in> interleavings (\<lambda>_. 9) StateDispatched \<and>
     \<not> task_inv (snd (run_accesses zs (scheduled_task, scheduled_task))))"
  using unlocked_copy_can_be_torn [of scheduled_task "\<lambda>_. 9" scheduled_task]
  by (auto simp: scheduled_task_def task_inv_def)

end
