(* ===== verification/Slice_Memory.thy ===== *)
theory Slice_Memory
  imports Go_Prelude
begin

text \<open>
  Byte slices as the language has them. The other theories read a \<^verbatim>\<open>[]byte\<close> as its bytes; here
  it is a reference: nil, or an offset and a length into an array that other slices may share.
  The arrays live in a \<open>Memory\<close> with an allocation counter. The operations are the ones the
  sources use on byte slices: \<^verbatim>\<open>make\<close>, \<^verbatim>\<open>copy\<close>, the conversion \<^verbatim>\<open>[]byte(s)\<close>, and (by callers of
  the packages) the assignment \<^verbatim>\<open>s[i] = b\<close>. No byte slice is grown by \<^verbatim>\<open>append\<close> and none is
  resliced, so capacities are left out.

  The laws: memory that only \<open>extends\<close> another one keeps what every slice of the old one reads,
  a clone reads the same bytes from a new array, and an assignment through one slice changes
  nothing a slice of another array reads.
\<close>

section \<open>Arrays and slices\<close>

record Memory =
  arrays :: "addr \<Rightarrow> byte list"
  next_array :: addr

record Slice =
  slice_array :: addr
  slice_offset :: nat
  slice_len :: nat

type_synonym slice = "Slice option"

definition slice_bytes :: "Memory \<Rightarrow> Slice \<Rightarrow> byte list" where
  "slice_bytes m s = take (slice_len s) (drop (slice_offset s) (arrays m (slice_array s)))"

definition read_slice :: "Memory \<Rightarrow> slice \<Rightarrow> bytes" where
  "read_slice m s = map_option (slice_bytes m) s"

text \<open>A slice is well-typed in a memory when its array is allocated and covers its range.\<close>

definition slice_ok :: "Memory \<Rightarrow> slice \<Rightarrow> bool" where
  "slice_ok m s \<longleftrightarrow>
     (case s of
        None \<Rightarrow> True
      | Some r \<Rightarrow> slice_array r < next_array m \<and>
          slice_offset r + slice_len r \<le> length (arrays m (slice_array r)))"

definition array_of :: "slice \<Rightarrow> addr set" where
  "array_of s = slice_array ` set_option s"

section \<open>Operations\<close>

definition make_bytes :: "nat \<Rightarrow> Memory \<Rightarrow> Slice \<times> Memory" where
  "make_bytes n m =
     (\<lparr>slice_array = next_array m, slice_offset = 0, slice_len = n\<rparr>,
      m\<lparr>arrays := (arrays m)(next_array m := replicate n 0), next_array := Suc (next_array m)\<rparr>)"

definition write_at :: "nat \<Rightarrow> 'a list \<Rightarrow> 'a list \<Rightarrow> 'a list" where
  "write_at k bs xs = take k xs @ bs @ drop (k + length bs) xs"

text \<open>\<^verbatim>\<open>copy(dst, src)\<close>: as many bytes as both slices have.\<close>

definition copy_bytes :: "Slice \<Rightarrow> byte list \<Rightarrow> Memory \<Rightarrow> Memory" where
  "copy_bytes dst src m =
     (let n = min (slice_len dst) (length src);
          a = slice_array dst
      in m\<lparr>arrays := (arrays m)(a := write_at (slice_offset dst) (take n src) (arrays m a))\<rparr>)"

text \<open>\<^verbatim>\<open>[]byte(s)\<close>: a new array with the bytes of the string.\<close>

definition slice_of_string :: "string \<Rightarrow> Memory \<Rightarrow> slice \<times> Memory" where
  "slice_of_string s m =
     (let (d, m) = make_bytes (length s) m in (Some d, copy_bytes d (bytes_of_string s) m))"

definition set_byte :: "slice \<Rightarrow> nat \<Rightarrow> byte \<Rightarrow> Memory \<Rightarrow> Memory outcome" where
  "set_byte s i b m =
     (case s of
        None \<Rightarrow> Panic ''index out of range''
      | Some r \<Rightarrow>
          if i < slice_len r
          then Return (m\<lparr>arrays := (arrays m)
            (slice_array r := (arrays m (slice_array r))[slice_offset r + i := b])\<rparr>)
          else Panic ''index out of range'')"

section \<open>Extension\<close>

definition extends :: "Memory \<Rightarrow> Memory \<Rightarrow> bool" where
  "extends m m' \<longleftrightarrow>
     next_array m \<le> next_array m' \<and> (\<forall>a < next_array m. arrays m' a = arrays m a)"

lemma extends_refl [simp]: "extends m m"
  by (simp add: extends_def)

lemma extends_trans: "extends m m' \<Longrightarrow> extends m' m'' \<Longrightarrow> extends m m''"
  by (auto simp: extends_def)

lemma slice_ok_None [simp]: "slice_ok m None"
  by (simp add: slice_ok_def)

lemma read_slice_None [simp]: "read_slice m None = None"
  by (simp add: read_slice_def)

lemma array_of_None [simp]: "array_of None = {}"
  by (simp add: array_of_def)

lemma array_of_Some [simp]: "array_of (Some r) = {slice_array r}"
  by (simp add: array_of_def)

lemma slice_ok_array: "slice_ok m s \<Longrightarrow> a \<in> array_of s \<Longrightarrow> a < next_array m"
  by (cases s) (simp_all add: slice_ok_def)

lemma extends_slice:
  assumes "extends m m'" and "slice_ok m s"
  shows "slice_ok m' s" and "read_slice m' s = read_slice m s"
  using assms
  by (cases s; auto simp: extends_def slice_ok_def read_slice_def slice_bytes_def)+

section \<open>New arrays\<close>

definition fresh_slice :: "Memory \<Rightarrow> Memory \<Rightarrow> bytes \<Rightarrow> slice \<Rightarrow> bool" where
  "fresh_slice m m' bs s \<longleftrightarrow>
     extends m m' \<and> slice_ok m' s \<and> read_slice m' s = bs \<and> (\<forall>a \<in> array_of s. next_array m \<le> a)"

lemma write_at_all: "length bs = length xs \<Longrightarrow> write_at 0 bs xs = bs"
  by (simp add: write_at_def)

lemma make_copy_fresh:
  assumes "make_bytes (length bs) m = (d, m')"
  shows "fresh_slice m (copy_bytes d bs m') (Some bs) (Some d)"
  using assms
  by (auto simp: fresh_slice_def make_bytes_def copy_bytes_def extends_def slice_ok_def
      read_slice_def slice_bytes_def write_at_all Let_def)

lemma slice_of_string_fresh:
  assumes "slice_of_string s m = (d, m')"
  shows "fresh_slice m m' (Some (bytes_of_string s)) d"
proof -
  have len: "length (bytes_of_string s) = length s" by (simp add: bytes_of_string_def)
  show ?thesis
    using assms make_copy_fresh [of "bytes_of_string s" m]
    by (auto simp: slice_of_string_def len split: prod.splits)
qed

text \<open>The two lines by which \<^verbatim>\<open>Copy\<close> duplicates a slice that is not nil.\<close>

definition clone_slice :: "slice \<Rightarrow> Memory \<Rightarrow> slice \<times> Memory" where
  "clone_slice s m =
     (case s of
        None \<Rightarrow> (None, m)
      | Some r \<Rightarrow>
          let (d, m) = make_bytes (slice_len r) m in (Some d, copy_bytes d (slice_bytes m r) m))"

lemma clone_slice_fresh:
  assumes "slice_ok m s" and "clone_slice s m = (d, m')"
  shows "fresh_slice m m' (read_slice m s) d"
proof (cases s)
  case None
  with assms show ?thesis by (auto simp: clone_slice_def fresh_slice_def)
next
  case (Some r)
  obtain d0 m0 where mk: "make_bytes (slice_len r) m = (d0, m0)" by fastforce
  have ext: "extends m m0" using mk by (auto simp: make_bytes_def extends_def)
  have len: "length (slice_bytes m r) = slice_len r"
    using assms(1) Some by (auto simp: slice_ok_def slice_bytes_def)
  have "slice_bytes m0 r = slice_bytes m r"
    using extends_slice(2) [OF ext assms(1)] Some by (simp add: read_slice_def)
  then have "d = Some d0" "m' = copy_bytes d0 (slice_bytes m r) m0"
    using assms(2) Some mk by (simp_all add: clone_slice_def)
  then show ?thesis
    using make_copy_fresh [of "slice_bytes m r" m d0 m0] mk Some
    by (simp add: len read_slice_def)
qed

section \<open>Assignments\<close>

lemma set_byte_typed:
  assumes "set_byte s i b m = Return m'"
  shows "slice_ok m' r \<longleftrightarrow> slice_ok m r" and "next_array m' = next_array m"
  using assms by (auto simp: set_byte_def slice_ok_def split: option.splits if_splits)

lemma set_byte_frame:
  assumes "set_byte s i b m = Return m'" and "array_of s \<inter> array_of r = {}"
  shows "read_slice m' r = read_slice m r"
  using assms
  by (cases r)
    (auto simp: set_byte_def read_slice_def slice_bytes_def split: option.splits if_splits)

lemma set_byte_read:
  assumes "set_byte s i b m = Return m'" and "slice_ok m s"
  shows "read_slice m' s = map_option (\<lambda>bs. bs[i := b]) (read_slice m s)"
  using assms
  by (auto simp: set_byte_def slice_ok_def read_slice_def slice_bytes_def drop_update_swap
      take_update_swap split: option.splits if_splits)

text \<open>A well-typed slice panics exactly at an index that is not one of its bytes.\<close>

lemma set_byte_panics_iff:
  assumes "slice_ok m s"
  shows "(\<exists>msg. set_byte s i b m = Panic msg) \<longleftrightarrow>
    (case read_slice m s of None \<Rightarrow> True | Some bs \<Rightarrow> length bs \<le> i)"
  using assms
  by (auto simp: set_byte_def slice_ok_def read_slice_def slice_bytes_def split: option.splits)

end
