(* ===== verification/Engine_Slices.thy ===== *)
theory Engine_Slices
  imports Slice_Memory Engine_Properties
begin

text \<open>
  The task model, the write-ahead log and the execution engine once more, with byte slices as
  references into a memory of arrays (\<open>Slice_Memory\<close>): \<^verbatim>\<open>src/internal/task/task.go\<close>,
  \<^verbatim>\<open>src/internal/wal/wal.go\<close> and \<^verbatim>\<open>src/internal/executor/executor.go\<close>. Here it is visible which
  slices share an array: \<^verbatim>\<open>CreateTask\<close> keeps the caller's payload slice in the task and in the log
  entry, \<^verbatim>\<open>CompleteTask\<close> the caller's result slice, a transition logs the task's own payload slice,
  and \<^verbatim>\<open>Copy\<close> makes new arrays. A definition whose name ends in \<open>_ref\<close> is the operation of that
  name at this level. Slice-free parts (states, partitions, identifiers) are those of the other
  theories.
\<close>

section \<open>Tasks\<close>

record TaskObj =
  o_ID :: string
  o_WorkflowID :: string
  o_Name :: string
  o_State :: State
  o_Payload :: slice
  o_Result :: slice
  o_Error :: string
  o_PartitionID :: goint
  o_Attempts :: goint
  o_MaxAttempts :: goint
  o_CreatedAt :: time
  o_UpdatedAt :: time
  o_DispatchedAt :: "time option"
  o_CompletedAt :: "time option"

definition NewTask_ref :: "clock \<Rightarrow> string \<Rightarrow> string \<Rightarrow> string \<Rightarrow> slice \<Rightarrow> TaskObj" where
  "NewTask_ref clk taskID workflowID name payload =
     (let now = clk 0 in
      \<lparr>o_ID = taskID, o_WorkflowID = workflowID, o_Name = name, o_State = StatePending,
       o_Payload = payload, o_Result = None, o_Error = [], o_PartitionID = 0, o_Attempts = 0,
       o_MaxAttempts = 3, o_CreatedAt = now, o_UpdatedAt = now, o_DispatchedAt = None,
       o_CompletedAt = None\<rparr>)"

definition TransitionTo_ref :: "clock \<Rightarrow> TaskObj \<Rightarrow> State \<Rightarrow> error option \<times> TaskObj" where
  "TransitionTo_ref clk t newState =
     (case CanTransition (o_State t) newState of
        Some err \<Rightarrow> (Some err, t)
      | None \<Rightarrow>
          let t' = t\<lparr>o_State := newState, o_UpdatedAt := clk 0\<rparr> in
          (None,
           if newState = StateDispatched
           then t'\<lparr>o_DispatchedAt := Some (clk 1), o_Attempts := o_Attempts t' + 1\<rparr>
           else if newState = StateCompleted then t'\<lparr>o_CompletedAt := Some (clk 1)\<rparr>
           else t'))"

definition Copy_ref :: "TaskObj \<Rightarrow> Memory \<Rightarrow> TaskObj \<times> Memory" where
  "Copy_ref t m =
     (let result = t;
          (r, m) = clone_slice (o_Result t) m;
          result = result\<lparr>o_Result := r\<rparr>;
          (p, m) = clone_slice (o_Payload t) m;
          result = result\<lparr>o_Payload := p\<rparr>
      in (result, m))"

section \<open>The write-ahead log\<close>

record EntryRef =
  e_Sequence :: u64
  e_TaskID :: string
  e_WorkflowID :: string
  e_State :: string
  e_Data :: slice
  e_Timestamp :: time
  e_Committed :: bool

record 'w LoggerRef =
  Append_ref :: "time \<Rightarrow> EntryRef \<Rightarrow> 'w \<Rightarrow> u64 result \<times> 'w"
  Replay_ref :: "'w \<Rightarrow> EntryRef list result"
  Checkpoint_log_ref :: "u64 \<Rightarrow> 'w \<Rightarrow> error option \<times> 'w"
  Close_log_ref :: "'w \<Rightarrow> error option \<times> 'w"

record InMemoryRef =
  r_entries :: "EntryRef list"
  r_sequence :: u64
  r_committed :: u64

datatype WalRef = InMemory_ref InMemoryRef | NoOp_ref

fun WalRef_Append :: "time \<Rightarrow> EntryRef \<Rightarrow> WalRef \<Rightarrow> u64 result \<times> WalRef" where
  "WalRef_Append now entry (InMemory_ref l) =
     (if e_TaskID entry = [] then (Inl ''task_id is required'', InMemory_ref l)
      else if e_WorkflowID entry = [] then (Inl ''workflow_id is required'', InMemory_ref l)
      else if e_State entry = [] then (Inl ''state is required'', InMemory_ref l)
      else
        let l = l\<lparr>r_sequence := r_sequence l + 1\<rparr>;
            entry = entry\<lparr>e_Sequence := r_sequence l, e_Timestamp := now, e_Committed := False\<rparr>;
            l = l\<lparr>r_entries := r_entries l @ [entry]\<rparr>
        in (Inr (r_sequence l), InMemory_ref l))"
| "WalRef_Append now entry NoOp_ref = (Inr 0, NoOp_ref)"

fun WalRef_Replay :: "WalRef \<Rightarrow> EntryRef list result" where
  "WalRef_Replay (InMemory_ref l) =
     (if r_committed l \<ge> of_nat (length (r_entries l)) then Inr []
      else Inr (drop (unat (r_committed l)) (r_entries l)))"
| "WalRef_Replay NoOp_ref = Inr []"

fun WalRef_Checkpoint :: "u64 \<Rightarrow> WalRef \<Rightarrow> error option \<times> WalRef" where
  "WalRef_Checkpoint seq (InMemory_ref l) =
     (if seq > r_sequence l
      then (Some (''checkpoint sequence '' @ show_nat (unat seq) @
                  '' exceeds latest sequence '' @ show_nat (unat (r_sequence l))), InMemory_ref l)
      else (None, InMemory_ref (l\<lparr>r_committed := seq\<rparr>)))"
| "WalRef_Checkpoint seq NoOp_ref = (None, NoOp_ref)"

fun WalRef_Close :: "WalRef \<Rightarrow> error option \<times> WalRef" where
  "WalRef_Close (InMemory_ref l) = (None, InMemory_ref (l\<lparr>r_entries := []\<rparr>))"
| "WalRef_Close NoOp_ref = (None, NoOp_ref)"

definition WalRef_methods :: "WalRef LoggerRef" where
  "WalRef_methods =
     \<lparr>Append_ref = WalRef_Append, Replay_ref = WalRef_Replay,
      Checkpoint_log_ref = WalRef_Checkpoint, Close_log_ref = WalRef_Close\<rparr>"

section \<open>The engine\<close>

record ('w, 'p) EngineRef =
  mem :: Memory
  cells :: "addr \<Rightarrow> TaskObj"
  next_cell :: addr
  log_ref :: 'w
  mgr_ref :: 'p
  tasks_ref :: "string \<rightharpoonup> addr"
  workflowTasks_ref :: "string \<rightharpoonup> string list"
  counter_ref :: u64

definition NewEngine_ref ::
    "Memory \<Rightarrow> (addr \<Rightarrow> TaskObj) \<Rightarrow> addr \<Rightarrow> WalRef option \<Rightarrow> DefaultManager option \<Rightarrow>
     (WalRef, DefaultManager) EngineRef" where
  "NewEngine_ref m c n logger mgr =
     (let logger = (case logger of None \<Rightarrow> NoOp_ref | Some l \<Rightarrow> l);
          mgr = (case mgr of None \<Rightarrow> NewDefaultManager 10 | Some m \<Rightarrow> m)
      in \<lparr>mem = m, cells = c, next_cell = n, log_ref = logger, mgr_ref = mgr,
          tasks_ref = Map.empty, workflowTasks_ref = Map.empty, counter_ref = 0\<rparr>)"

definition alloc_cell :: "TaskObj \<Rightarrow> ('w, 'p) EngineRef \<Rightarrow> addr \<times> ('w, 'p) EngineRef" where
  "alloc_cell t e =
     (next_cell e, e\<lparr>cells := (cells e)(next_cell e := t), next_cell := Suc (next_cell e)\<rparr>)"

definition put_cell :: "addr \<Rightarrow> TaskObj \<Rightarrow> ('w, 'p) EngineRef \<Rightarrow> ('w, 'p) EngineRef" where
  "put_cell a t e = e\<lparr>cells := (cells e)(a := t)\<rparr>"

text \<open>\<^verbatim>\<open>t.Copy()\<close>: new arrays for the bytes and a new task object.\<close>

definition return_copy :: "TaskObj \<Rightarrow> ('w, 'p) EngineRef \<Rightarrow> addr \<times> ('w, 'p) EngineRef" where
  "return_copy t e = (let (c, m) = Copy_ref t (mem e) in alloc_cell c (e\<lparr>mem := m\<rparr>))"

definition wal_entry_ref :: "string \<Rightarrow> string \<Rightarrow> string \<Rightarrow> slice \<Rightarrow> EntryRef" where
  "wal_entry_ref taskID workflowID state data =
     \<lparr>e_Sequence = 0, e_TaskID = taskID, e_WorkflowID = workflowID, e_State = state,
      e_Data = data, e_Timestamp = zero_time, e_Committed = False\<rparr>"

definition CreateTask_ref ::
    "'w LoggerRef \<Rightarrow> 'p Manager \<Rightarrow> clock \<Rightarrow> ('w, 'p) EngineRef \<Rightarrow> string \<Rightarrow> string \<Rightarrow> slice \<Rightarrow>
     addr result \<times> ('w, 'p) EngineRef" where
  "CreateTask_ref R P clk e workflowID taskName payload =
     (if workflowID = [] then (Inl ''workflow_id is required'', e)
      else if taskName = [] then (Inl ''task_name is required'', e)
      else
        let taskID = task_id workflowID (clk 0);
            newTask = NewTask_ref (\<lambda>i. clk (1 + i)) taskID workflowID taskName payload
        in case AssignPartition P (mgr_ref e) taskID of
             Inl err \<Rightarrow> (Inl (''failed to assign partition: '' @ err), e)
           | Inr partitionID \<Rightarrow>
               let newTask = newTask\<lparr>o_PartitionID := partitionID\<rparr>;
                   entry = wal_entry_ref taskID workflowID StatePending payload
               in case Append_ref R (clk 2) entry (log_ref e) of
                    (Inl err, w) \<Rightarrow>
                      (Inl (''failed to persist task to WAL: '' @ err), e\<lparr>log_ref := w\<rparr>)
                  | (Inr seq, w) \<Rightarrow>
                      let e = e\<lparr>log_ref := w, counter_ref := seq\<rparr>;
                          (p, e) = alloc_cell newTask e;
                          e = e\<lparr>tasks_ref := (tasks_ref e)(taskID \<mapsto> p)\<rparr>;
                          ids = (case workflowTasks_ref e workflowID of None \<Rightarrow> [] | Some ids \<Rightarrow> ids);
                          e = e\<lparr>workflowTasks_ref :=
                                (workflowTasks_ref e)(workflowID \<mapsto> ids @ [taskID])\<rparr>
                      in (Inr p, e))"

definition GetTask_ref ::
    "('w, 'p) EngineRef \<Rightarrow> string \<Rightarrow> addr result \<times> ('w, 'p) EngineRef" where
  "GetTask_ref e taskID =
     (if taskID = [] then (Inl ''task_id is required'', e)
      else case tasks_ref e taskID of
             None \<Rightarrow> (Inl (''task not found: '' @ taskID), e)
           | Some a \<Rightarrow> let (p, e) = return_copy (cells e a) e in (Inr p, e))"

text \<open>
  The lines \<^verbatim>\<open>TransitionTask\<close>, \<^verbatim>\<open>CompleteTask\<close> and \<^verbatim>\<open>FailTask\<close> share, from the call of
  \<^verbatim>\<open>Append\<close> to the returned copy; \<open>msg\<close> is the text of the error when the log refuses.
\<close>

definition commit_ref ::
    "'w LoggerRef \<Rightarrow> clock \<Rightarrow> ('w, 'p) EngineRef \<Rightarrow> addr \<Rightarrow> TaskObj \<Rightarrow> EntryRef \<Rightarrow> State \<Rightarrow> string \<Rightarrow>
     addr result \<times> ('w, 'p) EngineRef" where
  "commit_ref R clk e a t entry s msg =
     (case Append_ref R (clk 0) entry (log_ref e) of
        (Inl err, w) \<Rightarrow> (Inl (msg @ err), e\<lparr>log_ref := w\<rparr>)
      | (Inr seq, w) \<Rightarrow>
          let e = e\<lparr>log_ref := w\<rparr> in
          case TransitionTo_ref (\<lambda>i. clk (1 + i)) t s of
            (Some err, t') \<Rightarrow> (Inl err, put_cell a t' e)
          | (None, t') \<Rightarrow>
              let e = (put_cell a t' e)\<lparr>counter_ref := seq\<rparr>;
                  (p, e) = return_copy t' e
              in (Inr p, e))"

definition TransitionTask_ref ::
    "'w LoggerRef \<Rightarrow> clock \<Rightarrow> ('w, 'p) EngineRef \<Rightarrow> string \<Rightarrow> State \<Rightarrow>
     addr result \<times> ('w, 'p) EngineRef" where
  "TransitionTask_ref R clk e taskID newState =
     (if taskID = [] then (Inl ''task_id is required'', e)
      else case tasks_ref e taskID of
             None \<Rightarrow> (Inl (''task not found: '' @ taskID), e)
           | Some a \<Rightarrow>
               let t = cells e a in
               case CanTransition (o_State t) newState of
                 Some err \<Rightarrow> (Inl (''invalid state transition: '' @ err), e)
               | None \<Rightarrow>
                   let entry = wal_entry_ref taskID (o_WorkflowID t) newState (o_Payload t)
                   in commit_ref R clk e a t entry newState
                        ''failed to persist state transition to WAL: '')"

definition CompleteTask_ref ::
    "'w LoggerRef \<Rightarrow> clock \<Rightarrow> ('w, 'p) EngineRef \<Rightarrow> string \<Rightarrow> slice \<Rightarrow>
     addr result \<times> ('w, 'p) EngineRef" where
  "CompleteTask_ref R clk e taskID result =
     (if taskID = [] then (Inl ''task_id is required'', e)
      else case tasks_ref e taskID of
             None \<Rightarrow> (Inl (''task not found: '' @ taskID), e)
           | Some a \<Rightarrow>
               let t = cells e a in
               if o_State t \<noteq> StateDispatched
               then (Inl (''task must be in DISPATCHED state to complete, current: '' @ o_State t), e)
               else
                 let t = t\<lparr>o_Result := result\<rparr>;
                     e = put_cell a t e;
                     entry = wal_entry_ref taskID (o_WorkflowID t) StateCompleted result
                 in commit_ref R clk e a t entry StateCompleted
                      ''failed to persist completion to WAL: '')"

definition FailTask_ref ::
    "'w LoggerRef \<Rightarrow> clock \<Rightarrow> ('w, 'p) EngineRef \<Rightarrow> string \<Rightarrow> string \<Rightarrow>
     addr result \<times> ('w, 'p) EngineRef" where
  "FailTask_ref R clk e taskID errorMsg =
     (if taskID = [] then (Inl ''task_id is required'', e)
      else case tasks_ref e taskID of
             None \<Rightarrow> (Inl (''task not found: '' @ taskID), e)
           | Some a \<Rightarrow>
               let t = cells e a in
               if o_State t \<noteq> StateDispatched
               then (Inl (''task must be in DISPATCHED state to fail, current: '' @ o_State t), e)
               else
                 let t = t\<lparr>o_Error := errorMsg\<rparr>;
                     e = put_cell a t e;
                     (data, m) = slice_of_string errorMsg (mem e);
                     e = e\<lparr>mem := m\<rparr>;
                     entry = wal_entry_ref taskID (o_WorkflowID t) StateFailed data
                 in commit_ref R clk e a t entry StateFailed
                      ''failed to persist failure to WAL: '')"

fun copy_workflow_tasks_ref ::
    "string list \<Rightarrow> ('w, 'p) EngineRef \<Rightarrow> addr list outcome \<times> ('w, 'p) EngineRef" where
  "copy_workflow_tasks_ref [] e = (Return [], e)"
| "copy_workflow_tasks_ref (taskID # ids) e =
     (case tasks_ref e taskID of
        None \<Rightarrow> (Panic ''invalid memory address or nil pointer dereference'', e)
      | Some a \<Rightarrow>
          let (p, e) = return_copy (cells e a) e in
          case copy_workflow_tasks_ref ids e of
            (Return ps, e) \<Rightarrow> (Return (p # ps), e)
          | (Panic m, e) \<Rightarrow> (Panic m, e))"

definition GetWorkflowTasks_ref ::
    "('w, 'p) EngineRef \<Rightarrow> string \<Rightarrow> addr list result outcome \<times> ('w, 'p) EngineRef" where
  "GetWorkflowTasks_ref e workflowID =
     (if workflowID = [] then (Return (Inl ''workflow_id is required''), e)
      else case workflowTasks_ref e workflowID of
             None \<Rightarrow> (Return (Inr []), e)
           | Some taskIDs \<Rightarrow>
               (case copy_workflow_tasks_ref taskIDs e of
                  (Return ps, e) \<Rightarrow> (Return (Inr ps), e)
                | (Panic m, e) \<Rightarrow> (Panic m, e)))"

fun copy_all_ref :: "TaskObj list \<Rightarrow> ('w, 'p) EngineRef \<Rightarrow> addr list \<times> ('w, 'p) EngineRef" where
  "copy_all_ref [] e = ([], e)"
| "copy_all_ref (t # ts) e =
     (let (a, e) = return_copy t e; (as, e) = copy_all_ref ts e in (a # as, e))"

definition selected_ref ::
    "(TaskObj \<Rightarrow> bool) \<Rightarrow> string list \<Rightarrow> ('w, 'p) EngineRef \<Rightarrow> TaskObj list" where
  "selected_ref P order e =
     filter P (List.map_filter (\<lambda>taskID. map_option (cells e) (tasks_ref e taskID)) order)"

definition GetTasksByState_ref ::
    "string list \<Rightarrow> ('w, 'p) EngineRef \<Rightarrow> State \<Rightarrow> addr list \<times> ('w, 'p) EngineRef" where
  "GetTasksByState_ref order e state =
     copy_all_ref (selected_ref (\<lambda>t. o_State t = state) order e) e"

definition GetTasksForPartition_ref ::
    "string list \<Rightarrow> ('w, 'p) EngineRef \<Rightarrow> goint \<Rightarrow> addr list \<times> ('w, 'p) EngineRef" where
  "GetTasksForPartition_ref order e partitionID =
     copy_all_ref (selected_ref (\<lambda>t. o_PartitionID t = partitionID) order e) e"

definition Checkpoint_ref ::
    "'w LoggerRef \<Rightarrow> ('w, 'p) EngineRef \<Rightarrow> u64 \<Rightarrow> error option \<times> ('w, 'p) EngineRef" where
  "Checkpoint_ref R e seq =
     (let (err, w) = Checkpoint_log_ref R seq (log_ref e) in (err, e\<lparr>log_ref := w\<rparr>))"

definition Close_ref ::
    "'w LoggerRef \<Rightarrow> ('w, 'p) EngineRef \<Rightarrow> error option \<times> ('w, 'p) EngineRef" where
  "Close_ref R e = (let (err, w) = Close_log_ref R (log_ref e) in (err, e\<lparr>log_ref := w\<rparr>))"

end
