(* ===== verification/Slices_Refine.thy ===== *)
theory Slices_Refine
  imports Engine_Slices
begin

text \<open>
  The engine over slices implements the engine over values. \<open>abs_engine\<close> reads every slice in the
  memory; on an engine whose slices are well-typed (\<open>engine_typed\<close>) each operation commutes with
  it, results included, and keeps the typing. What a log keeps of an entry is its own business:
  the locale \<open>slice_logger\<close> is the contract of a log that stores slices without reading them,
  and both loggers of the package meet it.

  Callers act too: they allocate, and they assign to bytes and to task objects they have
  pointers to. Typing survives everything they do. The refinement needs them to keep off the
  arrays the engine shares (\<open>engine_arrays\<close>), and the last section shows which slices those are.
\<close>

section \<open>Abstraction\<close>

definition abs_task :: "Memory \<Rightarrow> TaskObj \<Rightarrow> Task" where
  "abs_task m t =
     \<lparr>ID = o_ID t, WorkflowID = o_WorkflowID t, Name = o_Name t, State = o_State t,
      Payload = read_slice m (o_Payload t), Result = read_slice m (o_Result t), Error = o_Error t,
      PartitionID = o_PartitionID t, Attempts = o_Attempts t, MaxAttempts = o_MaxAttempts t,
      CreatedAt = o_CreatedAt t, UpdatedAt = o_UpdatedAt t, DispatchedAt = o_DispatchedAt t,
      CompletedAt = o_CompletedAt t\<rparr>"

definition abs_entry :: "Memory \<Rightarrow> EntryRef \<Rightarrow> Entry" where
  "abs_entry m e =
     \<lparr>Sequence = e_Sequence e, TaskID = e_TaskID e, EntryWorkflowID = e_WorkflowID e,
      EntryState = e_State e, Data = read_slice m (e_Data e), Timestamp = e_Timestamp e,
      Committed = e_Committed e\<rparr>"

fun abs_wal :: "Memory \<Rightarrow> WalRef \<Rightarrow> WalLogger" where
  "abs_wal m (InMemory_ref l) =
     InMemory \<lparr>entries = map (abs_entry m) (r_entries l), sequence = r_sequence l,
       committed = r_committed l\<rparr>"
| "abs_wal m NoOp_ref = NoOp NewNoOpLogger"

fun wal_slices :: "WalRef \<Rightarrow> slice set" where
  "wal_slices (InMemory_ref l) = e_Data ` set (r_entries l)"
| "wal_slices NoOp_ref = {}"

definition abs_engine ::
    "(Memory \<Rightarrow> 'w \<Rightarrow> 'v) \<Rightarrow> ('w, 'p) EngineRef \<Rightarrow> ('v, 'p) Engine" where
  "abs_engine absw e =
     \<lparr>objects = (\<lambda>a. abs_task (mem e) (cells e a)), next_addr = next_cell e,
      walLogger = absw (mem e) (log_ref e), partitionMgr = mgr_ref e, tasks = tasks_ref e,
      workflowTasks = workflowTasks_ref e, sequenceCounter = counter_ref e\<rparr>"

section \<open>Typing\<close>

definition obj_ok :: "Memory \<Rightarrow> TaskObj \<Rightarrow> bool" where
  "obj_ok m t \<longleftrightarrow> slice_ok m (o_Payload t) \<and> slice_ok m (o_Result t)"

definition engine_typed :: "('w \<Rightarrow> slice set) \<Rightarrow> ('w, 'p) EngineRef \<Rightarrow> bool" where
  "engine_typed refs e \<longleftrightarrow>
     (\<forall>a. obj_ok (mem e) (cells e a)) \<and> (\<forall>s \<in> refs (log_ref e). slice_ok (mem e) s)"

lemma obj_ok_extends:
  assumes "extends m m'" and "obj_ok m t"
  shows "obj_ok m' t" and "abs_task m' t = abs_task m t"
  using assms extends_slice by (simp_all add: obj_ok_def abs_task_def)

lemma engine_typedD: "engine_typed refs e \<Longrightarrow> obj_ok (mem e) (cells e a)"
  by (simp add: engine_typed_def)

lemma engine_typed_mem:
  "engine_typed refs e \<Longrightarrow> extends (mem e) m' \<Longrightarrow> engine_typed refs (e\<lparr>mem := m'\<rparr>)"
  using obj_ok_extends extends_slice by (fastforce simp: engine_typed_def)

lemma engine_typed_put:
  "engine_typed refs e \<Longrightarrow> obj_ok (mem e) t \<Longrightarrow> engine_typed refs (put_cell a t e)"
  by (simp add: engine_typed_def put_cell_def)

lemma engine_typed_alloc:
  "engine_typed refs e \<Longrightarrow> obj_ok (mem e) t \<Longrightarrow> engine_typed refs (snd (alloc_cell t e))"
  by (simp add: engine_typed_def alloc_cell_def)

lemma engine_typed_log:
  "engine_typed refs e \<Longrightarrow> slice_ok (mem e) s \<Longrightarrow> refs w \<subseteq> insert s (refs (log_ref e)) \<Longrightarrow>
   engine_typed refs (e\<lparr>log_ref := w\<rparr>)"
  by (auto simp: engine_typed_def)

lemma engine_typed_other [simp]:
  "engine_typed refs (e\<lparr>counter_ref := c\<rparr>) = engine_typed refs e"
  "engine_typed refs (e\<lparr>tasks_ref := ts\<rparr>) = engine_typed refs e"
  "engine_typed refs (e\<lparr>workflowTasks_ref := ws\<rparr>) = engine_typed refs e"
  by (simp_all add: engine_typed_def)

section \<open>Tasks and the log entry\<close>

lemma abs_task_simps [simp]:
  "ID (abs_task m t) = o_ID t" "WorkflowID (abs_task m t) = o_WorkflowID t"
  "State (abs_task m t) = o_State t" "Payload (abs_task m t) = read_slice m (o_Payload t)"
  "Result (abs_task m t) = read_slice m (o_Result t)" "PartitionID (abs_task m t) = o_PartitionID t"
  by (simp_all add: abs_task_def)

lemma abs_task_updates [simp]:
  "abs_task m (t\<lparr>o_Result := r\<rparr>) = (abs_task m t)\<lparr>Result := read_slice m r\<rparr>"
  "abs_task m (t\<lparr>o_Error := x\<rparr>) = (abs_task m t)\<lparr>Error := x\<rparr>"
  "abs_task m (t\<lparr>o_PartitionID := p\<rparr>) = (abs_task m t)\<lparr>PartitionID := p\<rparr>"
  by (simp_all add: abs_task_def)

lemma abs_NewTask:
  "abs_task m (NewTask_ref clk i w n payload) = NewTask clk i w n (read_slice m payload)"
  by (simp add: abs_task_def NewTask_ref_def NewTask_def Let_def)

lemma abs_TransitionTo:
  "TransitionTo clk (abs_task m t) s = map_prod id (abs_task m) (TransitionTo_ref clk t s)"
  by (simp add: TransitionTo_def TransitionTo_ref_def abs_task_def Let_def split: option.split)

lemma abs_wal_entry: "abs_entry m (wal_entry_ref i w s d) = wal_entry i w s (read_slice m d)"
  by (simp add: abs_entry_def wal_entry_ref_def wal_entry_def)

lemma obj_ok_updates [simp]:
  "obj_ok m (t\<lparr>o_Error := x\<rparr>) = obj_ok m t" "obj_ok m (t\<lparr>o_PartitionID := p\<rparr>) = obj_ok m t"
  "obj_ok m (NewTask_ref clk i w n payload) = slice_ok m payload"
  "obj_ok m t \<Longrightarrow> obj_ok m (t\<lparr>o_Result := r\<rparr>) = slice_ok m r"
  by (simp_all add: obj_ok_def NewTask_ref_def Let_def)

lemma obj_ok_TransitionTo [simp]: "obj_ok m (snd (TransitionTo_ref clk t s)) = obj_ok m t"
  by (simp add: obj_ok_def TransitionTo_ref_def Let_def split: option.split)

text \<open>A copy is the same task in new arrays.\<close>

lemma Copy_ref_fresh:
  assumes "obj_ok m t" and "Copy_ref t m = (c, m')"
  shows "extends m m'" and "obj_ok m' c" and "abs_task m' c = abs_task m t"
    and "a \<in> array_of (o_Payload c) \<union> array_of (o_Result c) \<Longrightarrow> next_array m \<le> a"
proof -
  obtain r m1 p where cl: "clone_slice (o_Result t) m = (r, m1)" "clone_slice (o_Payload t) m1 = (p, m')"
    and c: "c = t\<lparr>o_Result := r, o_Payload := p\<rparr>"
    using assms(2) by (auto simp: Copy_ref_def split: prod.splits)
  note r = clone_slice_fresh [OF _ cl(1), unfolded fresh_slice_def]
  have ext: "extends m m1" using r assms(1) by (simp add: obj_ok_def)
  have "slice_ok m1 (o_Payload t)" using extends_slice(1) [OF ext] assms(1) by (simp add: obj_ok_def)
  note p = clone_slice_fresh [OF this cl(2), unfolded fresh_slice_def]
  show "extends m m'" using extends_trans [OF ext] p by blast
  show "obj_ok m' c"
    using p r extends_slice(1) [of m1 m' r] assms(1) by (simp add: c obj_ok_def)
  show "abs_task m' c = abs_task m t"
    using p r extends_slice(2) [of m1 m' r] extends_slice(2) [OF ext, of "o_Payload t"] assms(1)
    by (simp add: c obj_ok_def abs_task_def)
  show "next_array m \<le> a" if "a \<in> array_of (o_Payload c) \<union> array_of (o_Result c)"
    using that p r ext assms(1) by (fastforce simp: c obj_ok_def extends_def)
qed

section \<open>The operations commute with the abstraction\<close>

locale slice_logger =
  fixes R :: "'w LoggerRef" and L :: "'v Logger" and absw :: "Memory \<Rightarrow> 'w \<Rightarrow> 'v"
    and refs :: "'w \<Rightarrow> slice set"
  assumes append_abs:
      "Append L now (abs_entry m entry) (absw m w) = map_prod id (absw m) (Append_ref R now entry w)"
    and append_slices: "refs (snd (Append_ref R now entry w)) \<subseteq> insert (e_Data entry) (refs w)"
    and checkpoint_abs:
      "CheckpointLog L seq (absw m w) = map_prod id (absw m) (Checkpoint_log_ref R seq w)"
    and checkpoint_slices: "refs (snd (Checkpoint_log_ref R seq w)) \<subseteq> refs w"
    and close_abs: "CloseLog L (absw m w) = map_prod id (absw m) (Close_log_ref R w)"
    and close_slices: "refs (snd (Close_log_ref R w)) \<subseteq> refs w"
    and log_frame: "(\<And>s. s \<in> refs w \<Longrightarrow> read_slice m' s = read_slice m s) \<Longrightarrow> absw m' w = absw m w"
begin

abbreviation absE :: "('w, 'p) EngineRef \<Rightarrow> ('v, 'p) Engine" where
  "absE \<equiv> abs_engine absw"

abbreviation typed :: "('w, 'p) EngineRef \<Rightarrow> bool" where
  "typed \<equiv> engine_typed refs"

lemma abs_mem:
  assumes "typed e" and "extends (mem e) m'"
  shows "absE (e\<lparr>mem := m'\<rparr>) = absE e"
proof -
  have "absw m' (log_ref e) = absw (mem e) (log_ref e)"
    using assms extends_slice(2) by (intro log_frame) (simp add: engine_typed_def)
  then show ?thesis
    using obj_ok_extends(2) [OF assms(2) engine_typedD [OF assms(1)]]
    by (simp add: abs_engine_def)
qed

lemma abs_put: "absE (put_cell a t e) = store a (abs_task (mem e) t) (absE e)"
  by (simp add: abs_engine_def put_cell_def store_def fun_eq_iff)

lemma abs_alloc: "alloc (abs_task (mem e) t) (absE e) = map_prod id absE (alloc_cell t e)"
  by (simp add: abs_engine_def alloc_cell_def alloc_def fun_eq_iff)

lemma return_copy_abs:
  assumes "typed e" and "obj_ok (mem e) t"
  shows "alloc (Copy (abs_task (mem e) t)) (absE e) = map_prod id absE (return_copy t e)"
    and "typed (snd (return_copy t e))"
proof -
  obtain c m' where cp: "Copy_ref t (mem e) = (c, m')" by fastforce
  note f = Copy_ref_fresh [OF assms(2) cp]
  have ty: "typed (e\<lparr>mem := m'\<rparr>)" by (rule engine_typed_mem [OF assms(1) f(1)])
  show "alloc (Copy (abs_task (mem e) t)) (absE e) = map_prod id absE (return_copy t e)"
    using abs_alloc [of "e\<lparr>mem := m'\<rparr>" c] abs_mem [OF assms(1) f(1)] f(3)
    by (simp add: return_copy_def cp)
  show "typed (snd (return_copy t e))"
    using engine_typed_alloc [OF ty] f(2) by (simp add: return_copy_def cp)
qed

lemma commit_abs:
  assumes "typed e" and "obj_ok (mem e) t" and "slice_ok (mem e) (e_Data entry)"
  shows "commit L clk (absE e) a (abs_task (mem e) t) (abs_entry (mem e) entry) s msg =
      map_prod id absE (commit_ref R clk e a t entry s msg)"
    and "typed (snd (commit_ref R clk e a t entry s msg))"
proof -
  obtain res w where ap: "Append_ref R (clk 0) entry (log_ref e) = (res, w)" by fastforce
  obtain err t' where tr: "TransitionTo_ref (\<lambda>i. clk (1 + i)) t s = (err, t')" by fastforce
  have ap': "Append L (clk 0) (abs_entry (mem e) entry) (walLogger (absE e)) = (res, absw (mem e) w)"
    using append_abs [of "clk 0" "mem e" entry "log_ref e"] ap by (simp add: abs_engine_def)
  have tr': "TransitionTo (\<lambda>i. clk (1 + i)) (abs_task (mem e) t) s = (err, abs_task (mem e) t')"
    using abs_TransitionTo tr by simp
  have ok: "obj_ok (mem e) t'" using obj_ok_TransitionTo assms(2) tr by (metis snd_conv)
  have ty: "typed (e\<lparr>log_ref := w\<rparr>)"
    using engine_typed_log [OF assms(1,3)] append_slices [of "clk 0" entry "log_ref e"] ap by simp
  have log: "absE (e\<lparr>log_ref := w\<rparr>) = (absE e)\<lparr>walLogger := absw (mem e) w\<rparr>" for e
    by (simp add: abs_engine_def)
  have cnt: "absE (x\<lparr>counter_ref := q\<rparr>) = (absE x)\<lparr>sequenceCounter := q\<rparr>" for x q
    by (simp add: abs_engine_def)
  define e2 where "e2 q = (put_cell a t' (e\<lparr>log_ref := w\<rparr>))\<lparr>counter_ref := q\<rparr>" for q
  have mem2: "mem (e2 q) = mem e" for q by (simp add: e2_def put_cell_def)
  have ty2: "typed (e2 q)" for q
    unfolding e2_def using engine_typed_put [OF ty] ok by simp
  have abs2: "absE (e2 q) =
      (store a (abs_task (mem e) t') ((absE e)\<lparr>walLogger := absw (mem e) w\<rparr>))\<lparr>sequenceCounter := q\<rparr>" for q
    by (simp add: e2_def cnt abs_put log)
  note rc = return_copy_abs [where t = t', OF ty2, unfolded mem2 abs2, OF ok]
  show "commit L clk (absE e) a (abs_task (mem e) t) (abs_entry (mem e) entry) s msg =
      map_prod id absE (commit_ref R clk e a t entry s msg)"
  proof (cases res)
    case (Inl x)
    then show ?thesis by (simp add: commit_def commit_ref_def ap ap' log)
  next
    case (Inr q)
    then show ?thesis
      using rc(1) [of q] abs_put [of a t' "e\<lparr>log_ref := w\<rparr>"]
      by (cases err)
        (simp_all add: commit_def commit_ref_def ap ap' tr [simplified] tr' [simplified] log e2_def
          split_beta map_prod_def Let_def del: fst_alloc)
  qed
  show "typed (snd (commit_ref R clk e a t entry s msg))"
    using rc(2) engine_typed_put [OF ty] ok ty
    by (cases res; cases err)
      (simp_all add: commit_ref_def ap tr [simplified] e2_def Let_def split_beta)
qed

lemma absE_simps [simp]:
  "objects (absE e) a = abs_task (mem e) (cells e a)" "next_addr (absE e) = next_cell e"
  "tasks (absE e) = tasks_ref e" "workflowTasks (absE e) = workflowTasks_ref e"
  "partitionMgr (absE e) = mgr_ref e" "walLogger (absE e) = absw (mem e) (log_ref e)"
  "sequenceCounter (absE e) = counter_ref e"
  by (simp_all add: abs_engine_def)

lemma mem_put [simp]: "mem (put_cell a t e) = mem e"
  by (simp add: put_cell_def)

lemma GetTask_abs:
  assumes "typed e"
  shows "GetTask (absE e) i = map_prod id absE (GetTask_ref e i)"
    and "typed (snd (GetTask_ref e i))"
  using return_copy_abs [OF assms engine_typedD [OF assms]] assms
  by (auto simp: GetTask_def GetTask_ref_def split_beta map_prod_def simp del: fst_alloc split: option.split)

lemma TransitionTask_abs:
  assumes "typed e"
  shows "TransitionTask L clk (absE e) i s = map_prod id absE (TransitionTask_ref R clk e i s)"
    and "typed (snd (TransitionTask_ref R clk e i s))"
proof -
  have ok: "slice_ok (mem e) (o_Payload (cells e a))" for a
    using engine_typedD [OF assms] by (simp add: obj_ok_def)
  have c: "commit L clk (absE e) a (abs_task (mem e) (cells e a))
        (wal_entry i w s (read_slice (mem e) (o_Payload (cells e a)))) s msg =
      map_prod id absE (commit_ref R clk e a (cells e a) (wal_entry_ref i w s (o_Payload (cells e a))) s msg)"
    "typed (snd (commit_ref R clk e a (cells e a) (wal_entry_ref i w s (o_Payload (cells e a))) s msg))"
    for a w msg
    using commit_abs [OF assms engine_typedD [OF assms],
        of "wal_entry_ref i w s (o_Payload (cells e a))" clk a a s msg] ok
    by (simp_all add: abs_wal_entry) (simp_all add: wal_entry_ref_def)
  show "TransitionTask L clk (absE e) i s = map_prod id absE (TransitionTask_ref R clk e i s)"
    by (simp add: TransitionTask_commit TransitionTask_ref_def Let_def c split: option.split)
  show "typed (snd (TransitionTask_ref R clk e i s))"
    using assms c(2) by (simp add: TransitionTask_ref_def Let_def split: option.split)
qed

lemma CompleteTask_abs:
  assumes "typed e" and "slice_ok (mem e) r"
  shows "CompleteTask L clk (absE e) i (read_slice (mem e) r) =
      map_prod id absE (CompleteTask_ref R clk e i r)"
    and "typed (snd (CompleteTask_ref R clk e i r))"
proof -
  define u where "u a = (cells e a)\<lparr>o_Result := r\<rparr>" for a
  have ok: "obj_ok (mem e) (u a)" for a
    using engine_typedD [OF assms(1), of a] assms(2) by (simp add: u_def)
  have ty: "typed (put_cell a (u a) e)" for a by (rule engine_typed_put [OF assms(1) ok])
  have c: "commit L clk (absE (put_cell a (u a) e)) a (abs_task (mem e) (u a))
        (wal_entry i w StateCompleted (read_slice (mem e) r)) StateCompleted msg =
      map_prod id absE (commit_ref R clk (put_cell a (u a) e) a (u a)
        (wal_entry_ref i w StateCompleted r) StateCompleted msg)"
    "typed (snd (commit_ref R clk (put_cell a (u a) e) a (u a)
        (wal_entry_ref i w StateCompleted r) StateCompleted msg))" for a w msg
    using commit_abs [OF ty, of a "u a" "wal_entry_ref i w StateCompleted r" clk a StateCompleted msg]
      ok [of a] assms(2)
    by (simp_all add: abs_wal_entry) (simp_all add: wal_entry_ref_def)
  note c' = c [unfolded u_def abs_put, simplified]
  show "CompleteTask L clk (absE e) i (read_slice (mem e) r) =
      map_prod id absE (CompleteTask_ref R clk e i r)"
    by (simp add: CompleteTask_commit CompleteTask_ref_def Let_def c' split: option.split)
  show "typed (snd (CompleteTask_ref R clk e i r))"
    using assms c' by (simp add: CompleteTask_ref_def Let_def split: option.split)
qed

lemma FailTask_abs:
  assumes "typed e"
  shows "FailTask L clk (absE e) i x = map_prod id absE (FailTask_ref R clk e i x)"
    and "typed (snd (FailTask_ref R clk e i x))"
proof -
  obtain d m' where str: "slice_of_string x (mem e) = (d, m')" by fastforce
  note d = slice_of_string_fresh [OF str, unfolded fresh_slice_def]
  define u where "u a = (cells e a)\<lparr>o_Error := x\<rparr>" for a
  define e1 where "e1 a = (put_cell a (u a) e)\<lparr>mem := m'\<rparr>" for a
  have ok: "obj_ok (mem e) (u a)" for a
    using engine_typedD [OF assms(1), of a] by (simp add: u_def)
  have ty0: "typed (put_cell a (u a) e)" for a by (rule engine_typed_put [OF assms(1) ok])
  have ty: "typed (e1 a)" for a
    unfolding e1_def by (rule engine_typed_mem [OF ty0]) (simp add: d)
  have abs1: "absE (e1 a) = store a (abs_task (mem e) (u a)) (absE e)" for a
    unfolding e1_def using abs_mem [OF ty0, of a m'] d by (simp add: abs_put)
  have u1: "abs_task m' (u a) = abs_task (mem e) (u a)" "obj_ok m' (u a)" for a
    using obj_ok_extends [OF _ ok, of m' a] d by simp_all
  have c: "commit L clk (absE (e1 a)) a (abs_task (mem e) (u a))
        (wal_entry i w StateFailed (Some (bytes_of_string x))) StateFailed msg =
      map_prod id absE (commit_ref R clk (e1 a) a (u a) (wal_entry_ref i w StateFailed d) StateFailed msg)"
    "typed (snd (commit_ref R clk (e1 a) a (u a) (wal_entry_ref i w StateFailed d) StateFailed msg))"
    for a w msg
    using commit_abs [OF ty, of a "u a" "wal_entry_ref i w StateFailed d" clk a StateFailed msg] u1 d
    by (simp_all add: e1_def abs_wal_entry) (simp_all add: wal_entry_ref_def)
  note c' = c [unfolded abs1, unfolded e1_def u_def, simplified]
  show "FailTask L clk (absE e) i x = map_prod id absE (FailTask_ref R clk e i x)"
    by (simp add: FailTask_commit FailTask_ref_def Let_def str c' split: option.split)
  show "typed (snd (FailTask_ref R clk e i x))"
    using assms c' by (simp add: FailTask_ref_def Let_def str split: option.split)
qed

lemma CreateTask_abs:
  assumes "typed e" and "slice_ok (mem e) payload"
  shows "CreateTask L P clk (absE e) wid n (read_slice (mem e) payload) =
      map_prod id absE (CreateTask_ref R P clk e wid n payload)"
    and "typed (snd (CreateTask_ref R P clk e wid n payload))"
proof -
  define i where "i = task_id wid (clk 0)"
  define entry where "entry = wal_entry_ref i wid StatePending payload"
  obtain res w where ap: "Append_ref R (clk 2) entry (log_ref e) = (res, w)" by fastforce
  have ap': "Append L (clk 2) (wal_entry i wid StatePending (read_slice (mem e) payload))
      (absw (mem e) (log_ref e)) = (res, absw (mem e) w)"
    using append_abs [of "clk 2" "mem e" entry "log_ref e"] ap by (simp add: entry_def abs_wal_entry)
  have ty: "typed (e\<lparr>log_ref := w\<rparr>)"
    using engine_typed_log [OF assms] append_slices [of "clk 2" entry "log_ref e"] ap
    by (simp add: entry_def wal_entry_ref_def)
  define t where "t p = (NewTask_ref (\<lambda>i. clk (Suc i)) i wid n payload)\<lparr>o_PartitionID := p\<rparr>" for p
  have t: "abs_task (mem e) (t p) =
      (NewTask (\<lambda>i. clk (Suc i)) i wid n (read_slice (mem e) payload))\<lparr>PartitionID := p\<rparr>" for p
    by (simp add: t_def abs_NewTask)
  have ok: "obj_ok (mem e) (t p)" for p using assms(2) by (simp add: t_def)
  note d = CreateTask_ref_def CreateTask_def Let_def i_def [symmetric] entry_def [symmetric] ap ap'
  show "CreateTask L P clk (absE e) wid n (read_slice (mem e) payload) =
      map_prod id absE (CreateTask_ref R P clk e wid n payload)"
    by (cases res; cases "AssignPartition P (mgr_ref e) i")
      (simp_all add: d t [symmetric] t_def [symmetric],
       simp_all add: abs_engine_def alloc_def alloc_cell_def fun_eq_iff)
  show "typed (snd (CreateTask_ref R P clk e wid n payload))"
    using assms(1) ty ok
    by (cases res; cases "AssignPartition P (mgr_ref e) i")
      (simp_all add: d t_def [symmetric], simp_all add: alloc_cell_def engine_typed_def)
qed

lemma Checkpoint_abs:
  assumes "typed e"
  shows "Checkpoint L (absE e) seq = map_prod id absE (Checkpoint_ref R e seq)"
    and "typed (snd (Checkpoint_ref R e seq))"
proof -
  obtain r w where cp: "Checkpoint_log_ref R seq (log_ref e) = (r, w)" by fastforce
  then have "CheckpointLog L seq (absw (mem e) (log_ref e)) = (r, absw (mem e) w)"
    using checkpoint_abs [of seq "mem e" "log_ref e"] by simp
  with cp show "Checkpoint L (absE e) seq = map_prod id absE (Checkpoint_ref R e seq)"
    by (simp add: Checkpoint_def Checkpoint_ref_def) (simp add: abs_engine_def)
  show "typed (snd (Checkpoint_ref R e seq))"
    using assms checkpoint_slices [of seq "log_ref e"] cp
    by (auto simp: Checkpoint_ref_def engine_typed_def)
qed

lemma Close_abs:
  assumes "typed e"
  shows "Close L (absE e) = map_prod id absE (Close_ref R e)" and "typed (snd (Close_ref R e))"
proof -
  obtain r w where cl: "Close_log_ref R (log_ref e) = (r, w)" by fastforce
  then have "CloseLog L (absw (mem e) (log_ref e)) = (r, absw (mem e) w)"
    using close_abs [of "mem e" "log_ref e"] by simp
  with cl show "Close L (absE e) = map_prod id absE (Close_ref R e)"
    by (simp add: Close_def Close_ref_def) (simp add: abs_engine_def)
  show "typed (snd (Close_ref R e))"
    using assms close_slices [of "log_ref e"] cl by (auto simp: Close_ref_def engine_typed_def)
qed

lemma return_copyE:
  assumes "typed e" and "obj_ok (mem e) t"
  obtains p e' where "return_copy t e = (p, e')" and "typed e'" and "extends (mem e) (mem e')"
    and "alloc (abs_task (mem e) t) (absE e) = (p, absE e')" and "tasks_ref e' = tasks_ref e"
proof -
  obtain p e' where rc: "return_copy t e = (p, e')" by fastforce
  obtain c m' where cp: "Copy_ref t (mem e) = (c, m')" by fastforce
  have "extends (mem e) (mem e')" "tasks_ref e' = tasks_ref e"
    using rc cp Copy_ref_fresh(1) [OF assms(2) cp] by (auto simp: return_copy_def alloc_cell_def)
  then show ?thesis using that [OF rc] return_copy_abs [OF assms] rc by simp
qed

lemma copy_workflow_tasks_abs:
  assumes "typed e"
  shows "copy_workflow_tasks ids (absE e) = map_prod id absE (copy_workflow_tasks_ref ids e) \<and>
    typed (snd (copy_workflow_tasks_ref ids e))"
  using assms
proof (induction ids arbitrary: e)
  case Nil
  then show ?case by simp
next
  case (Cons i ids)
  show ?case
  proof (cases "tasks_ref e i")
    case None
    then show ?thesis using Cons.prems by simp
  next
    case (Some a)
    obtain p e' where rc: "return_copy (cells e a) e = (p, e')" "typed e'"
      "alloc (abs_task (mem e) (cells e a)) (absE e) = (p, absE e')"
      by (rule return_copyE [OF Cons.prems engine_typedD [OF Cons.prems]])
    then show ?thesis
      using Some Cons.IH [OF rc(2)] by (auto simp: map_prod_def split: prod.splits outcome.split)
  qed
qed

lemma GetWorkflowTasks_abs:
  assumes "typed e"
  shows "GetWorkflowTasks (absE e) w = map_prod id absE (GetWorkflowTasks_ref e w)"
    and "typed (snd (GetWorkflowTasks_ref e w))"
  using copy_workflow_tasks_abs [OF assms] assms
  by (auto simp: GetWorkflowTasks_def GetWorkflowTasks_ref_def map_prod_def split_beta
      split: option.split prod.split outcome.split)

lemma copy_all_abs:
  assumes "typed e" and "\<And>t. t \<in> set ts \<Longrightarrow> obj_ok (mem e) t"
  shows "alloc_all (map (abs_task (mem e)) ts) (absE e) = map_prod id absE (copy_all_ref ts e) \<and>
    typed (snd (copy_all_ref ts e))"
  using assms
proof (induction ts arbitrary: e)
  case Nil
  then show ?case by simp
next
  case (Cons t ts)
  obtain p e' where rc: "return_copy t e = (p, e')" "typed e'" and ext: "extends (mem e) (mem e')"
    and al: "alloc (abs_task (mem e) t) (absE e) = (p, absE e')"
    by (rule return_copyE [OF Cons.prems(1)]) (use Cons.prems(2) in auto)
  have same: "map (abs_task (mem e')) ts = map (abs_task (mem e)) ts"
    using obj_ok_extends(2) [OF ext] Cons.prems(2) by simp
  have "obj_ok (mem e') u" if "u \<in> set ts" for u
    using obj_ok_extends(1) [OF ext] Cons.prems(2) that by simp
  from Cons.IH [OF rc(2) this] show ?case
    unfolding same by (simp add: rc(1) al map_prod_def split_beta)
qed

lemma selected_abs:
  assumes "\<And>t. P (abs_task (mem e) t) = Q t"
  shows "selected P order (absE e) = map (abs_task (mem e)) (selected_ref Q order e)"
  unfolding selected_def selected_ref_def List.map_filter_def
proof (induction order)
  case (Cons i order)
  then show ?case by (cases "tasks_ref e i") (simp_all add: assms)
qed simp

lemma selected_ok: "typed e \<Longrightarrow> t \<in> set (selected_ref Q order e) \<Longrightarrow> obj_ok (mem e) t"
  using engine_typedD by (fastforce simp: selected_ref_def List.map_filter_def)

lemma selection_abs:
  assumes "typed e"
  shows "GetTasksByState order (absE e) s = map_prod id absE (GetTasksByState_ref order e s)"
    and "typed (snd (GetTasksByState_ref order e s))"
    and "GetTasksForPartition order (absE e) q = map_prod id absE (GetTasksForPartition_ref order e q)"
    and "typed (snd (GetTasksForPartition_ref order e q))"
proof -
  have c: "alloc_all (map (Copy \<circ> abs_task (mem e)) (selected_ref Q order e)) (absE e) =
      map_prod id absE (copy_all_ref (selected_ref Q order e) e)"
    "typed (snd (copy_all_ref (selected_ref Q order e) e))" for Q order
    using copy_all_abs [OF assms, of "selected_ref Q order e"] selected_ok [OF assms]
    by (simp_all add: comp_def)
  show "GetTasksByState order (absE e) s = map_prod id absE (GetTasksByState_ref order e s)"
    "GetTasksForPartition order (absE e) q = map_prod id absE (GetTasksForPartition_ref order e q)"
    by (simp_all add: c GetTasksByState_def GetTasksByState_ref_def GetTasksForPartition_def
        GetTasksForPartition_ref_def selected_abs [where Q = "\<lambda>t. o_State t = s"]
        selected_abs [where Q = "\<lambda>t. o_PartitionID t = q"])
  show "typed (snd (GetTasksByState_ref order e s))" "typed (snd (GetTasksForPartition_ref order e q))"
    by (simp_all add: c GetTasksByState_ref_def GetTasksForPartition_ref_def)
qed

end

text \<open>Both loggers keep entries without reading their data.\<close>

interpretation walref: slice_logger WalRef_methods WalLogger_methods abs_wal wal_slices
proof
  show "Append WalLogger_methods now (abs_entry m entry) (abs_wal m w) =
      map_prod id (abs_wal m) (Append_ref WalRef_methods now entry w)" for now m entry w
    by (cases w) (simp_all add: WalLogger_methods_def WalRef_methods_def InMemoryLogger_Append_def
        NoOpLogger_Append_def Let_def abs_entry_def)
  show "wal_slices (snd (Append_ref WalRef_methods now entry w)) \<subseteq>
      insert (e_Data entry) (wal_slices w)" for now entry w
    by (cases w) (auto simp: WalRef_methods_def Let_def)
  show "CheckpointLog WalLogger_methods seq (abs_wal m w) =
      map_prod id (abs_wal m) (Checkpoint_log_ref WalRef_methods seq w)" for seq m w
    by (cases w) (simp_all add: WalLogger_methods_def WalRef_methods_def InMemoryLogger_Checkpoint_def
        NoOpLogger_Checkpoint_def)
  show "wal_slices (snd (Checkpoint_log_ref WalRef_methods seq w)) \<subseteq> wal_slices w" for seq w
    by (cases w) (simp_all add: WalRef_methods_def)
  show "CloseLog WalLogger_methods (abs_wal m w) =
      map_prod id (abs_wal m) (Close_log_ref WalRef_methods w)" for m w
    by (cases w) (simp_all add: WalLogger_methods_def WalRef_methods_def InMemoryLogger_Close_def
        NoOpLogger_Close_def)
  show "wal_slices (snd (Close_log_ref WalRef_methods w)) \<subseteq> wal_slices w" for w
    by (cases w) (simp_all add: WalRef_methods_def)
  show "abs_wal m' w = abs_wal m w"
    if "\<And>s. s \<in> wal_slices w \<Longrightarrow> read_slice m' s = read_slice m s" for w m' m
    using that by (cases w) (simp_all add: abs_entry_def)
qed

end
