(* ===== verification/Slices_Properties.thy ===== *)
theory Slices_Properties
  imports Slices_Refine
begin

text \<open>
  Runs of the engine over slices, with its callers. A run mixes calls of the engine
  (\<open>call_ref\<close>, any operation with any arguments, with the events of \<open>engine_step\<close>) with what callers do to memory they can reach (\<open>client_step\<close>): allocate arrays,
  assign to a byte of a slice, assign to a task object. The two parameters of \<open>client_step\<close> are
  the arrays and the objects callers keep off. With none, every slice stays inside
  an allocated array (\<open>slice_run_typed\<close>); with those the engine uses, and identifiers generated once
  only, the run is a run of the registry. The slices the operations return copies in are
  private, the ones callers pass in are not.
\<close>

section \<open>Runs\<close>

inductive call_ref ::
    "'w LoggerRef \<Rightarrow> 'p Manager \<Rightarrow> engine_event list \<Rightarrow> ('w, 'p) EngineRef \<Rightarrow> ('w, 'p) EngineRef \<Rightarrow> bool"
  for R P where
  create: "slice_ok (mem e) payload \<Longrightarrow> call_ref R P
    (if workflowID = [] \<or> taskName = [] then [] else [Creates (task_id workflowID (clk 0))])
    e (snd (CreateTask_ref R P clk e workflowID taskName payload))"
| get: "call_ref R P [] e (snd (GetTask_ref e taskID))"
| transition: "call_ref R P [] e (snd (TransitionTask_ref R clk e taskID newState))"
| complete: "slice_ok (mem e) result \<Longrightarrow>
    call_ref R P [] e (snd (CompleteTask_ref R clk e taskID result))"
| failed: "call_ref R P [] e (snd (FailTask_ref R clk e taskID errorMsg))"
| workflow: "call_ref R P [] e (snd (GetWorkflowTasks_ref e workflowID))"
| by_state: "call_ref R P [] e (snd (GetTasksByState_ref order e state))"
| for_partition: "call_ref R P [] e (snd (GetTasksForPartition_ref order e partitionID))"
| checkpoint: "call_ref R P [] e (snd (Checkpoint_ref R e seq))"
| close: "call_ref R P [Closes] e (snd (Close_ref R e))"

inductive client_step ::
    "(('w, 'p) EngineRef \<Rightarrow> addr set) \<Rightarrow> (('w, 'p) EngineRef \<Rightarrow> addr set) \<Rightarrow>
     ('w, 'p) EngineRef \<Rightarrow> ('w, 'p) EngineRef \<Rightarrow> bool" for N C where
  new_array: "client_step N C e (e\<lparr>mem := snd (make_bytes n (mem e))\<rparr>)"
| assign: "slice_ok (mem e) s \<Longrightarrow> array_of s \<inter> N e = {} \<Longrightarrow> set_byte s i b (mem e) = Return m' \<Longrightarrow>
    client_step N C e (e\<lparr>mem := m'\<rparr>)"
| object: "a \<notin> C e \<Longrightarrow> obj_ok (mem e) t \<Longrightarrow> client_step N C e (put_cell a t e)"

definition engine_cells :: "('w, 'p) EngineRef \<Rightarrow> addr set" where
  "engine_cells e = ran (tasks_ref e)"

definition obj_arrays :: "TaskObj \<Rightarrow> addr set" where
  "obj_arrays t = array_of (o_Payload t) \<union> array_of (o_Result t)"

definition engine_arrays :: "('w \<Rightarrow> slice set) \<Rightarrow> ('w, 'p) EngineRef \<Rightarrow> addr set" where
  "engine_arrays refs e =
     (\<Union>a \<in> engine_cells e. obj_arrays (cells e a)) \<union> (\<Union>s \<in> refs (log_ref e). array_of s)"

inductive slice_run ::
    "((WalRef, DefaultManager) EngineRef \<Rightarrow> addr set) \<Rightarrow> ((WalRef, DefaultManager) EngineRef \<Rightarrow> addr set) \<Rightarrow>
     (WalRef, DefaultManager) EngineRef \<Rightarrow> engine_event list \<Rightarrow> (WalRef, DefaultManager) EngineRef \<Rightarrow> bool"
  for N C where
  none: "slice_run N C e [] e"
| call: "slice_run N C e evs e' \<Longrightarrow> call_ref WalRef_methods DefaultManager_methods es e' e'' \<Longrightarrow>
    slice_run N C e (evs @ es) e''"
| client: "slice_run N C e evs e' \<Longrightarrow> client_step N C e' e'' \<Longrightarrow> slice_run N C e evs e''"

section \<open>Steps\<close>

lemma engine_arrays_allocated:
  "engine_typed refs e \<Longrightarrow> a \<in> engine_arrays refs e \<Longrightarrow> a < next_array (mem e)"
  using slice_ok_array
  by (fastforce simp: engine_typed_def engine_arrays_def obj_arrays_def obj_ok_def)

lemma client_typed:
  assumes "client_step N C e e'" and "engine_typed refs e"
  shows "engine_typed refs e'"
  using assms
proof (cases rule: client_step.cases)
  case (new_array n)
  have "extends (mem e) (snd (make_bytes n (mem e)))" by (simp add: extends_def make_bytes_def)
  then show ?thesis unfolding new_array using assms(2) by (rule engine_typed_mem [rotated])
next
  case (assign s i b m')
  then show ?thesis
    using assms(2) set_byte_typed(1) [OF assign(4)] by (simp add: engine_typed_def obj_ok_def)
next
  case (object a t)
  then show ?thesis using engine_typed_put assms(2) by blast
qed

lemma engine_inv_same:
  assumes "engine_inv e" and "tasks e' = tasks e" and "workflowTasks e' = workflowTasks e"
    and "next_addr e' = next_addr e" and "task_of e' = task_of e"
  shows "engine_inv e'"
proof -
  have w: "workflow_ids e' = workflow_ids e" using assms(3) by (simp add: fun_eq_iff workflow_ids_def)
  have "ID (objects e' a) = i \<and> WorkflowID (objects e' a) \<noteq> [] \<and> task_inv (objects e' a)"
    if a: "tasks e i = Some a" for i a
  proof -
    have "objects e' a = objects e a"
      using fun_cong [OF assms(5), of i] a assms(2) by (simp add: task_of_def)
    then show ?thesis using assms(1) a by (simp add: engine_inv_def)
  qed
  then show ?thesis using assms by (simp add: engine_inv_def w)
qed

context slice_logger
begin

lemma call_simulates:
  assumes "call_ref R P evs e e'" and "typed e"
  shows "engine_step L P evs (absE e) (absE e') \<and> typed e'"
  using assms(1)
proof (cases rule: call_ref.cases)
  case (create payload workflowID taskName clk)
  from engine_step.create [of L P workflowID taskName clk "absE e" "read_slice (mem e) payload"] create
  show ?thesis using CreateTask_abs [OF assms(2) create(3)] by simp
next
  case (get i)
  then show ?thesis
    using engine_step.get [of L P "absE e" i] GetTask_abs [OF assms(2)] by simp
next
  case (transition clk i s)
  then show ?thesis
    using engine_step.transition [of L P "absE e" clk i s] TransitionTask_abs [OF assms(2)] by simp
next
  case (complete r clk i)
  then show ?thesis
    using engine_step.complete [of L P "absE e" clk i "read_slice (mem e) r"]
      CompleteTask_abs [OF assms(2)] by simp
next
  case (failed clk i x)
  then show ?thesis
    using engine_step.failed [of L P "absE e" clk i x] FailTask_abs [OF assms(2)] by simp
next
  case (workflow w)
  then show ?thesis
    using engine_step.workflow [of L P "absE e" w] GetWorkflowTasks_abs [OF assms(2)] by simp
next
  case (by_state order s)
  then show ?thesis
    using engine_step.by_state [of L P "absE e" order s] selection_abs [OF assms(2)] by simp
next
  case (for_partition order q)
  then show ?thesis
    using engine_step.for_partition [of L P "absE e" order q] selection_abs [OF assms(2)] by simp
next
  case (checkpoint seq)
  then show ?thesis
    using engine_step.checkpoint [of L P "absE e" seq] Checkpoint_abs [OF assms(2)] by simp
next
  case close
  then show ?thesis
    using engine_step.close [of L P "absE e"] Close_abs [OF assms(2)] by simp
qed

text \<open>A caller that keeps off the engine's arrays and objects changes nothing the engine knows.\<close>

lemma client_private:
  assumes "client_step (engine_arrays refs) engine_cells e e'" and "typed e"
  shows "task_of (absE e') = task_of (absE e) \<and> walLogger (absE e') = walLogger (absE e) \<and>
    tasks_ref e' = tasks_ref e \<and> workflowTasks_ref e' = workflowTasks_ref e \<and>
    mgr_ref e' = mgr_ref e \<and> next_cell e' = next_cell e"
  using assms(1)
proof (cases rule: client_step.cases)
  case (new_array n)
  have "extends (mem e) (snd (make_bytes n (mem e)))" by (simp add: extends_def make_bytes_def)
  from abs_mem [OF assms(2) this] new_array show ?thesis by (simp del: absE_simps)
next
  case (assign s i b m')
  note f = set_byte_frame [OF assign(4)]
  have "absw m' (log_ref e) = absw (mem e) (log_ref e)"
    using assign(3) by (intro log_frame f) (auto simp: engine_arrays_def)
  moreover have "abs_task m' (cells e a) = abs_task (mem e) (cells e a)" if "a \<in> engine_cells e" for a
    using assign(3) that f [of "o_Payload (cells e a)"] f [of "o_Result (cells e a)"]
    by (fastforce simp: abs_task_def engine_arrays_def obj_arrays_def)
  then have "task_of (absE (e\<lparr>mem := m'\<rparr>)) = task_of (absE e)"
    by (auto simp: fun_eq_iff task_of_def engine_cells_def ranI intro!: option.map_cong)
  ultimately show ?thesis using assign(1) by simp
next
  case (object a t)
  have "task_of (absE (put_cell a t e)) j = task_of (absE e) j" for j
    using object(2) by (cases "tasks_ref e j") (auto simp: task_of_def put_cell_def engine_cells_def ran_def)
  then show ?thesis unfolding object(1) by (auto simp: fun_eq_iff) (simp_all add: put_cell_def)
qed

text \<open>What an operation that returns a copy ends with: the copy is made in a typed engine.\<close>

lemma commit_returns_copy:
  assumes "typed e" and "obj_ok (mem e) t" and "slice_ok (mem e) (e_Data entry)"
    and "commit_ref R clk e a t entry s msg = (Inr p, e')"
  shows "\<exists>e1 t1. typed e1 \<and> obj_ok (mem e1) t1 \<and> tasks_ref e1 = tasks_ref e \<and>
    next_cell e1 = next_cell e \<and> return_copy t1 e1 = (p, e')"
proof -
  obtain q w where ap: "Append_ref R (clk 0) entry (log_ref e) = (Inr q, w)"
    using assms(4) by (auto simp: commit_ref_def split: prod.splits sum.splits)
  obtain t' where tr: "TransitionTo_ref (\<lambda>i. clk (1 + i)) t s = (None, t')"
    using assms(4) by (auto simp: commit_ref_def ap Let_def split: prod.splits option.splits)
  define e1 where "e1 = (put_cell a t' (e\<lparr>log_ref := w\<rparr>))\<lparr>counter_ref := q\<rparr>"
  have "obj_ok (mem e) t'" using obj_ok_TransitionTo assms(2) tr by (metis snd_conv)
  moreover have "typed (e\<lparr>log_ref := w\<rparr>)"
    using engine_typed_log [OF assms(1,3)] append_slices [of "clk 0" entry "log_ref e"] ap by simp
  ultimately have "typed e1" "obj_ok (mem e1) t'"
    unfolding e1_def using engine_typed_put [of refs "e\<lparr>log_ref := w\<rparr>" t' a] by simp_all
  moreover have "return_copy t' e1 = (p, e')"
    using assms(4) tr [simplified] by (simp add: commit_ref_def ap e1_def split: prod.splits)
  moreover have "tasks_ref e1 = tasks_ref e" "next_cell e1 = next_cell e"
    by (simp_all add: e1_def put_cell_def)
  ultimately show ?thesis by blast
qed

lemma return_copy_private:
  assumes "typed e" and "obj_ok (mem e) t" and "next_cell e \<notin> engine_cells e"
    and "return_copy t e = (p, e')"
  shows "obj_arrays (cells e' p) \<inter> engine_arrays refs e' = {}"
proof -
  obtain c m' where cp: "Copy_ref t (mem e) = (c, m')" by fastforce
  have e': "p = next_cell e" "e' = snd (alloc_cell c (e\<lparr>mem := m'\<rparr>))"
    using assms(4) by (auto simp: return_copy_def cp alloc_cell_def)
  have "engine_arrays refs e' = engine_arrays refs e"
  proof -
    have "cells e' b = cells e b" if "b \<in> engine_cells e" for b
      using that assms(3) by (auto simp: e' alloc_cell_def)
    moreover have "engine_cells e' = engine_cells e" "log_ref e' = log_ref e"
      by (simp_all add: engine_cells_def e' alloc_cell_def)
    ultimately show ?thesis by (simp add: engine_arrays_def)
  qed
  moreover have "cells e' p = c" by (simp add: e' alloc_cell_def)
  moreover have "next_array (mem e) \<le> a" if "a \<in> obj_arrays c" for a
    using Copy_ref_fresh(4) [OF assms(2) cp, of a] that by (auto simp: obj_arrays_def)
  ultimately show ?thesis using engine_arrays_allocated [OF assms(1)] by fastforce
qed

lemma GetTask_returns_copy:
  assumes "typed e" and "GetTask_ref e i = (Inr p, e')"
  shows "\<exists>e1 t1. typed e1 \<and> obj_ok (mem e1) t1 \<and> tasks_ref e1 = tasks_ref e \<and>
    next_cell e1 = next_cell e \<and> return_copy t1 e1 = (p, e')"
proof -
  obtain a where "return_copy (cells e a) e = (p, e')"
    using assms(2) by (auto simp: GetTask_ref_def split: if_splits option.splits prod.splits)
  with assms(1) engine_typedD [OF assms(1), of a] show ?thesis by blast
qed

lemma TransitionTask_returns_copy:
  assumes "typed e" and "TransitionTask_ref R clk e i s = (Inr p, e')"
  shows "\<exists>e1 t1. typed e1 \<and> obj_ok (mem e1) t1 \<and> tasks_ref e1 = tasks_ref e \<and>
    next_cell e1 = next_cell e \<and> return_copy t1 e1 = (p, e')"
proof -
  obtain a where "commit_ref R clk e a (cells e a) (wal_entry_ref i (o_WorkflowID (cells e a)) s
      (o_Payload (cells e a))) s ''failed to persist state transition to WAL: '' = (Inr p, e')"
    using assms(2) by (auto simp: TransitionTask_ref_def Let_def split: if_splits option.splits)
  from commit_returns_copy [OF assms(1) engine_typedD [OF assms(1)] _ this] show ?thesis
    using engine_typedD [OF assms(1), of a] by (simp add: wal_entry_ref_def obj_ok_def)
qed

lemma CompleteTask_returns_copy:
  assumes "typed e" and "slice_ok (mem e) r" and "CompleteTask_ref R clk e i r = (Inr p, e')"
  shows "\<exists>e1 t1. typed e1 \<and> obj_ok (mem e1) t1 \<and> tasks_ref e1 = tasks_ref e \<and>
    next_cell e1 = next_cell e \<and> return_copy t1 e1 = (p, e')"
proof -
  obtain a where c: "commit_ref R clk (put_cell a ((cells e a)\<lparr>o_Result := r\<rparr>) e) a
      ((cells e a)\<lparr>o_Result := r\<rparr>) (wal_entry_ref i (o_WorkflowID (cells e a)) StateCompleted r)
      StateCompleted ''failed to persist completion to WAL: '' = (Inr p, e')"
    using assms(3) by (auto simp: CompleteTask_ref_def Let_def split: if_splits option.splits)
  have ok: "obj_ok (mem e) ((cells e a)\<lparr>o_Result := r\<rparr>)"
    using engine_typedD [OF assms(1), of a] assms(2) by simp
  from commit_returns_copy [OF engine_typed_put [OF assms(1) ok, of a] _ _ c] ok assms(2)
  show ?thesis by (simp add: wal_entry_ref_def) (simp add: put_cell_def)
qed

lemma FailTask_returns_copy:
  assumes "typed e" and "FailTask_ref R clk e i x = (Inr p, e')"
  shows "\<exists>e1 t1. typed e1 \<and> obj_ok (mem e1) t1 \<and> tasks_ref e1 = tasks_ref e \<and>
    next_cell e1 = next_cell e \<and> return_copy t1 e1 = (p, e')"
proof -
  obtain d m' where str: "slice_of_string x (mem e) = (d, m')" by fastforce
  note d = slice_of_string_fresh [OF str, unfolded fresh_slice_def]
  obtain a where c: "commit_ref R clk ((put_cell a ((cells e a)\<lparr>o_Error := x\<rparr>) e)\<lparr>mem := m'\<rparr>) a
      ((cells e a)\<lparr>o_Error := x\<rparr>) (wal_entry_ref i (o_WorkflowID (cells e a)) StateFailed d)
      StateFailed ''failed to persist failure to WAL: '' = (Inr p, e')"
    using assms(2) by (auto simp: FailTask_ref_def Let_def str split: if_splits option.splits)
  have ok: "obj_ok (mem e) ((cells e a)\<lparr>o_Error := x\<rparr>)"
    using engine_typedD [OF assms(1), of a] by simp
  have ty: "typed ((put_cell a ((cells e a)\<lparr>o_Error := x\<rparr>) e)\<lparr>mem := m'\<rparr>)"
    by (rule engine_typed_mem [OF engine_typed_put [OF assms(1) ok]]) (simp add: d)
  from commit_returns_copy [OF ty _ _ c] obj_ok_extends(1) [OF _ ok, of m'] d
  show ?thesis by (simp add: wal_entry_ref_def) (simp add: put_cell_def)
qed

end

section \<open>Starting states\<close>

definition start_ok ::
    "Memory \<Rightarrow> (addr \<Rightarrow> TaskObj) \<Rightarrow> WalRef option \<Rightarrow> DefaultManager option \<Rightarrow> bool" where
  "start_ok m c logger mgr \<longleftrightarrow>
     (\<forall>a. obj_ok m (c a)) \<and>
     pred_option (\<lambda>l. \<forall>s \<in> wal_slices l. slice_ok m s) logger \<and>
     pred_option (\<lambda>p. 0 < sint (partitionCount p)) mgr"

lemma NewEngine_ref_typed:
  "start_ok m c logger mgr \<Longrightarrow> engine_typed wal_slices (NewEngine_ref m c n logger mgr)"
  by (cases logger) (simp_all add: start_ok_def engine_typed_def NewEngine_ref_def Let_def)

lemma NewEngine_ref_abs:
  "abs_engine abs_wal (NewEngine_ref m c n logger mgr) =
   NewEngine \<lparr>objects = (\<lambda>a. abs_task m (c a)), next_addr = n\<rparr> (map_option (abs_wal m) logger) mgr"
  by (cases logger) (simp_all add: abs_engine_def NewEngine_ref_def NewEngine_def Let_def)

lemma NewEngine_ref_good:
  "start_ok m c logger mgr \<Longrightarrow> anyeng.good (abs_engine abs_wal (NewEngine_ref m c n logger mgr))"
  unfolding NewEngine_ref_abs by (rule NewEngine_any) (simp add: start_ok_def)

text \<open>Typing survives everything.\<close>

lemma slice_run_typed:
  assumes "slice_run N C e evs e'" and "engine_typed wal_slices e"
  shows "engine_typed wal_slices e'"
  using assms
proof (induction rule: slice_run.induct)
  case (call e evs e' es e'')
  then show ?case using walref.call_simulates by blast
next
  case (client e evs e' e'')
  then show ?case using client_typed by blast
qed

lemma client_good:
  assumes "client_step (engine_arrays wal_slices) engine_cells e e'" and "engine_typed wal_slices e"
    and "anyeng.good (abs_engine abs_wal e)"
  shows "anyeng.good (abs_engine abs_wal e') \<and> task_of (abs_engine abs_wal e') = task_of (abs_engine abs_wal e)"
proof -
  from walref.client_private [OF assms(1,2)]
  have same: "task_of (abs_engine abs_wal e') = task_of (abs_engine abs_wal e)"
    "tasks_ref e' = tasks_ref e" "workflowTasks_ref e' = workflowTasks_ref e"
    "mgr_ref e' = mgr_ref e" "next_cell e' = next_cell e" by blast+
  have "engine_inv (abs_engine abs_wal e')"
    by (rule engine_inv_same [of "abs_engine abs_wal e"])
      (use assms(3) same in \<open>simp_all add: anyeng.good_def\<close>)
  then show ?thesis using assms(3) same(1,4) by (simp add: anyeng.good_def)
qed

lemma slice_run_simulates:
  assumes "slice_run (engine_arrays wal_slices) engine_cells e evs e'" and "engine_typed wal_slices e"
    and "anyeng.good (abs_engine abs_wal e)" and "fresh_ids (abs_engine abs_wal e) evs"
  shows "anyeng.good (abs_engine abs_wal e') \<and>
    dom (task_of (abs_engine abs_wal e')) \<subseteq> dom (task_of (abs_engine abs_wal e)) \<union> set (created_ids evs) \<and>
    spec_step\<^sup>*\<^sup>* (task_of (abs_engine abs_wal e)) (task_of (abs_engine abs_wal e'))"
  using assms
proof (induction rule: slice_run.induct)
  case (none e)
  then show ?case by simp
next
  case (client e evs e' e'')
  then show ?case using client_good slice_run_typed by metis
next
  case (call e evs e' es e'')
  let ?a = "abs_engine abs_wal"
  have "fresh_ids (?a e) evs" using call.prems(3) by (auto simp: fresh_ids_def)
  with call.IH call.prems have IH: "anyeng.good (?a e')"
    "dom (task_of (?a e')) \<subseteq> dom (task_of (?a e)) \<union> set (created_ids evs)"
    "spec_step\<^sup>*\<^sup>* (task_of (?a e)) (task_of (?a e'))" by auto
  have f: "fresh_ids (?a e') es" using IH(2) call.prems(3) by (auto simp: fresh_ids_def)
  have st: "engine_step wal_m pm_m es (?a e') (?a e'')"
    using walref.call_simulates [OF call(2)] slice_run_typed [OF call(1) call.prems(1)] by blast
  have "dom (task_of (?a e'')) \<subseteq> dom (task_of (?a e)) \<union> set (created_ids (evs @ es))"
    using engine_step_dom [OF st] IH(2) by auto
  moreover have "spec_step\<^sup>*\<^sup>* (task_of (?a e)) (task_of (?a e''))"
    using IH(3) engine_step_simulates [OF st f IH(1)] by (meson rtranclp.rtrancl_into_rtrancl)
  ultimately show ?case using engine_step_simulates [OF st f IH(1)] by blast
qed

lemma CreateTask_ref_effect:
  assumes "CreateTask_ref WalRef_methods P clk e workflowID taskName payload = (Inr p, e')"
    and "log_ref e = InMemory_ref l"
  shows "\<exists>q. p = next_cell e \<and> mem e' = mem e \<and>
    tasks_ref e' (task_id workflowID (clk 0)) = Some (next_cell e) \<and>
    o_Payload (cells e' (next_cell e)) = payload \<and> o_Result (cells e' (next_cell e)) = None \<and>
    log_ref e' = InMemory_ref (l\<lparr>r_sequence := r_sequence l + 1, r_entries := r_entries l @ [q]\<rparr>) \<and>
    e_TaskID q = task_id workflowID (clk 0) \<and> e_Data q = payload"
proof -
  have "workflowID \<noteq> []" "taskName \<noteq> []"
    using assms(1) by (auto simp: CreateTask_ref_def split: if_splits)
  moreover have "task_id workflowID (clk 0) \<noteq> []" by (simp add: task_id_def)
  ultimately show ?thesis
    using assms
    by (auto simp: CreateTask_ref_def Let_def WalRef_methods_def wal_entry_ref_def alloc_cell_def
        NewTask_ref_def split: sum.splits)
qed

section \<open>A concrete run\<close>

definition mem0 :: Memory where
  "mem0 = \<lparr>arrays = \<lambda>_. [], next_array = 0\<rparr>"

definition ref0 :: "(WalRef, DefaultManager) EngineRef" where
  "ref0 = NewEngine_ref mem0 (\<lambda>_. NewTask_ref (\<lambda>_. 0) [] [] [] None) 0
     (Some (InMemory_ref \<lparr>r_entries = [], r_sequence = 0, r_committed = 0\<rparr>)) (Some (NewDefaultManager 4))"

definition s1 :: slice where
  "s1 = Some \<lparr>slice_array = 0, slice_offset = 0, slice_len = 1\<rparr>"

definition mem1 :: Memory where
  "mem1 = \<lparr>arrays = (\<lambda>_. [])(0 := [1]), next_array = 1\<rparr>"

text \<open>The caller makes an array of one byte, writes 1 into it, passes it as payload.\<close>

definition ref1 :: "(WalRef, DefaultManager) EngineRef" where
  "ref1 = ref0\<lparr>mem := mem1\<rparr>"

definition ref2 :: "(WalRef, DefaultManager) EngineRef" where
  "ref2 = snd (CreateTask_ref WalRef_methods pm_m (\<lambda>_. 5) ref1 ''w'' ''n'' s1)"

lemma start0: "start_ok mem0 (\<lambda>_. NewTask_ref (\<lambda>_. 0) [] [] [] None)
    (Some (InMemory_ref \<lparr>r_entries = [], r_sequence = 0, r_committed = 0\<rparr>)) (Some (NewDefaultManager 4))"
  by (simp add: start_ok_def NewDefaultManager_def)

lemma ref0_typed: "engine_typed wal_slices ref0"
  unfolding ref0_def by (rule NewEngine_ref_typed [OF start0])

lemma mem_ref0 [simp]: "mem ref0 = mem0" "tasks_ref ref0 = Map.empty" "log_ref ref0 = InMemory_ref \<lparr>r_entries = [], r_sequence = 0, r_committed = 0\<rparr>"
  by (simp_all add: ref0_def NewEngine_ref_def Let_def)

lemma ref0_abs: "abs_engine abs_wal ref0 = eng0"
  unfolding ref0_def NewEngine_ref_abs eng0_def heap0_def
  by (simp add: abs_NewTask NewInMemoryLogger_def)

lemma step_ref01: "slice_run (engine_arrays wal_slices) C ref0 [] ref1"
proof -
  let ?N = "engine_arrays wal_slices"
  define x where "x = ref0\<lparr>mem := snd (make_bytes 1 mem0)\<rparr>"
  have 1: "client_step ?N C ref0 x"
    unfolding x_def using client_step.new_array [of ?N C ref0 1] by simp
  have "set_byte s1 0 1 (mem x) = Return mem1"
    by (simp add: set_byte_def s1_def x_def make_bytes_def mem0_def mem1_def)
  moreover have "slice_ok (mem x) s1"
    by (simp add: slice_ok_def s1_def x_def make_bytes_def mem0_def)
  moreover have "engine_arrays wal_slices x = {}"
    by (simp add: x_def engine_arrays_def engine_cells_def)
  ultimately have "client_step ?N C x (x\<lparr>mem := mem1\<rparr>)"
    by (intro client_step.assign) auto
  then have "client_step ?N C x ref1" by (simp add: ref1_def x_def)
  with slice_run.client [OF slice_run.none 1] show ?thesis by (rule slice_run.client)
qed

lemma ref1_ok: "engine_typed wal_slices ref1" "slice_ok (mem ref1) s1" "read_slice (mem ref1) s1 = Some [1]"
  "abs_engine abs_wal ref1 = eng0"
proof -
  have ext: "extends (mem ref0) mem1" by (simp add: extends_def mem0_def)
  show "engine_typed wal_slices ref1" unfolding ref1_def by (rule engine_typed_mem [OF ref0_typed ext])
  show "abs_engine abs_wal ref1 = eng0"
    unfolding ref1_def using walref.abs_mem [OF ref0_typed ext] ref0_abs by simp
  show "slice_ok (mem ref1) s1" "read_slice (mem ref1) s1 = Some [1]"
    by (simp_all add: ref1_def mem1_def s1_def slice_ok_def read_slice_def slice_bytes_def)
qed

lemma ref2_ok: "engine_typed wal_slices ref2" "abs_engine abs_wal ref2 = eng1"
  "call_ref WalRef_methods pm_m [Creates id1] ref1 ref2"
proof -
  note c = walref.CreateTask_abs [OF ref1_ok(1,2), of pm_m "\<lambda>_. 5" "''w''" "''n''"]
  show "engine_typed wal_slices ref2" using c(2) by (simp add: ref2_def)
  show "abs_engine abs_wal ref2 = eng1" using c(1) by (simp add: ref2_def eng1_def ref1_ok)
  show "call_ref WalRef_methods pm_m [Creates id1] ref1 ref2"
    unfolding ref2_def
    using call_ref.create [OF ref1_ok(2), of WalRef_methods pm_m "''w''" "''n''" "\<lambda>_. 5"]
    by (simp add: id1_def)
qed

lemma run_ref2: "slice_run (engine_arrays wal_slices) engine_cells ref0 [Creates id1] ref2"
  using slice_run.call [OF step_ref01 ref2_ok(3)] by simp

text \<open>The caller's slice and the task's are one array: a later write of 9 is seen by the engine.\<close>

definition mem2 :: Memory where
  "mem2 = \<lparr>arrays = (\<lambda>_. [])(0 := [9]), next_array = 1\<rparr>"

lemma create_ref2:
  "CreateTask_ref WalRef_methods pm_m (\<lambda>_. 5) ref1 ''w'' ''n'' s1 = (Inr 0, ref2)"
proof -
  obtain e' where "CreateTask wal_m pm_m (\<lambda>_. 5) eng0 ''w'' ''n'' (Some [1]) = (Inr 0, e')"
    using create_view [OF eng0_reach, of "''w''" "''n''"] by fastforce
  with walref.CreateTask_abs(1) [OF ref1_ok(1,2), of pm_m "\<lambda>_. 5" "''w''" "''n''"]
  have "fst (CreateTask_ref WalRef_methods pm_m (\<lambda>_. 5) ref1 ''w'' ''n'' s1) = Inr 0"
    by (simp add: ref1_ok map_prod_def split_beta)
  then show ?thesis by (simp add: ref2_def prod_eq_iff)
qed

lemma ref2_simps [simp]:
  "mem ref2 = mem1" "tasks_ref ref2 id1 = Some 0" "o_Payload (cells ref2 0) = s1"
  "o_Result (cells ref2 0) = None"
proof -
  have "log_ref ref1 = InMemory_ref \<lparr>r_entries = [], r_sequence = 0, r_committed = 0\<rparr>" "mem ref1 = mem1"
    "next_cell ref1 = 0"
    by (simp_all add: ref1_def) (simp add: ref0_def NewEngine_ref_def Let_def)
  with CreateTask_ref_effect [OF create_ref2, of "\<lparr>r_entries = [], r_sequence = 0, r_committed = 0\<rparr>"]
  show "mem ref2 = mem1" "tasks_ref ref2 id1 = Some 0" "o_Payload (cells ref2 0) = s1"
    "o_Result (cells ref2 0) = None"
    by (auto simp: id1_def)
qed

lemma set_byte_ref2: "set_byte s1 0 9 (mem ref2) = Return mem2"
  by (simp add: set_byte_def s1_def mem1_def mem2_def)

lemma get_ref2:
  "\<exists>e' m'. GetTask_ref ref2 id1 = (Inr (next_cell ref2), e') \<and>
     read_slice (mem e') (o_Payload (cells e' (next_cell ref2))) = Some [1] \<and>
     set_byte (o_Payload (cells e' (next_cell ref2))) 0 7 (mem e') = Return m'"
  by (simp add: GetTask_ref_def return_copy_def Copy_ref_def clone_slice_def s1_def make_bytes_def
      alloc_cell_def read_slice_def slice_bytes_def copy_bytes_def write_at_def set_byte_def mem1_def Let_def)

section \<open>Properties: the engine over slices\<close>

text \<open>C12: the engine over slices implements the task registry: with either log and any calls, \<^verbatim>\<open>Close\<close> included,
  on a run in which no two creations generate the same identifier and callers keep off the arrays and
  task objects the engine uses (they may do anything else: allocate, and write to every slice and
  object that was returned to them as a copy), the tasks, their payloads and results read from
  memory, evolve as a run of the registry, and the engine's maps stay consistent.\<close>
theorem slices_refine_registry:
  assumes "start_ok m c logger mgr"
    and "slice_run (engine_arrays wal_slices) engine_cells (NewEngine_ref m c n logger mgr) evs e"
    and "distinct (created_ids evs)"
  shows "engine_inv (abs_engine abs_wal e) \<and> spec_step\<^sup>*\<^sup>* Map.empty (task_of (abs_engine abs_wal e))"
proof -
  have "fresh_ids (abs_engine abs_wal (NewEngine_ref m c n logger mgr)) evs"
    using assms(3) by (simp add: NewEngine_ref_abs)
  from slice_run_simulates [OF assms(2) NewEngine_ref_typed [OF assms(1)] NewEngine_ref_good [OF assms(1)] this]
  show ?thesis by (simp add: NewEngine_ref_abs anyeng.good_def)
qed

theorem slices_refine_registry_witness:
  "engine_inv (abs_engine abs_wal ref2) \<and> spec_step\<^sup>*\<^sup>* Map.empty (task_of (abs_engine abs_wal ref2)) \<and>
   task_of (abs_engine abs_wal ref2) id1 \<noteq> None"
  using slices_refine_registry [OF start0 run_ref2 [unfolded ref0_def]] eng1_view ref2_ok(2) by auto

text \<open>C13: the copies that \<^verbatim>\<open>GetTask\<close>, \<^verbatim>\<open>TransitionTask\<close>, \<^verbatim>\<open>CompleteTask\<close> and \<^verbatim>\<open>FailTask\<close> return are deep: their payload
  and result lie in arrays that no task of the engine and no log entry uses, so writing to their
  bytes changes no task and no entry.\<close>
theorem returned_slices_are_private:
  assumes "engine_typed wal_slices e" and "engine_inv (abs_engine abs_wal e)"
    and "GetTask_ref e i = (Inr p, e') \<or> TransitionTask_ref WalRef_methods clk e i s = (Inr p, e') \<or>
      slice_ok (mem e) r \<and> CompleteTask_ref WalRef_methods clk e i r = (Inr p, e') \<or>
      FailTask_ref WalRef_methods clk e i x = (Inr p, e')"
    and "sl = o_Payload (cells e' p) \<or> sl = o_Result (cells e' p)"
    and "set_byte sl k b (mem e') = Return m'"
  shows "task_of (abs_engine abs_wal (e'\<lparr>mem := m'\<rparr>)) = task_of (abs_engine abs_wal e') \<and>
    abs_wal m' (log_ref e') = abs_wal (mem e') (log_ref e')"
proof -
  have "\<exists>e1 t1. engine_typed wal_slices e1 \<and> obj_ok (mem e1) t1 \<and> tasks_ref e1 = tasks_ref e \<and>
      next_cell e1 = next_cell e \<and> return_copy t1 e1 = (p, e')"
    using assms(3) walref.CompleteTask_returns_copy [OF assms(1)]
    by (elim disjE conjE) (rule walref.GetTask_returns_copy [OF assms(1)]
        walref.TransitionTask_returns_copy [OF assms(1)] walref.FailTask_returns_copy [OF assms(1)];
        assumption | simp)+
  then obtain e1 t1 where e1: "engine_typed wal_slices e1" "obj_ok (mem e1) t1"
    and same: "tasks_ref e1 = tasks_ref e" "next_cell e1 = next_cell e" and rc: "return_copy t1 e1 = (p, e')"
    by blast
  have "next_cell e1 \<notin> engine_cells e1"
    using assms(2) by (force simp: engine_cells_def ran_def same engine_inv_def)
  from walref.return_copy_private [OF e1 this rc]
  have priv: "array_of sl \<inter> engine_arrays wal_slices e' = {}"
    using assms(4) by (auto simp: obj_arrays_def)
  have ty: "engine_typed wal_slices e'" using walref.return_copy_abs(2) [OF e1] rc by simp
  have "slice_ok (mem e') sl"
    using engine_typedD [OF ty, of p] assms(4) by (auto simp: obj_ok_def)
  from client_step.assign [where N = "engine_arrays wal_slices", OF this priv assms(5)]
  have "client_step (engine_arrays wal_slices) engine_cells e' (e'\<lparr>mem := m'\<rparr>)" .
  from walref.client_private [OF this ty] show ?thesis by simp
qed

theorem returned_slices_are_private_witness:
  "\<exists>p e' m'. GetTask_ref ref2 id1 = (Inr p, e') \<and>
     set_byte (o_Payload (cells e' p)) 0 7 (mem e') = Return m' \<and>
     task_of (abs_engine abs_wal (e'\<lparr>mem := m'\<rparr>)) = task_of (abs_engine abs_wal e')"
proof -
  obtain e' m' where g: "GetTask_ref ref2 id1 = (Inr (next_cell ref2), e')"
    "set_byte (o_Payload (cells e' (next_cell ref2))) 0 7 (mem e') = Return m'"
    using get_ref2 by blast
  have "engine_inv (abs_engine abs_wal ref2)"
    using engine_reach_inv [OF eng1_reach] ref2_ok(2) by simp
  from returned_slices_are_private [OF ref2_ok(1) this _ _ g(2)] g show ?thesis by blast
qed

text \<open>C15: the payload passed to \<^verbatim>\<open>CreateTask\<close> is not copied: a caller that reuses its buffer afterwards changes the
  payload of the stored task and the data of the log entry that records its creation.\<close>
theorem reused_payload_corrupts_task_and_log:
  assumes "engine_typed wal_slices e" and "slice_ok (mem e) payload" and "log_ref e = InMemory_ref l"
    and "CreateTask_ref WalRef_methods P clk e workflowID taskName payload = (Inr p, e')"
    and "set_byte payload k b (mem e') = Return m'"
  shows "\<exists>t en. task_of (abs_engine abs_wal (e'\<lparr>mem := m'\<rparr>)) (task_id workflowID (clk 0)) = Some t \<and>
    Payload t = map_option (\<lambda>bs. bs[k := b]) (read_slice (mem e) payload) \<and>
    (\<exists>l'. abs_wal m' (log_ref e') = InMemory l' \<and> entries l' \<noteq> [] \<and> en = last (entries l') \<and>
      TaskID en = task_id workflowID (clk 0) \<and>
      Data en = map_option (\<lambda>bs. bs[k := b]) (read_slice (mem e) payload))"
proof -
  from CreateTask_ref_effect [OF assms(4,3)]
  obtain q where e': "mem e' = mem e" "tasks_ref e' (task_id workflowID (clk 0)) = Some (next_cell e)"
    "o_Payload (cells e' (next_cell e)) = payload"
    "log_ref e' = InMemory_ref (l\<lparr>r_sequence := r_sequence l + 1, r_entries := r_entries l @ [q]\<rparr>)"
    "e_TaskID q = task_id workflowID (clk 0)" "e_Data q = payload" by blast
  have "read_slice m' payload = map_option (\<lambda>bs. bs[k := b]) (read_slice (mem e) payload)"
    using set_byte_read [OF assms(5)] assms(2) e'(1) by simp
  then show ?thesis
    using e' by (simp add: task_of_def abs_entry_def)
qed

theorem reused_payload_corrupts_task_and_log_witness:
  "\<exists>t. task_of (abs_engine abs_wal (ref2\<lparr>mem := mem2\<rparr>)) id1 = Some t \<and> Payload t = Some [9] \<and>
     Payload (objects eng1 0) = Some [1]"
proof -
  have "objects eng1 0 = abs_task mem1 (cells ref2 0)"
    using walref.absE_simps(1) [of ref2 0] ref2_ok(2) by simp
  then have old: "Payload (objects eng1 0) = Some [1]"
    by (simp add: mem1_def s1_def read_slice_def slice_bytes_def)
  have "log_ref ref1 = InMemory_ref \<lparr>r_entries = [], r_sequence = 0, r_committed = 0\<rparr>"
    by (simp add: ref1_def)
  from reused_payload_corrupts_task_and_log [OF ref1_ok(1,2) this create_ref2 set_byte_ref2] old
  show ?thesis by (auto simp: ref1_ok(3) id1_def)
qed

end
