(* ===== verification/Proto_Messages.thy ===== *)
theory Proto_Messages
  imports Go_Prelude
begin

text \<open>
  The protocol messages, \<^verbatim>\<open>src/api/proto/ortrix.pb.go\<close>: the fields of each message struct,
  their zero values, \<^verbatim>\<open>Reset\<close> and the nil-safe getters. A pointer to a message is an \<open>option\<close>; the interface of a
  oneof field is an \<open>option\<close> of a datatype with one constructor per wrapper struct, whose
  message pointer can again be nil. Fields carry the message's name where Isabelle needs them apart.
  The bookkeeping fields of the protobuf runtime are left out.
\<close>

section \<open>Messages\<close>

record ProtoTask =
  Id :: string
  Type :: string
  TaskPayload :: bytes
  Metadata :: "string \<rightharpoonup> string"
  Priority :: "32 word"
  TaskCreatedAt :: "64 word"

record TaskResult =
  ResultTaskId :: string
  Success :: bool
  Output :: bytes
  ResultError :: string
  ResultCompletedAt :: "64 word"

record SubmitTaskRequest =
  RequestTask :: "ProtoTask option"

record SubmitTaskResponse =
  ResponseTaskId :: string
  Accepted :: bool
  Message :: string

record TaskStatusRequest =
  RequestTaskId :: string

record TaskStatusResponse =
  StatusTaskId :: string
  Status :: string
  StatusResult :: "TaskResult option"

record WorkerRegistration =
  RegistrationWorkerId :: string
  RegistrationCapabilities :: "string list"

record Heartbeat =
  HeartbeatWorkerId :: string
  HeartbeatTimestamp :: "64 word"

record Ack =
  AckMessage :: string

datatype WorkerMessage_Payload =
    WorkerMessage_Registration "WorkerRegistration option"
  | WorkerMessage_Result "TaskResult option"
  | WorkerMessage_Heartbeat "Heartbeat option"

record WorkerMessage =
  MessageWorkerId :: string
  WorkerPayload :: "WorkerMessage_Payload option"

datatype OrchestratorMessage_Payload =
    OrchestratorMessage_Task "ProtoTask option"
  | OrchestratorMessage_Ack "Ack option"

record OrchestratorMessage =
  OrchestratorPayload :: "OrchestratorMessage_Payload option"

section \<open>Zero values and Reset\<close>

text \<open>
  \<^verbatim>\<open>new(T)\<close> gives the zero message; \<^verbatim>\<open>Reset\<close> assigns it through the receiver, which panics on a nil
  pointer. A nil slice of strings and a nil map read like empty ones and are not told apart here.
\<close>

definition ProtoTask_zero :: ProtoTask where
  "ProtoTask_zero = \<lparr>Id = [], Type = [], TaskPayload = None, Metadata = Map.empty, Priority = 0, TaskCreatedAt = 0\<rparr>"

definition TaskResult_zero :: TaskResult where
  "TaskResult_zero = \<lparr>ResultTaskId = [], Success = False, Output = None, ResultError = [], ResultCompletedAt = 0\<rparr>"

definition SubmitTaskRequest_zero :: SubmitTaskRequest where
  "SubmitTaskRequest_zero = \<lparr>RequestTask = None\<rparr>"

definition SubmitTaskResponse_zero :: SubmitTaskResponse where
  "SubmitTaskResponse_zero = \<lparr>ResponseTaskId = [], Accepted = False, Message = []\<rparr>"

definition TaskStatusRequest_zero :: TaskStatusRequest where
  "TaskStatusRequest_zero = \<lparr>RequestTaskId = []\<rparr>"

definition TaskStatusResponse_zero :: TaskStatusResponse where
  "TaskStatusResponse_zero = \<lparr>StatusTaskId = [], Status = [], StatusResult = None\<rparr>"

definition WorkerMessage_zero :: WorkerMessage where
  "WorkerMessage_zero = \<lparr>MessageWorkerId = [], WorkerPayload = None\<rparr>"

definition OrchestratorMessage_zero :: OrchestratorMessage where
  "OrchestratorMessage_zero = \<lparr>OrchestratorPayload = None\<rparr>"

definition WorkerRegistration_zero :: WorkerRegistration where
  "WorkerRegistration_zero = \<lparr>RegistrationWorkerId = [], RegistrationCapabilities = []\<rparr>"

definition Heartbeat_zero :: Heartbeat where
  "Heartbeat_zero = \<lparr>HeartbeatWorkerId = [], HeartbeatTimestamp = 0\<rparr>"

definition Ack_zero :: Ack where
  "Ack_zero = \<lparr>AckMessage = []\<rparr>"

definition reset_to :: "'a \<Rightarrow> 'a option \<Rightarrow> 'a outcome" where
  "reset_to z x =
     (case x of Some _ \<Rightarrow> Return z
      | None \<Rightarrow> Panic ''invalid memory address or nil pointer dereference'')"

definition ProtoTask_Reset :: "ProtoTask option \<Rightarrow> ProtoTask outcome" where
  "ProtoTask_Reset x = reset_to ProtoTask_zero x"

definition TaskResult_Reset :: "TaskResult option \<Rightarrow> TaskResult outcome" where
  "TaskResult_Reset x = reset_to TaskResult_zero x"

definition SubmitTaskRequest_Reset :: "SubmitTaskRequest option \<Rightarrow> SubmitTaskRequest outcome" where
  "SubmitTaskRequest_Reset x = reset_to SubmitTaskRequest_zero x"

definition SubmitTaskResponse_Reset :: "SubmitTaskResponse option \<Rightarrow> SubmitTaskResponse outcome" where
  "SubmitTaskResponse_Reset x = reset_to SubmitTaskResponse_zero x"

definition TaskStatusRequest_Reset :: "TaskStatusRequest option \<Rightarrow> TaskStatusRequest outcome" where
  "TaskStatusRequest_Reset x = reset_to TaskStatusRequest_zero x"

definition TaskStatusResponse_Reset :: "TaskStatusResponse option \<Rightarrow> TaskStatusResponse outcome" where
  "TaskStatusResponse_Reset x = reset_to TaskStatusResponse_zero x"

definition WorkerMessage_Reset :: "WorkerMessage option \<Rightarrow> WorkerMessage outcome" where
  "WorkerMessage_Reset x = reset_to WorkerMessage_zero x"

definition OrchestratorMessage_Reset :: "OrchestratorMessage option \<Rightarrow> OrchestratorMessage outcome" where
  "OrchestratorMessage_Reset x = reset_to OrchestratorMessage_zero x"

definition WorkerRegistration_Reset :: "WorkerRegistration option \<Rightarrow> WorkerRegistration outcome" where
  "WorkerRegistration_Reset x = reset_to WorkerRegistration_zero x"

definition Heartbeat_Reset :: "Heartbeat option \<Rightarrow> Heartbeat outcome" where
  "Heartbeat_Reset x = reset_to Heartbeat_zero x"

definition Ack_Reset :: "Ack option \<Rightarrow> Ack outcome" where
  "Ack_Reset x = reset_to Ack_zero x"

section \<open>Getters\<close>

definition ProtoTask_GetId :: "ProtoTask option \<Rightarrow> string" where
  "ProtoTask_GetId x = (case x of Some m \<Rightarrow> Id m | None \<Rightarrow> [])"

definition ProtoTask_GetType :: "ProtoTask option \<Rightarrow> string" where
  "ProtoTask_GetType x = (case x of Some m \<Rightarrow> Type m | None \<Rightarrow> [])"

definition ProtoTask_GetPayload :: "ProtoTask option \<Rightarrow> bytes" where
  "ProtoTask_GetPayload x = (case x of Some m \<Rightarrow> TaskPayload m | None \<Rightarrow> None)"

definition ProtoTask_GetMetadata :: "ProtoTask option \<Rightarrow> (string \<rightharpoonup> string)" where
  "ProtoTask_GetMetadata x = (case x of Some m \<Rightarrow> Metadata m | None \<Rightarrow> Map.empty)"

definition ProtoTask_GetPriority :: "ProtoTask option \<Rightarrow> 32 word" where
  "ProtoTask_GetPriority x = (case x of Some m \<Rightarrow> Priority m | None \<Rightarrow> 0)"

definition ProtoTask_GetCreatedAt :: "ProtoTask option \<Rightarrow> 64 word" where
  "ProtoTask_GetCreatedAt x = (case x of Some m \<Rightarrow> TaskCreatedAt m | None \<Rightarrow> 0)"

definition TaskResult_GetTaskId :: "TaskResult option \<Rightarrow> string" where
  "TaskResult_GetTaskId x = (case x of Some m \<Rightarrow> ResultTaskId m | None \<Rightarrow> [])"

definition TaskResult_GetSuccess :: "TaskResult option \<Rightarrow> bool" where
  "TaskResult_GetSuccess x = (case x of Some m \<Rightarrow> Success m | None \<Rightarrow> False)"

definition TaskResult_GetOutput :: "TaskResult option \<Rightarrow> bytes" where
  "TaskResult_GetOutput x = (case x of Some m \<Rightarrow> Output m | None \<Rightarrow> None)"

definition TaskResult_GetError :: "TaskResult option \<Rightarrow> string" where
  "TaskResult_GetError x = (case x of Some m \<Rightarrow> ResultError m | None \<Rightarrow> [])"

definition TaskResult_GetCompletedAt :: "TaskResult option \<Rightarrow> 64 word" where
  "TaskResult_GetCompletedAt x = (case x of Some m \<Rightarrow> ResultCompletedAt m | None \<Rightarrow> 0)"

definition SubmitTaskRequest_GetTask :: "SubmitTaskRequest option \<Rightarrow> ProtoTask option" where
  "SubmitTaskRequest_GetTask x = (case x of Some m \<Rightarrow> RequestTask m | None \<Rightarrow> None)"

definition SubmitTaskResponse_GetTaskId :: "SubmitTaskResponse option \<Rightarrow> string" where
  "SubmitTaskResponse_GetTaskId x = (case x of Some m \<Rightarrow> ResponseTaskId m | None \<Rightarrow> [])"

definition SubmitTaskResponse_GetAccepted :: "SubmitTaskResponse option \<Rightarrow> bool" where
  "SubmitTaskResponse_GetAccepted x = (case x of Some m \<Rightarrow> Accepted m | None \<Rightarrow> False)"

definition SubmitTaskResponse_GetMessage :: "SubmitTaskResponse option \<Rightarrow> string" where
  "SubmitTaskResponse_GetMessage x = (case x of Some m \<Rightarrow> Message m | None \<Rightarrow> [])"

definition TaskStatusRequest_GetTaskId :: "TaskStatusRequest option \<Rightarrow> string" where
  "TaskStatusRequest_GetTaskId x = (case x of Some m \<Rightarrow> RequestTaskId m | None \<Rightarrow> [])"

definition TaskStatusResponse_GetTaskId :: "TaskStatusResponse option \<Rightarrow> string" where
  "TaskStatusResponse_GetTaskId x = (case x of Some m \<Rightarrow> StatusTaskId m | None \<Rightarrow> [])"

definition TaskStatusResponse_GetStatus :: "TaskStatusResponse option \<Rightarrow> string" where
  "TaskStatusResponse_GetStatus x = (case x of Some m \<Rightarrow> Status m | None \<Rightarrow> [])"

definition TaskStatusResponse_GetResult :: "TaskStatusResponse option \<Rightarrow> TaskResult option" where
  "TaskStatusResponse_GetResult x = (case x of Some m \<Rightarrow> StatusResult m | None \<Rightarrow> None)"

definition WorkerMessage_GetWorkerId :: "WorkerMessage option \<Rightarrow> string" where
  "WorkerMessage_GetWorkerId x = (case x of Some m \<Rightarrow> MessageWorkerId m | None \<Rightarrow> [])"

definition WorkerMessage_GetPayload :: "WorkerMessage option \<Rightarrow> WorkerMessage_Payload option" where
  "WorkerMessage_GetPayload x = (case x of Some m \<Rightarrow> WorkerPayload m | None \<Rightarrow> None)"

definition OrchestratorMessage_GetPayload :: "OrchestratorMessage option \<Rightarrow> OrchestratorMessage_Payload option" where
  "OrchestratorMessage_GetPayload x = (case x of Some m \<Rightarrow> OrchestratorPayload m | None \<Rightarrow> None)"

definition WorkerRegistration_GetWorkerId :: "WorkerRegistration option \<Rightarrow> string" where
  "WorkerRegistration_GetWorkerId x = (case x of Some m \<Rightarrow> RegistrationWorkerId m | None \<Rightarrow> [])"

definition WorkerRegistration_GetCapabilities :: "WorkerRegistration option \<Rightarrow> string list" where
  "WorkerRegistration_GetCapabilities x = (case x of Some m \<Rightarrow> RegistrationCapabilities m | None \<Rightarrow> [])"

definition Heartbeat_GetWorkerId :: "Heartbeat option \<Rightarrow> string" where
  "Heartbeat_GetWorkerId x = (case x of Some m \<Rightarrow> HeartbeatWorkerId m | None \<Rightarrow> [])"

definition Heartbeat_GetTimestamp :: "Heartbeat option \<Rightarrow> 64 word" where
  "Heartbeat_GetTimestamp x = (case x of Some m \<Rightarrow> HeartbeatTimestamp m | None \<Rightarrow> 0)"

definition Ack_GetMessage :: "Ack option \<Rightarrow> string" where
  "Ack_GetMessage x = (case x of Some m \<Rightarrow> AckMessage m | None \<Rightarrow> [])"

definition WorkerMessage_GetRegistration :: "WorkerMessage option \<Rightarrow> WorkerRegistration option" where
  "WorkerMessage_GetRegistration x =
     (case x of Some m \<Rightarrow> (case WorkerPayload m of Some (WorkerMessage_Registration p) \<Rightarrow> p | _ \<Rightarrow> None) | None \<Rightarrow> None)"

definition WorkerMessage_GetResult :: "WorkerMessage option \<Rightarrow> TaskResult option" where
  "WorkerMessage_GetResult x =
     (case x of Some m \<Rightarrow> (case WorkerPayload m of Some (WorkerMessage_Result p) \<Rightarrow> p | _ \<Rightarrow> None) | None \<Rightarrow> None)"

definition WorkerMessage_GetHeartbeat :: "WorkerMessage option \<Rightarrow> Heartbeat option" where
  "WorkerMessage_GetHeartbeat x =
     (case x of Some m \<Rightarrow> (case WorkerPayload m of Some (WorkerMessage_Heartbeat p) \<Rightarrow> p | _ \<Rightarrow> None) | None \<Rightarrow> None)"

definition OrchestratorMessage_GetTask :: "OrchestratorMessage option \<Rightarrow> ProtoTask option" where
  "OrchestratorMessage_GetTask x =
     (case x of Some m \<Rightarrow> (case OrchestratorPayload m of Some (OrchestratorMessage_Task p) \<Rightarrow> p | _ \<Rightarrow> None) | None \<Rightarrow> None)"

definition OrchestratorMessage_GetAck :: "OrchestratorMessage option \<Rightarrow> Ack option" where
  "OrchestratorMessage_GetAck x =
     (case x of Some m \<Rightarrow> (case OrchestratorPayload m of Some (OrchestratorMessage_Ack p) \<Rightarrow> p | _ \<Rightarrow> None) | None \<Rightarrow> None)"

lemmas getter_defs = ProtoTask_GetId_def ProtoTask_GetType_def ProtoTask_GetPayload_def
  ProtoTask_GetMetadata_def ProtoTask_GetPriority_def ProtoTask_GetCreatedAt_def
  TaskResult_GetTaskId_def TaskResult_GetSuccess_def TaskResult_GetOutput_def
  TaskResult_GetError_def TaskResult_GetCompletedAt_def SubmitTaskRequest_GetTask_def
  SubmitTaskResponse_GetTaskId_def SubmitTaskResponse_GetAccepted_def
  SubmitTaskResponse_GetMessage_def TaskStatusRequest_GetTaskId_def
  TaskStatusResponse_GetTaskId_def TaskStatusResponse_GetStatus_def
  TaskStatusResponse_GetResult_def WorkerMessage_GetWorkerId_def WorkerMessage_GetPayload_def
  OrchestratorMessage_GetPayload_def WorkerRegistration_GetWorkerId_def
  WorkerRegistration_GetCapabilities_def Heartbeat_GetWorkerId_def Heartbeat_GetTimestamp_def
  Ack_GetMessage_def WorkerMessage_GetRegistration_def WorkerMessage_GetResult_def
  WorkerMessage_GetHeartbeat_def OrchestratorMessage_GetTask_def OrchestratorMessage_GetAck_def

lemmas message_zero_defs = ProtoTask_zero_def TaskResult_zero_def SubmitTaskRequest_zero_def SubmitTaskResponse_zero_def TaskStatusRequest_zero_def
  TaskStatusResponse_zero_def WorkerMessage_zero_def OrchestratorMessage_zero_def WorkerRegistration_zero_def Heartbeat_zero_def Ack_zero_def

text \<open>A message after \<^verbatim>\<open>Reset\<close> reads like no message at all: every getter gives the zero of its type.\<close>

lemma zero_reads_as_nil:
  "ProtoTask_GetId (Some ProtoTask_zero) = ProtoTask_GetId None"
  "ProtoTask_GetType (Some ProtoTask_zero) = ProtoTask_GetType None"
  "ProtoTask_GetPayload (Some ProtoTask_zero) = ProtoTask_GetPayload None"
  "ProtoTask_GetMetadata (Some ProtoTask_zero) = ProtoTask_GetMetadata None"
  "ProtoTask_GetPriority (Some ProtoTask_zero) = ProtoTask_GetPriority None"
  "ProtoTask_GetCreatedAt (Some ProtoTask_zero) = ProtoTask_GetCreatedAt None"
  "TaskResult_GetTaskId (Some TaskResult_zero) = TaskResult_GetTaskId None"
  "TaskResult_GetSuccess (Some TaskResult_zero) = TaskResult_GetSuccess None"
  "TaskResult_GetOutput (Some TaskResult_zero) = TaskResult_GetOutput None"
  "TaskResult_GetError (Some TaskResult_zero) = TaskResult_GetError None"
  "TaskResult_GetCompletedAt (Some TaskResult_zero) = TaskResult_GetCompletedAt None"
  "SubmitTaskRequest_GetTask (Some SubmitTaskRequest_zero) = SubmitTaskRequest_GetTask None"
  "SubmitTaskResponse_GetTaskId (Some SubmitTaskResponse_zero) = SubmitTaskResponse_GetTaskId None"
  "SubmitTaskResponse_GetAccepted (Some SubmitTaskResponse_zero) = SubmitTaskResponse_GetAccepted None"
  "SubmitTaskResponse_GetMessage (Some SubmitTaskResponse_zero) = SubmitTaskResponse_GetMessage None"
  "TaskStatusRequest_GetTaskId (Some TaskStatusRequest_zero) = TaskStatusRequest_GetTaskId None"
  "TaskStatusResponse_GetTaskId (Some TaskStatusResponse_zero) = TaskStatusResponse_GetTaskId None"
  "TaskStatusResponse_GetStatus (Some TaskStatusResponse_zero) = TaskStatusResponse_GetStatus None"
  "TaskStatusResponse_GetResult (Some TaskStatusResponse_zero) = TaskStatusResponse_GetResult None"
  "WorkerMessage_GetWorkerId (Some WorkerMessage_zero) = WorkerMessage_GetWorkerId None"
  "WorkerMessage_GetPayload (Some WorkerMessage_zero) = WorkerMessage_GetPayload None"
  "OrchestratorMessage_GetPayload (Some OrchestratorMessage_zero) = OrchestratorMessage_GetPayload None"
  "WorkerRegistration_GetWorkerId (Some WorkerRegistration_zero) = WorkerRegistration_GetWorkerId None"
  "WorkerRegistration_GetCapabilities (Some WorkerRegistration_zero) = WorkerRegistration_GetCapabilities None"
  "Heartbeat_GetWorkerId (Some Heartbeat_zero) = Heartbeat_GetWorkerId None"
  "Heartbeat_GetTimestamp (Some Heartbeat_zero) = Heartbeat_GetTimestamp None"
  "Ack_GetMessage (Some Ack_zero) = Ack_GetMessage None"
  "WorkerMessage_GetRegistration (Some WorkerMessage_zero) = WorkerMessage_GetRegistration None"
  "WorkerMessage_GetResult (Some WorkerMessage_zero) = WorkerMessage_GetResult None"
  "WorkerMessage_GetHeartbeat (Some WorkerMessage_zero) = WorkerMessage_GetHeartbeat None"
  "OrchestratorMessage_GetTask (Some OrchestratorMessage_zero) = OrchestratorMessage_GetTask None"
  "OrchestratorMessage_GetAck (Some OrchestratorMessage_zero) = OrchestratorMessage_GetAck None"
  by (simp_all add: getter_defs message_zero_defs)

section \<open>Errors of a remote call\<close>

text \<open>\<^verbatim>\<open>status.Error(code, message)\<close>, with the codes the services and the generated stubs use.\<close>

datatype Code = InvalidArgument | NotFound | Unimplemented | Internal

type_synonym 'a rpc_result = "(Code \<times> string) + 'a"

end
