(* ===== verification/Gateway_Service.thy ===== *)
theory Gateway_Service
  imports Engine_Recovery Proto_Messages
begin

text \<open>
  The gateway service, \<^verbatim>\<open>src/internal/gateway/gateway.go\<close>: the submission and status calls of
  clients and the processing of worker results, all over one execution engine. The engine is the
  state; \<^verbatim>\<open>t.ID\<close> and the other reads go through the pointer the engine returned.

  What the gateway relies on is the locale \<open>task_store\<close>: creation, lookup and the two ways to
  finish a task. It is interpreted on the execution engine.
\<close>

section \<open>GatewayService\<close>

definition workflow_id :: "time \<Rightarrow> string" where
  "workflow_id unixNano = ''workflow-'' @ show_int unixNano"

definition SubmitTask ::
    "'w Logger \<Rightarrow> 'p Manager \<Rightarrow> clock \<Rightarrow> ('w, 'p) Engine \<Rightarrow> SubmitTaskRequest option \<Rightarrow>
     SubmitTaskResponse rpc_result \<times> ('w, 'p) Engine" where
  "SubmitTask L P clk e req =
     (case req of
        None \<Rightarrow> (Inl (InvalidArgument, ''task cannot be nil''), e)
      | Some r \<Rightarrow>
          (case RequestTask r of
             None \<Rightarrow> (Inl (InvalidArgument, ''task cannot be nil''), e)
           | Some t \<Rightarrow>
               if Type t = [] then (Inl (InvalidArgument, ''task type is required''), e)
               else if Id t = [] then (Inl (InvalidArgument, ''task ID is required''), e)
               else
                 let workflowID = workflow_id (clk 0)
                 in case CreateTask L P (\<lambda>i. clk (1 + i)) e workflowID (Type t) (TaskPayload t) of
                      (Inl err, e) \<Rightarrow> (Inl (Internal, ''failed to create task: '' @ err), e)
                    | (Inr p, e) \<Rightarrow>
                        (Inr \<lparr>ResponseTaskId = ID (objects e p), Accepted = True,
                              Message = ''Task accepted for execution''\<rparr>, e)))"

text \<open>
  \<^verbatim>\<open>UpdatedAt.Unix()\<close> is the time in whole seconds. The test for a nil task after a
  successful lookup never applies: the engine returns a pointer.
\<close>

definition GetTaskStatus ::
    "('w, 'p) Engine \<Rightarrow> TaskStatusRequest option \<Rightarrow> TaskStatusResponse rpc_result \<times> ('w, 'p) Engine" where
  "GetTaskStatus e req =
     (case req of
        None \<Rightarrow> (Inl (InvalidArgument, ''task ID is required''), e)
      | Some r \<Rightarrow>
          if RequestTaskId r = [] then (Inl (InvalidArgument, ''task ID is required''), e)
          else
            case GetTask e (RequestTaskId r) of
              (Inl err, e) \<Rightarrow> (Inl (NotFound, ''task not found: '' @ err), e)
            | (Inr p, e) \<Rightarrow>
                let t = objects e p;
                    resp = \<lparr>StatusTaskId = ID t, Status = State t, StatusResult = None\<rparr>;
                    resp = (if State t = StateCompleted \<or> State t = StateFailed
                            then resp\<lparr>StatusResult :=
                                   Some \<lparr>ResultTaskId = ID t, Success = (State t = StateCompleted),
                                         Output = Result t, ResultError = Error t,
                                         ResultCompletedAt = unix_seconds (UpdatedAt t)\<rparr>\<rparr>
                            else resp)
                in (Inr resp, e))"

section \<open>WorkerServiceHandler\<close>

record WorkerConnection =
  WorkerID :: string
  Capabilities :: "string list"
  ConnectedAt :: time
  LastSeen :: time
  TasksInFlight :: goint

record WorkerServiceHandler =
  workers :: "string \<rightharpoonup> WorkerConnection"

definition NewWorkerServiceHandler :: WorkerServiceHandler where
  "NewWorkerServiceHandler = \<lparr>workers = Map.empty\<rparr>"

text \<open>The placeholder for the worker stream returns without reading from it.\<close>

definition WorkerServiceHandler_StreamTasks :: "WorkerServiceHandler \<Rightarrow> error option \<times> WorkerServiceHandler" where
  "WorkerServiceHandler_StreamTasks wsh = (None, wsh)"

definition handleTaskResult ::
    "'w Logger \<Rightarrow> clock \<Rightarrow> ('w, 'p) Engine \<Rightarrow> TaskResult option \<Rightarrow> ('w, 'p) Engine" where
  "handleTaskResult L clk e result =
     (case result of
        None \<Rightarrow> e
      | Some r \<Rightarrow>
          if Success r then snd (CompleteTask L clk e (ResultTaskId r) (Output r))
          else snd (FailTask L clk e (ResultTaskId r) (ResultError r)))"

record WorkerStatistics =
  total_workers :: nat
  worker_stats :: "WorkerConnection list"

definition GetWorkerStats :: "string list \<Rightarrow> WorkerServiceHandler \<Rightarrow> WorkerStatistics" where
  "GetWorkerStats order wsh =
     \<lparr>total_workers = length order, worker_stats = List.map_filter (workers wsh) order\<rparr>"

section \<open>The contract of the task store\<close>

locale task_store =
  fixes ok :: "'e \<Rightarrow> bool"
    and view :: "'e \<Rightarrow> string \<rightharpoonup> Task"
    and create :: "clock \<Rightarrow> string \<Rightarrow> string \<Rightarrow> bytes \<Rightarrow> 'e \<Rightarrow> Task result \<times> 'e"
    and lookup :: "string \<Rightarrow> 'e \<Rightarrow> Task result \<times> 'e"
    and complete :: "clock \<Rightarrow> string \<Rightarrow> bytes \<Rightarrow> 'e \<Rightarrow> Task result \<times> 'e"
    and failure :: "clock \<Rightarrow> string \<Rightarrow> string \<Rightarrow> 'e \<Rightarrow> Task result \<times> 'e"
  assumes create_law: "ok e \<Longrightarrow> w \<noteq> [] \<Longrightarrow> n \<noteq> [] \<Longrightarrow>
      \<exists>t e'. create clk w n d e = (Inr t, e') \<and> view e' = (view e)(ID t \<mapsto> t) \<and> ID t \<noteq> [] \<and>
        State t = StatePending \<and> WorkflowID t = w \<and> Name t = n \<and> Payload t = d"
    and lookup_law: "i \<noteq> [] \<Longrightarrow> view e i = Some t \<Longrightarrow>
      \<exists>e'. lookup i e = (Inr t, e') \<and> (ok e \<longrightarrow> ok e' \<and> view e' = view e)"
    and lookup_missing: "view e i = None \<Longrightarrow> \<exists>err. lookup i e = (Inl err, e)"
    and complete_law: "ok e \<Longrightarrow> view e i = Some t \<Longrightarrow> State t = StateDispatched \<Longrightarrow>
      \<exists>u e'. complete clk i r e = (Inr u, e') \<and> ok e' \<and> view e' = (view e)(i \<mapsto> u) \<and> ID u = i \<and>
        State u = StateCompleted \<and> Result u = r \<and> Error u = Error t \<and> UpdatedAt u = clk 1"
    and failure_law: "ok e \<Longrightarrow> view e i = Some t \<Longrightarrow> State t = StateDispatched \<Longrightarrow>
      \<exists>u e'. failure clk i m e = (Inr u, e') \<and> ok e' \<and> view e' = (view e)(i \<mapsto> u) \<and> ID u = i \<and>
        State u = StateFailed \<and> Error u = m \<and> Result u = Result t \<and> UpdatedAt u = clk 1"
    and finish_refused: "ok e \<Longrightarrow> pred_option (\<lambda>t. State t \<noteq> StateDispatched) (view e i) \<Longrightarrow>
      (\<exists>err. complete clk i r e = (Inl err, e)) \<and> (\<exists>err. failure clk i m e = (Inl err, e))"
    and id_nonempty: "ok e \<Longrightarrow> view e i = Some t \<Longrightarrow> i \<noteq> []"
begin

definition report :: "clock \<Rightarrow> bool \<Rightarrow> string \<Rightarrow> bytes \<Rightarrow> string \<Rightarrow> 'e \<Rightarrow> 'e" where
  "report clk success i r m e = (if success then snd (complete clk i r e) else snd (failure clk i m e))"

lemma report_ignored:
  assumes "ok e" and "pred_option (\<lambda>t. State t \<noteq> StateDispatched) (view e i)"
  shows "report clk success i r m e = e"
  using finish_refused [OF assms, of clk r m] by (auto simp: report_def)

lemma report_effect:
  assumes "ok e" and "view e i = Some t" and "State t = StateDispatched"
  shows "\<exists>u. ok (report clk success i r m e) \<and> view (report clk success i r m e) = (view e)(i \<mapsto> u) \<and>
    ID u = i \<and> State u = (if success then StateCompleted else StateFailed) \<and> UpdatedAt u = clk 1 \<and>
    (if success then Result u = r \<and> Error u = Error t else Error u = m \<and> Result u = Result t)"
proof (cases success)
  case True
  with complete_law [OF assms, of clk r] show ?thesis by (auto simp: report_def)
next
  case False
  with failure_law [OF assms, of clk m] show ?thesis by (auto simp: report_def)
qed

text \<open>Only the first result counts, for any task in any state.\<close>

lemma report_twice:
  assumes "ok e"
  shows "report clk' success' i r' m' (report clk success i r m e) = report clk success i r m e"
proof (cases "pred_option (\<lambda>t. State t \<noteq> StateDispatched) (view e i)")
  case True
  with assms show ?thesis by (simp add: report_ignored)
next
  case False
  then obtain t where t: "view e i = Some t" "State t = StateDispatched"
    by (cases "view e i") auto
  from report_effect [OF assms t, of clk success r m] obtain u where
    u: "ok (report clk success i r m e)" "view (report clk success i r m e) i = Some u"
      "State u = (if success then StateCompleted else StateFailed)" by fastforce
  have "State u \<noteq> StateDispatched" using u(3) by (cases success) simp_all
  with u show ?thesis by (simp add: report_ignored)
qed

lemma report_lookup:
  assumes "ok e" and "view e i = Some t" and "State t = StateDispatched"
  shows "\<exists>u e'. lookup i (report clk success i r m e) = (Inr u, e') \<and> ID u = i \<and>
    State u = (if success then StateCompleted else StateFailed) \<and> UpdatedAt u = clk 1 \<and>
    (if success then Result u = r \<and> Error u = Error t else Error u = m \<and> Result u = Result t)"
  using report_effect [OF assms, of clk success r m] lookup_law [OF id_nonempty [OF assms(1,2)]]
  by (metis fun_upd_same)

end

text \<open>The engine as a task store: the operations with the task read through the pointer.\<close>

definition deref :: "addr result \<times> ('w, 'p) Engine \<Rightarrow> Task result \<times> ('w, 'p) Engine" where
  "deref x = (case x of (Inl err, e) \<Rightarrow> (Inl err, e) | (Inr p, e) \<Rightarrow> (Inr (objects e p), e))"

lemma deref_simps [simp]:
  "deref (Inl err, e) = (Inl err, e)" "deref (Inr p, e) = (Inr (objects e p), e)"
  "snd (deref x) = snd x"
  by (simp_all add: deref_def split: prod.split sum.split)

interpretation es: task_store engine_reach task_of
  "\<lambda>clk w n d e. deref (CreateTask wal_m pm_m clk e w n d)" "\<lambda>i e. deref (GetTask e i)"
  "\<lambda>clk i r e. deref (CompleteTask wal_m clk e i r)" "\<lambda>clk i m e. deref (FailTask wal_m clk e i m)"
proof (unfold_locales, goal_cases)
  case (1 e w n clk d)
  from create_view [OF 1 refl, of clk d] show ?case by (fastforce simp: task_id_def)
next
  case (2 i e t)
  then obtain a where a: "tasks e i = Some a" "t = objects e a" by (auto simp: task_of_def)
  have "deref (GetTask e i) = (Inr t, snd (GetTask e i))"
    using a 2(1) by (simp add: GetTask_def split_beta)
  moreover have "engine_reach e \<longrightarrow> engine_reach (snd (GetTask e i)) \<and> task_of (snd (GetTask e i)) = task_of e"
    using engine_reach.step [OF _ fresh_step_get, of e i] grows_task_of [OF engine_reach_inv GetTask_grows]
    by blast
  ultimately show ?case by blast
next
  case (3 e i)
  then show ?case by (auto simp: GetTask_def task_of_def)
next
  case (4 e i t clk r)
  have "ID t = i" using engine_inv_task_of [OF engine_reach_inv [OF 4(1)] 4(2)] by simp
  with complete_view [OF 4 refl, of clk r] 4(3) show ?case by (auto simp: TransitionTo_effect)
next
  case (5 e i t clk m)
  have "ID t = i" using engine_inv_task_of [OF engine_reach_inv [OF 5(1)] 5(2)] by simp
  with fail_view [OF 5 refl, of clk m] 5(3) show ?case by (auto simp: TransitionTo_effect)
next
  case (6 e i clk r m)
  then show ?case
    by (cases "tasks e i") (auto simp: CompleteTask_def FailTask_def task_of_def)
next
  case (7 e i t)
  then show ?case using engine_inv_task_of [OF engine_reach_inv] by blast
qed

lemma handleTaskResult_report:
  "handleTaskResult wal_m clk e (Some x) =
     es.report clk (Success x) (ResultTaskId x) (Output x) (ResultError x) e"
  by (simp add: handleTaskResult_def es.report_def)

section \<open>Calls over the store\<close>

definition status_response :: "Task \<Rightarrow> TaskStatusResponse" where
  "status_response t =
     \<lparr>StatusTaskId = ID t, Status = State t,
      StatusResult =
        (if State t = StateCompleted \<or> State t = StateFailed
         then Some \<lparr>ResultTaskId = ID t, Success = (State t = StateCompleted), Output = Result t,
                    ResultError = Error t, ResultCompletedAt = unix_seconds (UpdatedAt t)\<rparr>
         else None)\<rparr>"

lemma GetTaskStatus_deref:
  "i \<noteq> [] \<Longrightarrow> GetTaskStatus e (Some \<lparr>RequestTaskId = i\<rparr>) =
     (case deref (GetTask e i) of
        (Inl err, e) \<Rightarrow> (Inl (NotFound, ''task not found: '' @ err), e)
      | (Inr t, e) \<Rightarrow> (Inr (status_response t), e))"
  by (simp add: GetTaskStatus_def deref_def status_response_def Let_def split: prod.split sum.split)

lemma SubmitTask_deref:
  "Type t \<noteq> [] \<Longrightarrow> Id t \<noteq> [] \<Longrightarrow>
   SubmitTask L P clk e (Some \<lparr>RequestTask = Some t\<rparr>) =
     (case deref (CreateTask L P (\<lambda>i. clk (1 + i)) e (workflow_id (clk 0)) (Type t) (TaskPayload t)) of
        (Inl err, e) \<Rightarrow> (Inl (Internal, ''failed to create task: '' @ err), e)
      | (Inr u, e) \<Rightarrow>
          (Inr \<lparr>ResponseTaskId = ID u, Accepted = True, Message = ''Task accepted for execution''\<rparr>, e))"
  by (simp add: SubmitTask_def deref_def Let_def split: prod.split sum.split)

section \<open>Properties of the gateway\<close>

lemma SubmitTask_creates:
  assumes "engine_reach e" and "Type t \<noteq> []" and "Id t \<noteq> []"
  obtains u e1 where
    "SubmitTask wal_m pm_m clk e (Some \<lparr>RequestTask = Some t\<rparr>) =
      (Inr \<lparr>ResponseTaskId = ID u, Accepted = True, Message = ''Task accepted for execution''\<rparr>, e1)"
    and "e1 = snd (CreateTask wal_m pm_m (\<lambda>i. clk (1 + i)) e (workflow_id (clk 0)) (Type t) (TaskPayload t))"
    and "task_of e1 = (task_of e)(ID u \<mapsto> u)" and "ID u = task_id (workflow_id (clk 0)) (clk 1)"
    and "ID u \<noteq> []" "State u = StatePending" "Name u = Type t" "Payload u = TaskPayload t"
proof -
  have w: "workflow_id (clk 0) \<noteq> []" by (simp add: workflow_id_def)
  from create_view [OF assms(1) w assms(2) refl, of "\<lambda>i. clk (1 + i)" "TaskPayload t"] obtain u e1 where
    c: "CreateTask wal_m pm_m (\<lambda>i. clk (1 + i)) e (workflow_id (clk 0)) (Type t) (TaskPayload t) = (Inr (next_addr e), e1)"
      "objects e1 (next_addr e) = u" "task_of e1 = (task_of e)(ID u \<mapsto> u)"
      "ID u = task_id (workflow_id (clk 0)) (clk 1)"
      "State u = StatePending" "Name u = Type t" "Payload u = TaskPayload t" by auto
  have "SubmitTask wal_m pm_m clk e (Some \<lparr>RequestTask = Some t\<rparr>) =
      (Inr \<lparr>ResponseTaskId = ID u, Accepted = True, Message = ''Task accepted for execution''\<rparr>, e1)"
    unfolding SubmitTask_deref [OF assms(2,3)] c(1) using c(2) by simp
  moreover have "ID u \<noteq> []" using c(4) by (simp add: task_id_def)
  ultimately show ?thesis using c by (intro that) simp_all
qed

lemma GetTaskStatus_known:
  fixes e :: "(WalLogger, DefaultManager) Engine"
  assumes "task_of e i = Some u" and "i \<noteq> []"
  shows "\<exists>e'. GetTaskStatus e (Some \<lparr>RequestTaskId = i\<rparr>) = (Inr (status_response u), e')"
  using es.lookup_law [OF assms(2,1)] by (auto simp: GetTaskStatus_deref [OF assms(2)])

text \<open>C37: a submission with a task type and an identifier is always accepted, the engine then holds a task of
  that type and payload under the identifier of the response, and asking for its status answers
  PENDING without a result.\<close>
theorem submit_then_status:
  assumes "engine_reach e" and "Type t \<noteq> []" and "Id t \<noteq> []"
  shows "\<exists>resp e1 u st e2.
    SubmitTask wal_m pm_m clk e (Some \<lparr>RequestTask = Some t\<rparr>) = (Inr resp, e1) \<and> Accepted resp \<and>
    task_of e1 = (task_of e)(ResponseTaskId resp \<mapsto> u) \<and> Name u = Type t \<and> Payload u = TaskPayload t \<and>
    GetTaskStatus e1 (Some \<lparr>RequestTaskId = ResponseTaskId resp\<rparr>) = (Inr st, e2) \<and>
    StatusTaskId st = ResponseTaskId resp \<and> Status st = StatePending \<and> StatusResult st = None"
proof -
  from SubmitTask_creates [OF assms, of clk] obtain u e1 where
    c: "SubmitTask wal_m pm_m clk e (Some \<lparr>RequestTask = Some t\<rparr>) =
        (Inr \<lparr>ResponseTaskId = ID u, Accepted = True, Message = ''Task accepted for execution''\<rparr>, e1)"
    and u: "task_of e1 = (task_of e)(ID u \<mapsto> u)" "ID u \<noteq> []" "State u = StatePending" "Name u = Type t"
      "Payload u = TaskPayload t" .
  from u have "task_of e1 (ID u) = Some u" by simp
  from GetTaskStatus_known [OF this u(2)] obtain e2 where
    "GetTaskStatus e1 (Some \<lparr>RequestTaskId = ID u\<rparr>) = (Inr (status_response u), e2)" by blast
  moreover have "Status (status_response u) = StatePending \<and> StatusResult (status_response u) = None \<and>
      StatusTaskId (status_response u) = ID u" using u(3) by (simp add: status_response_def)
  ultimately show ?thesis using c u by fastforce
qed

definition sample_task :: ProtoTask where
  "sample_task = \<lparr>Id = ''c1'', Type = ''email'', TaskPayload = Some [7], Metadata = Map.empty, Priority = 0,
                  TaskCreatedAt = 0\<rparr>"

theorem submit_then_status_witness:
  "\<exists>resp e1 st e2. SubmitTask wal_m pm_m (\<lambda>_. 5) eng0 (Some \<lparr>RequestTask = Some sample_task\<rparr>) = (Inr resp, e1) \<and>
     Accepted resp \<and> GetTaskStatus e1 (Some \<lparr>RequestTaskId = ResponseTaskId resp\<rparr>) = (Inr st, e2) \<and>
     Status st = StatePending"
  using submit_then_status [OF eng0_reach, of sample_task "\<lambda>_. 5"] by (auto simp: sample_task_def)

text \<open>The identifier a client must send is required and then ignored, together with metadata, priority and
  creation time: two submissions that agree on type and payload have the same response and effect.\<close>
lemma submit_ignores_identifier:
  assumes "Id t \<noteq> []" and "Id t' \<noteq> []" and "Type t' = Type t" and "TaskPayload t' = TaskPayload t"
  shows "SubmitTask L P clk e (Some \<lparr>RequestTask = Some t'\<rparr>) =
    SubmitTask L P clk e (Some \<lparr>RequestTask = Some t\<rparr>)"
  using assms by (simp add: SubmitTask_def)

lemma handle_result_status:
  assumes "engine_reach e" and "task_of e (ResultTaskId x) = Some t" and "State t = StateDispatched"
  shows "\<exists>st res e'.
    GetTaskStatus (handleTaskResult wal_m clk e (Some x)) (Some \<lparr>RequestTaskId = ResultTaskId x\<rparr>) = (Inr st, e') \<and>
    StatusTaskId st = ResultTaskId x \<and> Status st = (if Success x then StateCompleted else StateFailed) \<and>
    StatusResult st = Some res \<and> ResultTaskId res = ResultTaskId x \<and> Success res = Success x \<and>
    (Success x \<longrightarrow> Output res = Output x) \<and> (\<not> Success x \<longrightarrow> ResultError res = ResultError x) \<and>
    ResultCompletedAt res = unix_seconds (clk 1)"
proof -
  have ne: "ResultTaskId x \<noteq> []" using es.id_nonempty [OF assms(1,2)] .
  from es.report_lookup [OF assms, of clk "Success x" "Output x" "ResultError x"] obtain u e' where
    u: "deref (GetTask (handleTaskResult wal_m clk e (Some x)) (ResultTaskId x)) = (Inr u, e')"
      "ID u = ResultTaskId x" "State u = (if Success x then StateCompleted else StateFailed)"
      "UpdatedAt u = clk 1" "if Success x then Result u = Output x else Error u = ResultError x"
    unfolding handleTaskResult_report by metis
  have "GetTaskStatus (handleTaskResult wal_m clk e (Some x)) (Some \<lparr>RequestTaskId = ResultTaskId x\<rparr>) =
      (Inr (status_response u), e')" using u(1) by (simp add: GetTaskStatus_deref [OF ne])
  with u(2-5) show ?thesis by (cases "Success x") (simp_all add: status_response_def)
qed

text \<open>A worker's result for a DISPATCHED task is what a client then reads: status COMPLETED with the output,
  or FAILED with the error text, and the second of its arrival as completion time.\<close>
lemma result_then_status:
  assumes "engine_reach e" and "task_of e (ResultTaskId x) = Some t" and "State t = StateDispatched"
  shows "\<exists>st res e'.
    GetTaskStatus (handleTaskResult wal_m clk e (Some x)) (Some \<lparr>RequestTaskId = ResultTaskId x\<rparr>) = (Inr st, e') \<and>
    StatusTaskId st = ResultTaskId x \<and> Status st = (if Success x then StateCompleted else StateFailed) \<and>
    StatusResult st = Some res \<and> ResultTaskId res = ResultTaskId x \<and> Success res = Success x \<and>
    (Success x \<longrightarrow> Output res = Output x) \<and> (\<not> Success x \<longrightarrow> ResultError res = ResultError x) \<and>
    ResultCompletedAt res = unix_seconds (clk 1)"
  by (rule handle_result_status [OF assms])

definition ok_result :: TaskResult where
  "ok_result = \<lparr>ResultTaskId = id1, Success = True, Output = Some [42], ResultError = [], ResultCompletedAt = 0\<rparr>"

text \<open>C33: results are processed at most once and only for DISPATCHED tasks: a result for an unknown task or a task in
  any other state changes nothing, and after one result any further result for the same task changes
  nothing, whatever it says.\<close>
theorem results_processed_once:
  assumes "engine_reach e"
  shows "(pred_option (\<lambda>t. State t \<noteq> StateDispatched) (task_of e (ResultTaskId x)) \<longrightarrow>
      handleTaskResult wal_m clk e (Some x) = e) \<and>
    (ResultTaskId y = ResultTaskId x \<longrightarrow>
      handleTaskResult wal_m clk' (handleTaskResult wal_m clk e (Some x)) (Some y) =
      handleTaskResult wal_m clk e (Some x))"
  using es.report_ignored [OF assms] es.report_twice [OF assms] by (simp add: handleTaskResult_report)

theorem results_processed_once_witness:
  "handleTaskResult wal_m (\<lambda>_. 9) eng1 (Some ok_result) = eng1 \<and>
   handleTaskResult wal_m (\<lambda>_. 9) (handleTaskResult wal_m (\<lambda>_. 8) eng3 (Some ok_result))
      (Some (ok_result\<lparr>Success := False\<rparr>)) = handleTaskResult wal_m (\<lambda>_. 8) eng3 (Some ok_result)"
proof -
  from eng1_view obtain t where "task_of eng1 id1 = Some t" "State t = StatePending" by auto
  then have "pred_option (\<lambda>t. State t \<noteq> StateDispatched) (task_of eng1 (ResultTaskId ok_result))"
    by (simp add: ok_result_def)
  moreover have "ResultTaskId (ok_result\<lparr>Success := False\<rparr>) = ResultTaskId ok_result" by simp
  ultimately show ?thesis
    using results_processed_once [OF eng1_reach, of ok_result "\<lambda>_. 9"]
      results_processed_once [OF eng3_reach, of ok_result "\<lambda>_. 8" "ok_result\<lparr>Success := False\<rparr>" "\<lambda>_. 9"]
    by blast
qed

end
