(* ===== verification/Go_Float.thy ===== *)
theory Go_Float
  imports Complex_Main "HOL-Library.Log_Nat" Go_Prelude
begin

text \<open>
  The \<^verbatim>\<open>float64\<close> arithmetic that scales a duration. A finite \<^verbatim>\<open>float64\<close> is the rational
  number it stands for; an operation computes exactly and then rounds to the nearest number with a
  53-bit significand, ties to even. Overflow to infinity and subnormal results are out of reach for
  the durations and factors in use and are left out.
\<close>

definition ilog2 :: "rat \<Rightarrow> int" where
  "ilog2 x = (if 1 \<le> x then bitlen \<lfloor>x\<rfloor> - 1 else - bitlen (\<lceil>1 / x\<rceil> - 1))"

definition round_even :: "rat \<Rightarrow> int" where
  "round_even y =
     (let f = \<lfloor>y\<rfloor>; d = y - of_int f in
      if d < 1 / 2 then f else if d > 1 / 2 then f + 1 else if even f then f else f + 1)"

definition round_f64 :: "rat \<Rightarrow> rat" where
  "round_f64 x =
     (if x = 0 then 0
      else let k = 52 - ilog2 \<bar>x\<bar> in of_int (round_even (x * 2 powi k)) * 2 powi (- k))"

definition f64_of_int64 :: "goint \<Rightarrow> rat" where
  "f64_of_int64 d = round_f64 (of_int (sint d))"

definition f64_mult :: "rat \<Rightarrow> rat \<Rightarrow> rat" where
  "f64_mult a b = round_f64 (a * b)"

text \<open>The conversion back drops the fraction (of a value in the range of \<^verbatim>\<open>int64\<close>).\<close>

definition int64_of_f64 :: "rat \<Rightarrow> goint" where
  "int64_of_f64 x = of_int (if 0 \<le> x then \<lfloor>x\<rfloor> else \<lceil>x\<rceil>)"

section \<open>Half-integers below 2 to the 52 are exact\<close>

lemma round_even_int [simp]: "round_even (of_int n) = n"
  by (simp add: round_even_def)

lemma round_f64_exact:
  assumes "x * 2 powi (52 - ilog2 \<bar>x\<bar>) = of_int n"
  shows "round_f64 x = x"
  using assms by (simp add: round_f64_def Let_def power_int_minus field_simps)

lemma ilog2_le_51:
  assumes "0 < x" and "x < 2 ^ 52"
  shows "ilog2 x \<le> 51"
proof (cases "1 \<le> x")
  case True
  then have "1 \<le> \<lfloor>x\<rfloor>" by simp
  moreover have "\<lfloor>x\<rfloor> < 2 ^ 52" using assms(2) by (simp add: floor_less_iff)
  ultimately have "bitlen \<lfloor>x\<rfloor> \<le> 52" by (simp add: bitlen_le_iff_power)
  with True show ?thesis by (simp add: ilog2_def)
next
  case False
  with assms show ?thesis using bitlen_nonneg [of "\<lceil>1 / x\<rceil> - 1"] by (simp add: ilog2_def)
qed

lemma round_f64_half:
  assumes "\<bar>k\<bar> < 2 ^ 53"
  shows "round_f64 (of_int k / 2) = of_int k / 2"
proof (cases "k = 0")
  case True
  then show ?thesis by (simp add: round_f64_def)
next
  case False
  have "\<bar>of_int k / 2 :: rat\<bar> < 2 ^ 52" using assms by (simp add: abs_less_iff)
  moreover have "0 < \<bar>of_int k / 2 :: rat\<bar>" using False by simp
  ultimately have e: "ilog2 \<bar>of_int k / 2\<bar> \<le> 51" by (rule ilog2_le_51 [rotated])
  define m where "m = nat (51 - ilog2 \<bar>of_int k / 2\<bar>)"
  have "52 - ilog2 \<bar>of_int k / 2\<bar> = int (Suc m)" using e by (simp add: m_def)
  then have "of_int k / 2 * 2 powi (52 - ilog2 \<bar>of_int k / 2\<bar>) = (of_int (k * 2 ^ m) :: rat)"
    by (simp only: power_int_of_nat) simp
  then show ?thesis by (rule round_f64_exact)
qed

lemma round_f64_int: "\<bar>k\<bar> < 2 ^ 52 \<Longrightarrow> round_f64 (of_int k) = of_int k"
  using round_f64_half [of "2 * k"] by simp

end
