(* ===== verification/Stream_Manager.thy ===== *)
theory Stream_Manager
  imports Go_Float "HOL-Library.Monad_Syntax"
begin

text \<open>
  The client side of a stream, \<^verbatim>\<open>src/internal/streaming/stream.go\<close>: connecting, reconnecting with
  growing pauses, and closing.

  \<^item> The manager calls back into its client while it may hold its own lock, so the lock is part
    of the state: \<open>mu\<close> says that it is held for writing. An operation is a function into
    \<open>option\<close>, and \<open>None\<close> means that it waits forever for a lock that its own goroutine
    holds. Read locks are released before anything else happens, so taking one only waits.
  \<^item> The state is the manager and the state \<open>'u\<close> of its client, which the callbacks change.
    A connection is a value of type \<open>'c\<close>; the outcome of \<^verbatim>\<open>grpc.Dial\<close>, of closing a
    connection and of waiting for a timer enter as arguments.
  \<^item> \<open>loops\<close> counts the goroutines started with \<^verbatim>\<open>go sm.reconnectionLoop\<close>.
\<close>

section \<open>Configuration\<close>

record StreamConfig =
  InitialBackoff :: goint
  MaxBackoff :: goint
  BackoffMultiplier :: rat
  HeartbeatInterval :: goint
  HeartbeatTimeout :: goint
  MaxRetries :: goint

text \<open>Durations are nanoseconds.\<close>

definition DefaultStreamConfig :: StreamConfig where
  "DefaultStreamConfig =
     \<lparr>InitialBackoff = 100000000, MaxBackoff = 30000000000, BackoffMultiplier = 3 / 2,
      HeartbeatInterval = 5000000000, HeartbeatTimeout = 10000000000, MaxRetries = 0\<rparr>"

section \<open>State and lock\<close>

record 'c StreamManager =
  config :: StreamConfig
  mu :: bool
  conn :: "'c option"
  isConnected :: bool
  retryCount :: goint
  lastConnectTime :: time
  ctx_done :: bool
  done_closed :: bool
  loops :: nat

record ('c, 'u) Callbacks =
  onConnected :: "('c StreamManager \<times> 'u \<Rightarrow> (error option \<times> 'c StreamManager \<times> 'u) option) option"
  onDisconnected :: "('c StreamManager \<times> 'u \<Rightarrow> ('c StreamManager \<times> 'u) option) option"
  onError :: "(error \<Rightarrow> 'c StreamManager \<times> 'u \<Rightarrow> ('c StreamManager \<times> 'u) option) option"

definition NewStreamManager :: "StreamConfig \<Rightarrow> 'c StreamManager" where
  "NewStreamManager cfg =
     \<lparr>config = cfg, mu = False, conn = None, isConnected = False, retryCount = 0, lastConnectTime = zero_time,
      ctx_done = False, done_closed = False, loops = 0\<rparr>"

definition lock :: "'c StreamManager \<Rightarrow> 'c StreamManager option" where
  "lock sm = (if mu sm then None else Some (sm\<lparr>mu := True\<rparr>))"

definition unlock :: "'c StreamManager \<Rightarrow> 'c StreamManager" where
  "unlock sm = sm\<lparr>mu := False\<rparr>"

definition rlock :: "'c StreamManager \<Rightarrow> 'c StreamManager option" where
  "rlock sm = (if mu sm then None else Some sm)"

definition callError :: "('c, 'u) Callbacks \<Rightarrow> error \<Rightarrow> 'c StreamManager \<times> 'u \<Rightarrow> ('c StreamManager \<times> 'u) option" where
  "callError cb err s = (case onError cb of None \<Rightarrow> Some s | Some f \<Rightarrow> f err s)"

definition callConnected ::
    "('c, 'u) Callbacks \<Rightarrow> 'c StreamManager \<times> 'u \<Rightarrow> (error option \<times> 'c StreamManager \<times> 'u) option" where
  "callConnected cb s = (case onConnected cb of None \<Rightarrow> Some (None, s) | Some f \<Rightarrow> f s)"

section \<open>Operations\<close>

definition SetCallbacks ::
    "('c, 'u) Callbacks \<Rightarrow> 'c StreamManager \<Rightarrow> (('c, 'u) Callbacks \<times> 'c StreamManager) option" where
  "SetCallbacks cb sm = do { sm \<leftarrow> lock sm; Some (cb, unlock sm) }"

definition established :: "'c \<Rightarrow> time \<Rightarrow> 'c StreamManager \<Rightarrow> 'c StreamManager" where
  "established c now sm =
     sm\<lparr>conn := Some c, isConnected := True, lastConnectTime := now, retryCount := 0\<rparr>"

definition Connect ::
    "('c, 'u) Callbacks \<Rightarrow> 'c result \<Rightarrow> time \<Rightarrow> 'c StreamManager \<times> 'u \<Rightarrow>
     (error option \<times> 'c StreamManager \<times> 'u) option" where
  "Connect cb dial now s =
     do {
       sm \<leftarrow> lock (fst s);
       case dial of
         Inl err \<Rightarrow>
           do { (sm, u) \<leftarrow> callError cb err (sm, snd s); Some (Some err, unlock sm, u) }
       | Inr c \<Rightarrow>
           do {
             (res, sm, u) \<leftarrow> callConnected cb (established c now sm, snd s);
             case res of
               Some err \<Rightarrow> do { (sm, u) \<leftarrow> callError cb err (sm, u); Some (Some err, unlock sm, u) }
             | None \<Rightarrow> Some (None, unlock (sm\<lparr>loops := Suc (loops sm)\<rparr>), u)
           }
     }"

definition GetConnection :: "'c StreamManager \<Rightarrow> 'c result option" where
  "GetConnection sm =
     do {
       sm \<leftarrow> rlock sm;
       case conn sm of
         None \<Rightarrow> Some (Inl ''stream not connected'')
       | Some c \<Rightarrow> Some (if isConnected sm then Inr c else Inl ''stream not connected'')
     }"

definition StreamManager_IsConnected :: "'c StreamManager \<Rightarrow> bool option" where
  "StreamManager_IsConnected sm = do { sm \<leftarrow> rlock sm; Some (isConnected sm) }"

definition markDisconnected ::
    "('c, 'u) Callbacks \<Rightarrow> 'c StreamManager \<times> 'u \<Rightarrow> ('c StreamManager \<times> 'u) option" where
  "markDisconnected cb s =
     do {
       sm \<leftarrow> lock (fst s);
       let wasConnected = isConnected sm;
           s = (unlock (sm\<lparr>isConnected := False\<rparr>), snd s)
       in if wasConnected
          then (case onDisconnected cb of None \<Rightarrow> Some s | Some f \<Rightarrow> f s)
          else Some s
     }"

definition MarkDisconnected ::
    "('c, 'u) Callbacks \<Rightarrow> 'c StreamManager \<times> 'u \<Rightarrow> ('c StreamManager \<times> 'u) option" where
  [simp]: "MarkDisconnected cb s = markDisconnected cb s"

definition next_backoff :: "StreamConfig \<Rightarrow> goint \<Rightarrow> goint" where
  "next_backoff cfg currentBackoff =
     (let newBackoff = int64_of_f64 (f64_mult (f64_of_int64 currentBackoff) (BackoffMultiplier cfg))
      in if sint newBackoff > sint (MaxBackoff cfg) then MaxBackoff cfg else newBackoff)"

text \<open>
  \<open>timer\<close> says that the pause ended by its timer and not by the end of the context or of the
  manager. The result holds the pause for the next attempt.
\<close>

definition attemptReconnect ::
    "('c, 'u) Callbacks \<Rightarrow> bool \<Rightarrow> 'c result \<Rightarrow> time \<Rightarrow> 'c StreamManager \<times> 'u \<Rightarrow> goint \<Rightarrow>
     (('c StreamManager \<times> 'u) \<times> goint) option" where
  "attemptReconnect cb timer dial now s backoff =
     do {
       sm \<leftarrow> lock (fst s);
       if sint (MaxRetries (config sm)) > 0 \<and> sint (retryCount sm) \<ge> sint (MaxRetries (config sm))
       then
         do {
           (sm, u) \<leftarrow> callError cb
             (''max reconnection attempts ('' @ show_int (sint (MaxRetries (config sm))) @ '') exceeded'')
             (sm, snd s);
           Some ((unlock sm, u), backoff)
         }
       else
         let sm = unlock (sm\<lparr>retryCount := retryCount sm + 1\<rparr>) in
         if \<not> timer then Some ((sm, snd s), backoff)
         else
           case dial of
             Inl err \<Rightarrow>
               do {
                 s \<leftarrow> callError cb err (sm, snd s);
                 Some (s, next_backoff (config (fst s)) backoff)
               }
           | Inr c \<Rightarrow>
               do {
                 sm \<leftarrow> lock sm;
                 (res, s) \<leftarrow> callConnected cb (unlock (established c now sm), snd s);
                 s \<leftarrow> (case res of
                         None \<Rightarrow> Some s
                       | Some err \<Rightarrow> do { s \<leftarrow> callError cb err s; markDisconnected cb s });
                 Some (s, InitialBackoff (config (fst s)))
               }
     }"

text \<open>
  One goroutine of the reconnection loop over what its \<^verbatim>\<open>select\<close> sees, in order: the end of the
  context or of the manager, or a tick of the one-second timer with the outcomes of the attempt
  it may make. With no further event it is waiting in the \<^verbatim>\<open>select\<close>.
\<close>

datatype 'c loop_event = Ended | Tick bool "'c result" time

fun reconnectionLoop ::
    "('c, 'u) Callbacks \<Rightarrow> 'c loop_event list \<Rightarrow> 'c StreamManager \<times> 'u \<Rightarrow> goint \<Rightarrow>
     (('c StreamManager \<times> 'u) \<times> goint) option" where
  "reconnectionLoop cb [] s backoff = Some (s, backoff)"
| "reconnectionLoop cb (Ended # evs) s backoff = Some (s, backoff)"
| "reconnectionLoop cb (Tick timer dial now # evs) s backoff =
     do {
       sm \<leftarrow> rlock (fst s);
       if \<not> isConnected sm
       then do { (s, backoff) \<leftarrow> attemptReconnect cb timer dial now s backoff;
                 reconnectionLoop cb evs s backoff }
       else reconnectionLoop cb evs s backoff
     }"

text \<open>Closing a connection reports an error or not, or panics; a panic is caught, and nil returned.\<close>

datatype close_outcome = Closed "error option" | ClosePanic

definition StreamManager_Close ::
    "close_outcome \<Rightarrow> 'c StreamManager \<Rightarrow> (error option \<times> 'c StreamManager) option" where
  "StreamManager_Close out sm =
     do {
       sm \<leftarrow> lock sm;
       if done_closed sm then Some (None, unlock sm)
       else
         let sm = sm\<lparr>done_closed := True, ctx_done := True\<rparr> in
         case conn sm of
           None \<Rightarrow> Some (None, unlock sm)
         | Some c \<Rightarrow>
             (case out of
                ClosePanic \<Rightarrow> Some (None, unlock sm)
              | Closed err \<Rightarrow> Some (err, unlock (sm\<lparr>conn := None\<rparr>)))
     }"

record StreamStats =
  stat_connected :: bool
  stat_retry_count :: goint
  stat_last_connect_time :: time
  stat_connection_duration :: time

definition StreamManager_GetStats :: "time \<Rightarrow> 'c StreamManager \<Rightarrow> StreamStats option" where
  "StreamManager_GetStats now sm =
     do {
       sm \<leftarrow> rlock sm;
       Some \<lparr>stat_connected = isConnected sm, stat_retry_count = retryCount sm,
             stat_last_connect_time = lastConnectTime sm,
             stat_connection_duration = since now (lastConnectTime sm)\<rparr>
     }"

section \<open>The growing pause\<close>

lemma sint_in_range: "- (2 ^ 63) \<le> i \<Longrightarrow> i < 2 ^ 63 \<Longrightarrow> sint (of_int i :: goint) = i"
  by (simp add: signed_of_int signed_take_bit_int_eq_self)

text \<open>With the default configuration the pause grows by half, rounded down, up to 30 seconds.\<close>

lemma next_backoff_default:
  assumes "0 \<le> sint b" and "sint b \<le> 30000000000"
  shows "sint (next_backoff DefaultStreamConfig b) = min (sint b * 3 div 2) 30000000000"
proof -
  define n where "n = 3 * sint b"
  have n: "0 \<le> n" "n \<le> 90000000000" using assms by (simp_all add: n_def)
  have "f64_of_int64 b = of_int (sint b)"
    unfolding f64_of_int64_def using assms by (intro round_f64_int) simp
  then have "f64_of_int64 b * (3 / 2) = of_int n / 2" by (simp add: n_def)
  moreover have "round_f64 (of_int n / 2) = of_int n / 2"
    using n by (intro round_f64_half) simp
  ultimately have f: "f64_mult (f64_of_int64 b) (3 / 2) = of_int n / 2" by (simp only: f64_mult_def)
  have "\<lfloor>of_int n / 2 :: rat\<rfloor> = n div 2"
    using floor_divide_of_int_eq [of n 2, where 'a = rat] by simp
  then have "int64_of_f64 (of_int n / 2) = of_int (n div 2)" using n by (simp add: int64_of_f64_def)
  moreover have "sint (of_int (n div 2) :: goint) = n div 2"
    using n by (intro sint_in_range; simp; linarith)
  ultimately show ?thesis
    by (simp add: next_backoff_def DefaultStreamConfig_def f Let_def n_def mult.commute)
qed

lemma next_backoff_max: "sint (next_backoff cfg b) \<le> sint (MaxBackoff cfg)"
  by (simp add: next_backoff_def Let_def)

section \<open>Clients whose callbacks return\<close>

lemma mu_False_id [lock_simps]: "\<not> mu sm \<Longrightarrow> sm\<lparr>mu := False\<rparr> = sm"
  by (cases sm) simp

declare lock_def [lock_simps] unlock_def [lock_simps] rlock_def [lock_simps]

definition limit_ok :: "'c StreamManager \<Rightarrow> bool" where
  "limit_ok sm \<longleftrightarrow> (0 < sint (MaxRetries (config sm)) \<longrightarrow>
     0 \<le> sint (retryCount sm) \<and> sint (retryCount sm) \<le> sint (MaxRetries (config sm)))"

definition exhausted :: "'c StreamManager \<Rightarrow> bool" where
  "exhausted sm \<longleftrightarrow>
     0 < sint (MaxRetries (config sm)) \<and> sint (MaxRetries (config sm)) \<le> sint (retryCount sm)"

definition pause_ok :: "goint \<Rightarrow> 'c StreamManager \<Rightarrow> bool" where
  "pause_ok b sm \<longleftrightarrow> sint b \<le> max (sint (InitialBackoff (config sm))) (sint (MaxBackoff (config sm)))"

definition limit_error :: "'c StreamManager \<Rightarrow> error" where
  "limit_error sm = ''max reconnection attempts ('' @ show_int (sint (MaxRetries (config sm))) @ '') exceeded''"

lemma limit_ok_Suc:
  assumes "limit_ok sm" and "\<not> exhausted sm"
  shows "limit_ok (sm\<lparr>retryCount := retryCount sm + 1\<rparr>)"
proof (cases "0 < sint (MaxRetries (config sm))")
  case True
  with assms have r: "0 \<le> sint (retryCount sm)" "sint (retryCount sm) < sint (MaxRetries (config sm))"
    by (auto simp: limit_ok_def exhausted_def)
  have "sint (MaxRetries (config sm)) < 2 ^ 63" using sint_lt [of "MaxRetries (config sm)"] by simp
  with r have "sint (of_int (sint (retryCount sm) + 1) :: goint) = sint (retryCount sm) + 1"
    by (intro sint_in_range) linarith+
  moreover have "(of_int (sint (retryCount sm) + 1) :: goint) = retryCount sm + 1" by simp
  ultimately show ?thesis using r by (simp add: limit_ok_def)
next
  case False
  then show ?thesis by (simp add: limit_ok_def)
qed

lemma attemptReconnect_free:
  assumes "\<not> mu sm"
  shows "attemptReconnect cb timer dial now (sm, u) b =
    (if exhausted sm
     then do { (sm, u) \<leftarrow> callError cb (limit_error sm) (sm\<lparr>mu := True\<rparr>, u); Some ((unlock sm, u), b) }
     else let sm = sm\<lparr>retryCount := retryCount sm + 1\<rparr> in
       if \<not> timer then Some ((sm, u), b)
       else case dial of
           Inl err \<Rightarrow> do { s \<leftarrow> callError cb err (sm, u); Some (s, next_backoff (config (fst s)) b) }
         | Inr c \<Rightarrow>
             do { (res, s) \<leftarrow> callConnected cb (established c now sm, u);
                  s \<leftarrow> (case res of None \<Rightarrow> Some s
                        | Some err \<Rightarrow> do { s \<leftarrow> callError cb err s; markDisconnected cb s });
                  Some (s, InitialBackoff (config (fst s))) })"
  using assms
  by (simp add: attemptReconnect_def exhausted_def limit_error_def lock_simps Let_def established_def
      cong: sum.case_cong)

text \<open>
  What the manager relies on: called without the lock, the callbacks return and leave the manager
  as it is; the error callback does so even under the lock.
\<close>

locale stream_client =
  fixes cb :: "('c, 'u) Callbacks"
  assumes connected_returns: "\<not> mu sm \<Longrightarrow> \<exists>res u'. callConnected cb (sm, u) = Some (res, sm, u')"
    and disconnected_returns: "onDisconnected cb = Some f \<Longrightarrow> \<not> mu sm \<Longrightarrow> \<exists>u'. f (sm, u) = Some (sm, u')"
    and error_returns: "\<exists>u'. callError cb err (sm, u) = Some (sm, u')"
begin

lemma mark_returns:
  assumes "\<not> mu sm"
  shows "\<exists>u'. markDisconnected cb (sm, u) = Some (sm\<lparr>isConnected := False\<rparr>, u')"
proof (cases "isConnected sm \<and> onDisconnected cb \<noteq> None")
  case True
  then obtain f where f: "onDisconnected cb = Some f" by auto
  from assms have "\<not> mu (sm\<lparr>isConnected := False\<rparr>)" by simp
  from disconnected_returns [OF f this, of u] show ?thesis
    using assms True f by (simp add: markDisconnected_def lock_simps Let_def)
next
  case False
  with assms show ?thesis by (auto simp: markDisconnected_def lock_simps Let_def)
qed

lemma attempt_exhausted:
  assumes "\<not> mu sm" and "exhausted sm"
  shows "\<exists>u'. attemptReconnect cb timer dial now (sm, u) b = Some ((sm, u'), b)"
proof -
  from error_returns obtain u' where
    "callError cb (limit_error sm) (sm\<lparr>mu := True\<rparr>, u) = Some (sm\<lparr>mu := True\<rparr>, u')" by metis
  with assms show ?thesis by (simp add: attemptReconnect_free lock_simps)
qed

lemma attempt_success:
  assumes "\<not> mu sm" and "\<not> exhausted sm"
  shows "\<exists>res u'. attemptReconnect cb True (Inr c) now (sm, u) b =
    Some (((established c now sm)\<lparr>isConnected := (res = None)\<rparr>, u'), InitialBackoff (config sm)) \<and>
    (\<exists>v. callConnected cb (established c now sm, u) = Some (res, established c now sm, v))"
proof -
  let ?e = "established c now sm"
  have free: "\<not> mu ?e" and e: "established c now (sm\<lparr>retryCount := retryCount sm + 1\<rparr>) = ?e"
    and conf: "config ?e = config sm" and con: "?e\<lparr>isConnected := True\<rparr> = ?e"
    using assms(1) by (simp_all add: established_def)
  from connected_returns [OF free, of u] obtain res u' where
    c: "callConnected cb (?e, u) = Some (res, ?e, u')" by blast
  show ?thesis
  proof (cases res)
    case None
    with assms c e conf con show ?thesis
      by (intro exI [of _ None] exI [of _ u']) (simp add: attemptReconnect_free)
  next
    case (Some err)
    from error_returns [of err ?e u'] obtain v where v: "callError cb err (?e, u') = Some (?e, v)" by blast
    from mark_returns [OF free, of v] obtain w where
      "markDisconnected cb (?e, v) = Some (?e\<lparr>isConnected := False\<rparr>, w)" by blast
    with assms c e v conf Some show ?thesis
      by (intro exI [of _ "Some err"] exI [of _ w]) (simp add: attemptReconnect_free)
  qed
qed

lemma attempt_no_connection:
  assumes "\<not> mu sm" and "\<not> exhausted sm" and "\<not> timer \<or> dial = Inl err"
  shows "\<exists>u'. attemptReconnect cb timer dial now (sm, u) b =
    Some ((sm\<lparr>retryCount := retryCount sm + 1\<rparr>, u'), if timer then next_backoff (config sm) b else b)"
proof (cases timer)
  case True
  from error_returns [of err "sm\<lparr>retryCount := retryCount sm + 1\<rparr>" u] obtain u' where
    "callError cb err (sm\<lparr>retryCount := retryCount sm + 1\<rparr>, u) = Some (sm\<lparr>retryCount := retryCount sm + 1\<rparr>, u')"
    by blast
  with assms True show ?thesis by (simp add: attemptReconnect_free)
next
  case False
  with assms show ?thesis by (simp add: attemptReconnect_free)
qed

text \<open>Every attempt returns, with the lock free; what it does to the manager and to the pause.\<close>

lemma attempt_returns:
  assumes "\<not> mu sm" and "limit_ok sm" and "pause_ok b sm"
  shows "\<exists>sm' u' b'. attemptReconnect cb timer dial now (sm, u) b = Some ((sm', u'), b') \<and>
    \<not> mu sm' \<and> limit_ok sm' \<and> pause_ok b' sm' \<and> config sm' = config sm"
proof (cases "exhausted sm")
  case True
  with attempt_exhausted [OF assms(1) True, of timer dial now u b] assms show ?thesis by auto
next
  case False
  show ?thesis
  proof (cases "timer \<and> (\<exists>c. dial = Inr c)")
    case True
    then obtain c where t: "timer" "dial = Inr c" by auto
    have "limit_ok ((established c now sm)\<lparr>isConnected := x\<rparr>)" for x
      by (simp add: limit_ok_def established_def)
    with attempt_success [OF assms(1) False, of c now u b] t assms(1) show ?thesis
      by (auto simp: established_def pause_ok_def)
  next
    case no: False
    then obtain err where "\<not> timer \<or> dial = Inl err" by (cases dial) auto
    from attempt_no_connection [OF assms(1) False this, of now u b] obtain u' where
      "attemptReconnect cb timer dial now (sm, u) b =
        Some ((sm\<lparr>retryCount := retryCount sm + 1\<rparr>, u'), if timer then next_backoff (config sm) b else b)" by blast
    moreover have "pause_ok (if timer then next_backoff (config sm) b else b) (sm\<lparr>retryCount := retryCount sm + 1\<rparr>)"
      using assms(3) next_backoff_max [of "config sm" b] by (auto simp: pause_ok_def)
    ultimately show ?thesis using assms(1) limit_ok_Suc [OF assms(2) False] by auto
  qed
qed

lemma loop_returns:
  assumes "\<not> mu sm" and "limit_ok sm" and "pause_ok b sm"
  shows "\<exists>sm' u' b'. reconnectionLoop cb evs (sm, u) b = Some ((sm', u'), b') \<and>
    \<not> mu sm' \<and> limit_ok sm' \<and> pause_ok b' sm' \<and> config sm' = config sm"
  using assms
proof (induction evs arbitrary: sm u b)
  case Nil
  then show ?case by simp
next
  case (Cons ev evs)
  show ?case
  proof (cases ev)
    case Ended
    with Cons.prems show ?thesis by simp
  next
    case (Tick timer dial now)
    show ?thesis
    proof (cases "isConnected sm")
      case True
      with Tick Cons.prems Cons.IH [OF Cons.prems, of u] show ?thesis by (simp add: lock_simps)
    next
      case False
      from attempt_returns [OF Cons.prems, of timer dial now u] obtain sm1 u1 b1 where
        a: "attemptReconnect cb timer dial now (sm, u) b = Some ((sm1, u1), b1)"
          "\<not> mu sm1" "limit_ok sm1" "pause_ok b1 sm1" "config sm1 = config sm" by blast
      with Tick False Cons.prems(1) Cons.IH [OF a(2-4), of u1] show ?thesis by (simp add: lock_simps)
    qed
  qed
qed

lemma loop_exhausted:
  assumes "\<not> mu sm" and "exhausted sm" and "\<not> isConnected sm"
  shows "\<exists>u'. reconnectionLoop cb evs (sm, u) b = Some ((sm, u'), b)"
  using assms
proof (induction evs arbitrary: u)
  case Nil
  then show ?case by simp
next
  case (Cons ev evs)
  show ?case
  proof (cases ev)
    case Ended
    then show ?thesis by simp
  next
    case (Tick timer dial now)
    from attempt_exhausted [OF Cons.prems(1,2), of timer dial now u b] obtain u1 where
      "attemptReconnect cb timer dial now (sm, u) b = Some ((sm, u1), b)" by blast
    with Tick Cons.prems Cons.IH [OF Cons.prems, of u1] show ?thesis by (simp add: lock_simps)
  qed
qed

lemma loop_append:
  assumes "reconnectionLoop cb evs (sm, u) b = Some ((sm', u'), b')" and "Ended \<notin> set evs"
  shows "reconnectionLoop cb (evs @ evs') (sm, u) b = reconnectionLoop cb evs' (sm', u') b'"
  using assms
proof (induction evs arbitrary: sm u b)
  case Nil
  then show ?case by simp
next
  case (Cons ev evs)
  then show ?case
    by (cases ev) (auto split: bind_splits if_splits)
qed

text \<open>Dials that fail: one more attempt and one more pause each, up to the limit.\<close>

lemma failing_dials:
  assumes "\<not> mu sm" and "\<not> isConnected sm" and "retryCount sm = of_nat k"
    and "m = nat (sint (MaxRetries (config sm)))" and "0 < m" and "k \<le> m"
  shows "\<exists>u'. reconnectionLoop cb (map (\<lambda>(err, now). Tick True (Inl err) now) fs) (sm, u) b =
    Some ((sm\<lparr>retryCount := of_nat (min (k + length fs) m)\<rparr>, u'),
      (next_backoff (config sm) ^^ (min (k + length fs) m - k)) b)"
  using assms
proof (induction fs arbitrary: sm u b k)
  case Nil
  moreover have "sm\<lparr>retryCount := of_nat k\<rparr> = sm" using Nil.prems(3) by (cases sm) simp
  ultimately show ?case by (simp add: min_absorb1)
next
  case (Cons f fs)
  obtain err now where f: "f = (err, now)" by force
  let ?evs = "map (\<lambda>(err, now). Tick True (Inl err) now) fs"
  have lim: "sint (MaxRetries (config sm)) = int m" "int m < 2 ^ 63"
    using Cons.prems(4,5) sint_lt [of "MaxRetries (config sm)"] by auto
  have k: "sint (retryCount sm) = int k"
    using sint_in_range [of "int k"] lim(2) Cons.prems(3,6) by simp
  show ?case
  proof (cases "k = m")
    case True
    then have ex: "exhausted sm" using k lim(1) Cons.prems(5) by (simp add: exhausted_def)
    have "sm\<lparr>retryCount := of_nat m\<rparr> = sm" using Cons.prems(3) True by (cases sm) simp
    with True loop_exhausted [OF Cons.prems(1) ex Cons.prems(2), of "Tick True (Inl err) now # ?evs" u b] f
    show ?thesis by simp
  next
    case False
    then have nex: "\<not> exhausted sm" using k lim(1) Cons.prems(6) by (simp add: exhausted_def)
    from attempt_no_connection [OF Cons.prems(1) nex, of True "Inl err" err now u b] obtain u1 where
      a: "attemptReconnect cb True (Inl err) now (sm, u) b =
        Some ((sm\<lparr>retryCount := retryCount sm + 1\<rparr>, u1), next_backoff (config sm) b)" by auto
    have "retryCount (sm\<lparr>retryCount := retryCount sm + 1\<rparr>) = of_nat (Suc k)" using Cons.prems(3) by simp
    from Cons.IH [OF _ _ this, of u1 "next_backoff (config sm) b"] Cons.prems False obtain u' where
      "reconnectionLoop cb ?evs (sm\<lparr>retryCount := retryCount sm + 1\<rparr>, u1) (next_backoff (config sm) b) =
       Some ((sm\<lparr>retryCount := of_nat (min (Suc k + length fs) m)\<rparr>, u'),
         (next_backoff (config sm) ^^ (min (Suc k + length fs) m - Suc k)) (next_backoff (config sm) b))"
      by auto
    moreover have "min (k + length (f # fs)) m - k = Suc (min (Suc k + length fs) m - Suc k)"
      using False Cons.prems(6) by (auto simp: min_def)
    ultimately show ?thesis
      using f a Cons.prems(1,2) by (simp add: lock_simps funpow_swap1)
  qed
qed

text \<open>Dials that work, before a callback that fails: each one starts from a counter of zero.\<close>

lemma failing_callbacks:
  assumes "\<not> mu sm" and "\<not> isConnected sm" and "\<not> exhausted sm" and "cs \<noteq> []"
    and "\<And>sm u. \<exists>err u'. callConnected cb (sm, u) = Some (Some err, sm, u')"
  shows "\<exists>sm' u'. reconnectionLoop cb (map (\<lambda>(c, now). Tick True (Inr c) now) cs) (sm, u) b =
      Some ((sm', u'), InitialBackoff (config sm)) \<and>
    conn sm' = Some (fst (last cs)) \<and> \<not> isConnected sm' \<and> retryCount sm' = 0 \<and> config sm' = config sm"
  using assms(1-4)
proof (induction cs arbitrary: sm u b)
  case Nil
  then show ?case by simp
next
  case (Cons x cs)
  obtain c now where x: "x = (c, now)" by force
  let ?sm = "(established c now sm)\<lparr>isConnected := False\<rparr>"
  from assms(5) obtain err v where "callConnected cb (established c now sm, u) = Some (Some err, established c now sm, v)"
    by blast
  with attempt_success [OF Cons.prems(1,3), of c now u b] obtain u1 where
    a: "attemptReconnect cb True (Inr c) now (sm, u) b = Some ((?sm, u1), InitialBackoff (config sm))"
    by auto
  have s: "\<not> mu ?sm" "\<not> isConnected ?sm" "\<not> exhausted ?sm" "config ?sm = config sm"
    using Cons.prems(1) by (simp_all add: established_def exhausted_def)
  show ?case
  proof (cases "cs = []")
    case True
    with a x Cons.prems(1,2) show ?thesis by (simp add: lock_simps established_def)
  next
    case False
    from Cons.IH [OF s(1-3) False, of u1] s(4) a x Cons.prems(1,2) False show ?thesis
      by (simp add: lock_simps)
  qed
qed

end

section \<open>Property: failing dials are limited\<close>

text \<open>A manager whose client has set no callbacks.\<close>

definition no_callbacks :: "('c, 'u) Callbacks" where
  "no_callbacks = \<lparr>onConnected = None, onDisconnected = None, onError = None\<rparr>"

interpretation plain: stream_client no_callbacks
  by unfold_locales (simp_all add: no_callbacks_def callConnected_def callError_def)

text \<open>C34: the reconnection loop on dials that fail, for a client whose callbacks return (called without the lock, and
  the error callback even with it) and leave the manager alone, and a limit of \<open>m\<close> attempts
  above zero: on a disconnected manager whose counter is zero, as it is after every successful dial,
  \<open>n\<close> ticks with a failing dial make exactly the smaller of \<open>n\<close> and \<open>m\<close> attempts, each with the next
  pause of the backoff; after \<open>m\<close> of them the loop never dials again and the manager stays
  disconnected, whatever a dial would have given.\<close>
theorem failed_dials_limited:
  assumes "stream_client cb" and "\<not> mu sm" and "\<not> isConnected sm" and "retryCount sm = 0"
    and "m = nat (sint (MaxRetries (config sm)))" and "0 < m"
    and "fails = map (\<lambda>(err, now). Tick True (Inl err) now) fs"
  shows "(\<exists>u'. reconnectionLoop cb fails (sm, u) b =
      Some ((sm\<lparr>retryCount := of_nat (min (length fs) m)\<rparr>, u'),
        (next_backoff (config sm) ^^ min (length fs) m) b)) \<and>
    (m \<le> length fs \<longrightarrow> (\<exists>u'. reconnectionLoop cb (fails @ evs) (sm, u) b =
      Some ((sm\<lparr>retryCount := of_nat m\<rparr>, u'), (next_backoff (config sm) ^^ m) b)))"
proof -
  note d = stream_client.failing_dials [OF assms(1-3), where k = 0 and m = m and fs = fs and u = u and b = b,
      folded assms(7)]
  have first: "\<exists>u'. reconnectionLoop cb fails (sm, u) b =
      Some ((sm\<lparr>retryCount := of_nat (min (length fs) m)\<rparr>, u'), (next_backoff (config sm) ^^ min (length fs) m) b)"
    using d assms(4,5,6) by simp
  moreover have "\<exists>u'. reconnectionLoop cb (fails @ evs) (sm, u) b =
      Some ((sm\<lparr>retryCount := of_nat m\<rparr>, u'), (next_backoff (config sm) ^^ m) b)" if "m \<le> length fs"
  proof -
    let ?sm = "sm\<lparr>retryCount := of_nat m\<rparr>"
    from first that obtain u' where
      r: "reconnectionLoop cb fails (sm, u) b = Some ((?sm, u'), (next_backoff (config sm) ^^ m) b)" by auto
    have "int m < 2 ^ 63" using assms(5,6) sint_lt [of "MaxRetries (config sm)"] by auto
    then have "sint (of_nat m :: goint) = int m" using sint_in_range [of "int m"] by simp
    then have "exhausted ?sm" using assms(5,6) by (simp add: exhausted_def)
    from stream_client.loop_exhausted [OF assms(1) _ this, where evs = evs and u = u'] assms(2,3)
    have "\<exists>v. reconnectionLoop cb evs (?sm, u') c = Some ((?sm, v), c)" for c by simp
    moreover have "Ended \<notin> set fails" by (auto simp: assms(7))
    ultimately show ?thesis using stream_client.loop_append [OF assms(1) r] by simp
  qed
  ultimately show ?thesis by blast
qed

text \<open>A manager that connected, and then lost its connection.\<close>

definition lost_manager :: "nat StreamManager" where
  "lost_manager = (established 7 5 (NewStreamManager (DefaultStreamConfig\<lparr>MaxRetries := 2\<rparr>)))
     \<lparr>isConnected := False, loops := 1\<rparr>"

lemma lost_manager_reached:
  "do { (err, s) \<leftarrow> Connect no_callbacks (Inr 7) 5 (NewStreamManager (DefaultStreamConfig\<lparr>MaxRetries := 2\<rparr>), u);
        MarkDisconnected no_callbacks s } = Some (lost_manager, u)"
  by (simp add: lost_manager_def Connect_def callConnected_def no_callbacks_def markDisconnected_def established_def
      NewStreamManager_def lock_simps Let_def)

theorem failed_dials_limited_witness:
  "\<exists>sm' b'. reconnectionLoop no_callbacks
      [Tick True (Inl ''refused'') 6, Tick True (Inl ''refused'') 7, Tick True (Inl ''refused'') 8, Tick True (Inr 9) 9]
      (lost_manager, ()) 100000000 = Some ((sm', ()), b') \<and>
     sint (retryCount sm') = 2 \<and> \<not> isConnected sm' \<and>
     do { (err, s) \<leftarrow> Connect no_callbacks (Inr 7) 5 (NewStreamManager (DefaultStreamConfig\<lparr>MaxRetries := 2\<rparr>), ());
          MarkDisconnected no_callbacks s } = Some (lost_manager, ())"
proof -
  have s: "\<not> mu lost_manager" "\<not> isConnected lost_manager" "retryCount lost_manager = 0"
    "2 = nat (sint (MaxRetries (config lost_manager)))"
    by (simp_all add: lost_manager_def established_def NewStreamManager_def)
  show ?thesis
    using failed_dials_limited [OF plain.stream_client_axioms s _ refl, where b = 100000000 and u = "()" and
        fs = "[(''refused'', 6), (''refused'', 7), (''refused'', 8)]" and evs = "[Tick True (Inr 9) 9]"]
      s(2) lost_manager_reached [of "()"]
    by auto
qed

section \<open>Property: failing callbacks are not\<close>

text \<open>C35: the limit of attempts does not cover failures after the dial: for a client whose callback for a new connection
  always fails (as one that cannot open its stream), whatever the limit, every tick with a dial that works
  makes a connection and loses it again: after any number of them the last one's connection is stored, the
  manager is disconnected, and the counter and the pause are back at their initial values.\<close>
theorem failed_callbacks_not_limited:
  assumes "stream_client cb" and "\<not> mu sm" and "\<not> isConnected sm" and "\<not> exhausted sm" and "cs \<noteq> []"
    and "\<And>sm u. \<exists>err u'. callConnected cb (sm, u) = Some (Some err, sm, u')"
  shows "\<exists>sm' u'. reconnectionLoop cb (map (\<lambda>(c, now). Tick True (Inr c) now) cs) (sm, u) b =
      Some ((sm', u'), InitialBackoff (config sm)) \<and>
    conn sm' = Some (fst (last cs)) \<and> \<not> isConnected sm' \<and> retryCount sm' = 0"
  using stream_client.failing_callbacks [OF assms, of u b] by blast

definition refusing_callbacks :: "('c, 'u) Callbacks" where
  "refusing_callbacks =
     \<lparr>onConnected = Some (\<lambda>(sm, u). Some (Some ''unavailable'', sm, u)), onDisconnected = None, onError = None\<rparr>"

interpretation refusing: stream_client refusing_callbacks
  by unfold_locales (simp_all add: refusing_callbacks_def callConnected_def callError_def)

theorem failed_callbacks_not_limited_witness:
  "\<exists>sm' b'. reconnectionLoop refusing_callbacks [Tick True (Inr 1) 6, Tick True (Inr 2) 7, Tick True (Inr 3) 8]
      (lost_manager, ()) 100000000 = Some ((sm', ()), b') \<and>
     MaxRetries (config lost_manager) = 2 \<and> conn sm' = Some 3 \<and> retryCount sm' = 0"
proof -
  have "\<not> mu lost_manager" "\<not> isConnected lost_manager" "\<not> exhausted lost_manager"
    "MaxRetries (config lost_manager) = 2"
    by (simp_all add: lost_manager_def established_def NewStreamManager_def exhausted_def)
  moreover have "\<exists>err u'. callConnected refusing_callbacks (sm, u) = Some (Some err, sm, u')"
    for sm :: "nat StreamManager" and u :: unit
    by (simp add: refusing_callbacks_def callConnected_def)
  ultimately show ?thesis
    using failed_callbacks_not_limited [OF refusing.stream_client_axioms, of lost_manager "[(1, 6), (2, 7), (3, 8)]"
        "()" 100000000] by fastforce
qed

end
