(* ===== verification/Worker_Sdk.thy ===== *)
theory Worker_Sdk
  imports Stream_Manager Proto_Messages "HOL-Library.Signed_Division"
begin

text \<open>
  The worker SDK, \<^verbatim>\<open>src/pkg/sdk/worker.go\<close>: handlers, the connection callbacks, the processing of
  tasks and its statistics, start and stop.

  The state is the stream manager and the worker. Opening a stream on a connection and sending on
  a stream are calls of gRPC: their outcomes are the arguments \<open>open_stream\<close> and \<open>send\<close>, functions
  of the connection and of the stream. \<open>sent\<close> lists the messages handed to \<^verbatim>\<open>Send\<close> and \<open>readers\<close>
  counts the goroutines started with \<^verbatim>\<open>go w.processStream\<close>. A handler is a function from the task to a
  result and an error, and leaves the task it is given alone. The calls of \<^verbatim>\<open>time.Now\<close> in a function
  are numbered by their place in its text.
\<close>

section \<open>Types\<close>

type_synonym TaskHandler = "ProtoTask \<Rightarrow> TaskResult option \<times> error option"

record WorkerConfig =
  ConfigWorkerID :: string
  ServerAddress :: string
  ConfigCapabilities :: "string list"
  ConfigStream :: StreamConfig

record WorkerStats =
  TasksProcessed :: goint
  TasksFailed :: goint
  TotalProcessTime :: goint
  AverageTime :: goint
  LastProcessedTime :: time

record 's Worker =
  worker_config :: WorkerConfig
  handlers :: "string \<rightharpoonup> TaskHandler"
  client :: "'s option"
  connected :: bool
  worker_ctx_done :: bool
  worker_done :: bool
  stats :: WorkerStats
  sent :: "WorkerMessage list"
  readers :: nat

section \<open>Construction and handlers\<close>

definition NewWorker :: "WorkerConfig \<Rightarrow> ('c StreamManager \<times> 's Worker) result" where
  "NewWorker cfg =
     (if ConfigWorkerID cfg = [] then Inl ''worker ID is required''
      else if ServerAddress cfg = [] then Inl ''server address is required''
      else Inr (NewStreamManager (ConfigStream cfg),
        \<lparr>worker_config = cfg, handlers = Map.empty, client = None, connected = False,
         worker_ctx_done = False, worker_done = False,
         stats = \<lparr>TasksProcessed = 0, TasksFailed = 0, TotalProcessTime = 0, AverageTime = 0,
                  LastProcessedTime = zero_time\<rparr>,
         sent = [], readers = 0\<rparr>))"

definition RegisterHandler :: "string \<Rightarrow> TaskHandler option \<Rightarrow> 's Worker \<Rightarrow> error option \<times> 's Worker" where
  "RegisterHandler taskType handler w =
     (if taskType = [] then (Some ''task type is required'', w)
      else case handler of
             None \<Rightarrow> (Some ''handler cannot be nil'', w)
           | Some h \<Rightarrow> (None, w\<lparr>handlers := (handlers w)(taskType \<mapsto> h)\<rparr>))"

section \<open>Connection callbacks\<close>

definition setConnected :: "bool \<Rightarrow> 's Worker \<Rightarrow> 's Worker" where
  "setConnected c w = w\<lparr>connected := c\<rparr>"

definition Worker_IsConnected :: "'s Worker \<Rightarrow> bool" where
  "Worker_IsConnected w = connected w"

definition registration :: "'s Worker \<Rightarrow> WorkerMessage" where
  "registration w =
     \<lparr>MessageWorkerId = ConfigWorkerID (worker_config w),
      WorkerPayload = Some (WorkerMessage_Registration (Some
        \<lparr>RegistrationWorkerId = ConfigWorkerID (worker_config w),
         RegistrationCapabilities = ConfigCapabilities (worker_config w)\<rparr>))\<rparr>"

definition sendRegistration ::
    "('s \<Rightarrow> WorkerMessage \<Rightarrow> error option) \<Rightarrow> 's \<Rightarrow> 's Worker \<Rightarrow> error option \<times> 's Worker" where
  "sendRegistration send stream w =
     (let msg = registration w in (send stream msg, w\<lparr>sent := sent w @ [msg]\<rparr>))"

definition worker_onConnected ::
    "('c \<Rightarrow> 's result) \<Rightarrow> ('s \<Rightarrow> WorkerMessage \<Rightarrow> error option) \<Rightarrow> 'c StreamManager \<times> 's Worker \<Rightarrow>
     (error option \<times> 'c StreamManager \<times> 's Worker) option" where
  "worker_onConnected open_stream send s =
     (let (sm, w) = s in
      do {
        res \<leftarrow> GetConnection sm;
        case res of
          Inl err \<Rightarrow> Some (Some err, sm, w)
        | Inr c \<Rightarrow>
            (case open_stream c of
               Inl err \<Rightarrow> Some (Some err, sm, w)
             | Inr stream \<Rightarrow>
                 let w = setConnected True (w\<lparr>client := Some stream\<rparr>) in
                 case sendRegistration send stream w of
                   (Some err, w) \<Rightarrow> Some (Some err, sm, setConnected False w)
                 | (None, w) \<Rightarrow> Some (None, sm, w\<lparr>readers := Suc (readers w)\<rparr>))
      })"

definition worker_onDisconnected ::
    "'c StreamManager \<times> 's Worker \<Rightarrow> ('c StreamManager \<times> 's Worker) option" where
  "worker_onDisconnected s =
     (let (sm, w) = s; w = setConnected False w in Some (sm, w\<lparr>client := None\<rparr>))"

definition worker_onError :: "error \<Rightarrow> 'c StreamManager \<times> 's Worker \<Rightarrow> ('c StreamManager \<times> 's Worker) option" where
  "worker_onError err s = Some s"

definition worker_callbacks ::
    "('c \<Rightarrow> 's result) \<Rightarrow> ('s \<Rightarrow> WorkerMessage \<Rightarrow> error option) \<Rightarrow> ('c, 's Worker) Callbacks" where
  "worker_callbacks open_stream send =
     \<lparr>onConnected = Some (worker_onConnected open_stream send), onDisconnected = Some worker_onDisconnected,
      onError = Some worker_onError\<rparr>"

definition Start ::
    "('c \<Rightarrow> 's result) \<Rightarrow> ('s \<Rightarrow> WorkerMessage \<Rightarrow> error option) \<Rightarrow> 'c result \<Rightarrow> time \<Rightarrow>
     'c StreamManager \<times> 's Worker \<Rightarrow> (error option \<times> 'c StreamManager \<times> 's Worker) option" where
  "Start open_stream send dial now s =
     do {
       (cb, sm) \<leftarrow> SetCallbacks (worker_callbacks open_stream send) (fst s);
       Connect cb dial now (sm, snd s)
     }"

section \<open>Task processing\<close>

definition recordTaskProcessed :: "time \<Rightarrow> goint \<Rightarrow> bool \<Rightarrow> WorkerStats \<Rightarrow> WorkerStats" where
  "recordTaskProcessed now duration success st =
     (let st = st\<lparr>TasksProcessed := TasksProcessed st + 1\<rparr>;
          st = (if \<not> success then st\<lparr>TasksFailed := TasksFailed st + 1\<rparr> else st);
          st = st\<lparr>TotalProcessTime := TotalProcessTime st + duration\<rparr>;
          st = (if sint (TasksProcessed st) > 0
                then st\<lparr>AverageTime := of_int (sint (TotalProcessTime st) sdiv sint (TasksProcessed st))\<rparr>
                else st)
      in st\<lparr>LastProcessedTime := now\<rparr>)"

definition task_result :: "clock \<Rightarrow> ProtoTask \<Rightarrow> TaskHandler option \<Rightarrow> TaskResult" where
  "task_result clk task handler =
     (case handler of
        None \<Rightarrow>
          \<lparr>ResultTaskId = Id task, Success = False, Output = None,
           ResultError = ''no handler for task type: '' @ Type task, ResultCompletedAt = unix_seconds (clk 1)\<rparr>
      | Some h \<Rightarrow>
          let (result, err) = h task;
              result = (case err of
                          None \<Rightarrow> result
                        | Some e \<Rightarrow> Some \<lparr>ResultTaskId = Id task, Success = False, Output = None,
                                         ResultError = e, ResultCompletedAt = unix_seconds (clk 2)\<rparr>);
              result = (case result of
                          Some r \<Rightarrow> r
                        | None \<Rightarrow> \<lparr>ResultTaskId = Id task, Success = True, Output = None,
                                   ResultError = [], ResultCompletedAt = unix_seconds (clk 3)\<rparr>);
              result = (if ResultTaskId result = [] then result\<lparr>ResultTaskId := Id task\<rparr> else result)
          in if ResultCompletedAt result = 0 then result\<lparr>ResultCompletedAt := unix_seconds (clk 4)\<rparr> else result)"

text \<open>A message without a task or an acknowledgement inside makes the worker read through nil.\<close>

definition processTask ::
    "('s \<Rightarrow> WorkerMessage \<Rightarrow> error option) \<Rightarrow> ('c, 's Worker) Callbacks \<Rightarrow> clock \<Rightarrow> 's \<Rightarrow> ProtoTask option \<Rightarrow>
     'c StreamManager \<times> 's Worker \<Rightarrow> ('c StreamManager \<times> 's Worker) outcome option" where
  "processTask send cb clk stream task s =
     (case task of
        None \<Rightarrow> Some (Panic ''invalid memory address or nil pointer dereference'')
      | Some t \<Rightarrow>
          let (sm, w) = s;
              result = task_result clk t (handlers w (Type t));
              processingTime = of_int (since (clk 5) (clk 0));
              w = w\<lparr>stats := recordTaskProcessed (clk 6) processingTime (Success result) (stats w)\<rparr>;
              resultMsg = \<lparr>MessageWorkerId = ConfigWorkerID (worker_config w),
                           WorkerPayload = Some (WorkerMessage_Result (Some result))\<rparr>;
              w = w\<lparr>sent := sent w @ [resultMsg]\<rparr>
          in case send stream resultMsg of
               Some err \<Rightarrow> map_option Return (MarkDisconnected cb (sm, w))
             | None \<Rightarrow> Some (Return (sm, w)))"

definition handleOrchestratorMessage ::
    "('s \<Rightarrow> WorkerMessage \<Rightarrow> error option) \<Rightarrow> ('c, 's Worker) Callbacks \<Rightarrow> clock \<Rightarrow> 's \<Rightarrow>
     OrchestratorMessage option \<Rightarrow> 'c StreamManager \<times> 's Worker \<Rightarrow> ('c StreamManager \<times> 's Worker) outcome option" where
  "handleOrchestratorMessage send cb clk stream msg s =
     (case msg of
        None \<Rightarrow> Some (Return s)
      | Some m \<Rightarrow>
          (case OrchestratorPayload m of
             Some (OrchestratorMessage_Task task) \<Rightarrow> processTask send cb clk stream task s
           | Some (OrchestratorMessage_Ack ack) \<Rightarrow>
               (case ack of
                  None \<Rightarrow> Some (Panic ''invalid memory address or nil pointer dereference'')
                | Some a \<Rightarrow> Some (Return s))
           | None \<Rightarrow> Some (Return s)))"

text \<open>
  The goroutine that reads a stream, over what it meets: the end of the context or of the worker
  before a receive, or the outcome of the receive. With no further event it waits in \<^verbatim>\<open>Recv\<close>.
\<close>

datatype stream_event = StopSeen | RecvFailed error | RecvMessage clock "OrchestratorMessage option"

fun processStream ::
    "('s \<Rightarrow> WorkerMessage \<Rightarrow> error option) \<Rightarrow> ('c, 's Worker) Callbacks \<Rightarrow> 's \<Rightarrow> stream_event list \<Rightarrow>
     'c StreamManager \<times> 's Worker \<Rightarrow> ('c StreamManager \<times> 's Worker) outcome option" where
  "processStream send cb stream [] s = Some (Return s)"
| "processStream send cb stream (StopSeen # evs) s = Some (Return s)"
| "processStream send cb stream (RecvFailed err # evs) s = map_option Return (MarkDisconnected cb s)"
| "processStream send cb stream (RecvMessage clk msg # evs) s =
     do {
       out \<leftarrow> handleOrchestratorMessage send cb clk stream msg s;
       case out of
         Panic m \<Rightarrow> Some (Panic m)
       | Return s \<Rightarrow> processStream send cb stream evs s
     }"

section \<open>Stop\<close>

text \<open>Closing the send side of the stream is a call of gRPC without effect on the state here.\<close>

definition Stop ::
    "close_outcome \<Rightarrow> 'c StreamManager \<times> 's Worker \<Rightarrow> (error option \<times> 'c StreamManager \<times> 's Worker) outcome option" where
  "Stop out s =
     (let (sm, w) = s in
      if worker_done w then Some (Panic ''close of closed channel'')
      else
        let w = w\<lparr>worker_done := True, worker_ctx_done := True\<rparr> in
        do {
          (err, sm) \<leftarrow> StreamManager_Close out sm;
          Some (Return (None, sm, w))
        })"

definition Worker_GetStats :: "'s Worker \<Rightarrow> WorkerStats" where
  "Worker_GetStats w = stats w"

end
