(* ===== verification/Worker_Properties.thy ===== *)
theory Worker_Properties
  imports Worker_Sdk
begin

text \<open>
  The worker over its stream manager: start and stop, the reconnection loop with the worker's
  callbacks (an interpretation of \<open>stream_client\<close>), and the processing of tasks.
\<close>

section \<open>The worker's callbacks\<close>

lemma worker_callbacks_simps [simp]:
  "onConnected (worker_callbacks open_stream send) = Some (worker_onConnected open_stream send)"
  "onDisconnected (worker_callbacks open_stream send) = Some worker_onDisconnected"
  "onError (worker_callbacks open_stream send) = Some worker_onError"
  by (simp_all add: worker_callbacks_def)

lemma GetConnection_free: "\<not> mu sm \<Longrightarrow> \<exists>res. GetConnection sm = Some res"
  by (simp add: GetConnection_def lock_simps split: option.split)

lemma GetConnection_locked: "mu sm \<Longrightarrow> GetConnection sm = None"
  by (simp add: GetConnection_def lock_simps)

lemma worker_onConnected_returns:
  assumes "\<not> mu sm"
  shows "\<exists>res w'. worker_onConnected open_stream send (sm, w) = Some (res, sm, w')"
proof -
  from GetConnection_free [OF assms] obtain res where "GetConnection sm = Some res" by blast
  then show ?thesis
    by (simp add: worker_onConnected_def Let_def sendRegistration_def split: sum.split option.split)
qed

interpretation wk: stream_client "worker_callbacks open_stream send" for open_stream send
proof (unfold_locales, goal_cases)
  case (1 sm u)
  then show ?case using worker_onConnected_returns [of sm open_stream send u] by (simp add: callConnected_def)
next
  case (2 f sm u)
  then show ?case by (auto simp: worker_onDisconnected_def Let_def)
next
  case (3 err sm u)
  then show ?case by (simp add: callError_def worker_onError_def)
qed

section \<open>Properties: start, stop and reconnection\<close>

text \<open>\<^verbatim>\<open>Worker.Start\<close> never returns once the dial succeeds: the manager calls the worker's callback while it
  holds its lock, and the callback waits for the same lock. If the dial fails it returns the error,
  and the worker is not connected.\<close>
lemma start_blocks_after_dial:
  assumes "\<not> mu sm"
  shows "Start open_stream send (Inr c) now (sm, w) = None \<and>
    Start open_stream send (Inl err) now (sm, w) = Some (Some err, sm, w)"
  using assms
  by (simp add: Start_def SetCallbacks_def Connect_def callConnected_def callError_def worker_onError_def
      worker_onConnected_def established_def lock_simps GetConnection_locked)

definition sample_config :: WorkerConfig where
  "sample_config = \<lparr>ConfigWorkerID = ''w1'', ServerAddress = ''localhost:9090'', ConfigCapabilities = [''email''],
     ConfigStream = DefaultStreamConfig\<lparr>MaxRetries := 2\<rparr>\<rparr>"

definition sample_worker :: "nat Worker" where
  "sample_worker = \<lparr>worker_config = sample_config, handlers = Map.empty, client = None, connected = False,
     worker_ctx_done = False, worker_done = False,
     stats = \<lparr>TasksProcessed = 0, TasksFailed = 0, TotalProcessTime = 0, AverageTime = 0,
              LastProcessedTime = zero_time\<rparr>,
     sent = [], readers = 0\<rparr>"

definition sample_manager :: "nat StreamManager" where
  "sample_manager = NewStreamManager (ConfigStream sample_config)"

lemma sample_new: "NewWorker sample_config = Inr (sample_manager, sample_worker)"
  by (simp add: NewWorker_def sample_manager_def sample_worker_def sample_config_def)

lemma sample_free [simp]: "\<not> mu sample_manager"
  by (simp add: sample_manager_def NewStreamManager_def)

text \<open>The worker's callbacks meet the contract of a client, so where the loop runs it never blocks on its own lock
  and leaves the lock free; the counter of failed dials since the last successful one stays within the
  configured limit and the pause within the configured bounds. (A worker never gets as far as this
  loop: \<open>start_blocks_after_dial\<close>.)\<close>
lemma reconnection_loop_safe:
  assumes "\<not> mu sm" and "limit_ok sm" and "pause_ok b sm"
  shows "\<exists>sm' w' b'. reconnectionLoop (worker_callbacks open_stream send) evs (sm, w) b = Some ((sm', w'), b') \<and>
    \<not> mu sm' \<and>
    (0 < sint (MaxRetries (config sm)) \<longrightarrow> sint (retryCount sm') \<le> sint (MaxRetries (config sm))) \<and>
    sint b' \<le> max (sint (InitialBackoff (config sm))) (sint (MaxBackoff (config sm)))"
  using wk.loop_returns [OF assms, of open_stream send evs w] by (auto simp: limit_ok_def pause_ok_def)

lemma sample_limits: "limit_ok sample_manager" "pause_ok 100000000 sample_manager"
  by (simp_all add: limit_ok_def pause_ok_def sample_manager_def NewStreamManager_def sample_config_def
      DefaultStreamConfig_def)

text \<open>With the default configuration the pause between failed attempts never shrinks: it grows by half each time,
  rounded down to the nanosecond, until it reaches 30 seconds, where it stays. The floating-point
  multiplication is exact in this range.\<close>
lemma default_backoff_grows:
  assumes "100000000 \<le> sint b" and "sint b \<le> 30000000000"
  shows "sint (next_backoff DefaultStreamConfig b) = min (sint b * 3 div 2) 30000000000 \<and>
    sint b \<le> sint (next_backoff DefaultStreamConfig b)"
  using assms by (simp add: next_backoff_default)

text \<open>Once the limit of attempts is reached on a disconnected manager, the loop keeps ticking but the manager
  stays disconnected forever, even if a dial would succeed.\<close>
lemma exhausted_manager_gives_up:
  assumes "\<not> mu sm" and "\<not> isConnected sm" and "0 < sint (MaxRetries (config sm))"
    and "sint (MaxRetries (config sm)) \<le> sint (retryCount sm)"
  shows "\<exists>w'. reconnectionLoop (worker_callbacks open_stream send) evs (sm, w) b = Some ((sm, w'), b)"
  using wk.loop_exhausted [of sm open_stream send evs w b] assms by (simp add: exhausted_def)

section \<open>Property: the life of a worker\<close>

text \<open>Workers all of whose calls have returned, in any order and number.\<close>

inductive worker_reach :: "'c StreamManager \<times> 's Worker \<Rightarrow> bool" where
  new: "NewWorker cfg = Inr s \<Longrightarrow> worker_reach s"
| register: "worker_reach (sm, w) \<Longrightarrow> worker_reach (sm, snd (RegisterHandler taskType handler w))"
| start: "worker_reach s \<Longrightarrow> Start open_stream send dial now s = Some (err, s') \<Longrightarrow> worker_reach s'"
| stop: "worker_reach s \<Longrightarrow> Stop out s = Some (Return (err, s')) \<Longrightarrow> worker_reach s'"

definition idle :: "'c StreamManager \<Rightarrow> 's Worker \<Rightarrow> bool" where
  "idle sm w \<longleftrightarrow> \<not> mu sm \<and> conn sm = None \<and> \<not> isConnected sm \<and> loops sm = 0 \<and>
     done_closed sm = worker_done w \<and> \<not> connected w \<and> client w = None \<and> readers w = 0 \<and> sent w = [] \<and>
     TasksProcessed (stats w) = 0"

lemma idle_new: "NewWorker cfg = Inr (sm, w) \<Longrightarrow> idle sm w"
  by (auto simp: NewWorker_def NewStreamManager_def idle_def split: if_splits)

lemma Stop_effect:
  assumes "\<not> mu sm" and "conn sm = None" and "done_closed sm = worker_done w"
  shows "Stop out (sm, w) =
    (if worker_done w then Some (Panic ''close of closed channel'')
     else Some (Return (None, sm\<lparr>done_closed := True, ctx_done := True\<rparr>,
       w\<lparr>worker_done := True, worker_ctx_done := True\<rparr>)))"
  using assms by (simp add: Stop_def StreamManager_Close_def lock_simps Let_def)

lemma worker_reach_idle:
  assumes "worker_reach s"
  shows "idle (fst s) (snd s)"
  using assms
proof (induction rule: worker_reach.induct)
  case (new cfg s)
  then show ?case using idle_new [of cfg "fst s" "snd s"] by simp
next
  case (register sm w taskType handler)
  then show ?case by (auto simp: idle_def RegisterHandler_def split: option.split)
next
  case (start s open_stream send dial now err s')
  obtain sm w where s: "s = (sm, w)" by force
  have "\<not> mu sm" using start.IH s by (simp add: idle_def)
  note b = start_blocks_after_dial [OF this, where open_stream = open_stream and send = send and now = now and w = w]
  show ?case
  proof (cases dial)
    case (Inl e)
    then show ?thesis using start b s by auto
  next
    case (Inr c)
    then show ?thesis using start b s by auto
  qed
next
  case (stop s out err s')
  obtain sm w where s: "s = (sm, w)" by force
  have i: "idle sm w" using stop.IH s by simp
  then have "Stop out (sm, w) = Some (Return (err, s')) \<Longrightarrow> \<not> worker_done w \<and>
      s' = (sm\<lparr>done_closed := True, ctx_done := True\<rparr>, w\<lparr>worker_done := True, worker_ctx_done := True\<rparr>)"
    using Stop_effect [of sm w out] by (auto simp: idle_def split: if_splits)
  with stop.hyps(2) s i show ?case by (auto simp: idle_def)
qed

text \<open>C36: no worker ever gets to work, with the callbacks of the repository: as long as its calls (\<^verbatim>\<open>RegisterHandler\<close>,
  \<^verbatim>\<open>Start\<close>, \<^verbatim>\<open>Stop\<close>, in any order and number) have returned, it has sent nothing, not even its
  registration, no reader runs and no task is counted. \<^verbatim>\<open>Start\<close> returns exactly when the dial fails, and
  stopped workers are not exempt; the first \<^verbatim>\<open>Stop\<close> returns nil and closes the manager, and every later
  one panics.\<close>
theorem worker_never_works:
  assumes "worker_reach (sm, w)"
  shows "sent w = [] \<and> readers w = 0 \<and> TasksProcessed (Worker_GetStats w) = 0 \<and> \<not> Worker_IsConnected w \<and>
    ((\<exists>r. Start open_stream send dial now (sm, w) = Some r) = (\<exists>err. dial = Inl err)) \<and>
    Stop out (sm, w) =
      (if worker_done w then Some (Panic ''close of closed channel'')
       else Some (Return (None, sm\<lparr>done_closed := True, ctx_done := True\<rparr>,
         w\<lparr>worker_done := True, worker_ctx_done := True\<rparr>)))"
proof -
  have i: "idle sm w" using worker_reach_idle [OF assms] by simp
  then have "\<not> mu sm" by (simp add: idle_def)
  note b = start_blocks_after_dial [OF this, where open_stream = open_stream and send = send and now = now and w = w]
  have "(\<exists>r. Start open_stream send dial now (sm, w) = Some r) = (\<exists>err. dial = Inl err)"
    using b by (cases dial) auto
  moreover have "Stop out (sm, w) =
      (if worker_done w then Some (Panic ''close of closed channel'')
       else Some (Return (None, sm\<lparr>done_closed := True, ctx_done := True\<rparr>,
         w\<lparr>worker_done := True, worker_ctx_done := True\<rparr>)))"
    using i by (intro Stop_effect) (simp_all add: idle_def)
  ultimately show ?thesis using i by (simp add: idle_def Worker_GetStats_def Worker_IsConnected_def)
qed

text \<open>A worker with a handler, whose first dial failed, and which was stopped.\<close>

definition stopped_worker :: "nat StreamManager \<times> nat Worker" where
  "stopped_worker = (sample_manager\<lparr>done_closed := True, ctx_done := True\<rparr>,
     sample_worker\<lparr>handlers := [''email'' \<mapsto> (\<lambda>t. (None, None))], worker_done := True, worker_ctx_done := True\<rparr>)"

lemma stopped_worker_reach: "worker_reach stopped_worker"
proof -
  let ?w = "sample_worker\<lparr>handlers := [''email'' \<mapsto> (\<lambda>t. (None, None))]\<rparr>"
  have "worker_reach (sample_manager, snd (RegisterHandler ''email'' (Some (\<lambda>t. (None, None))) sample_worker))"
    by (rule worker_reach.register [OF worker_reach.new [OF sample_new]])
  then have "worker_reach (sample_manager, ?w)" by (simp add: RegisterHandler_def sample_worker_def)
  then have s: "worker_reach (sample_manager, ?w)"
    using worker_reach.start [where dial = "Inl ''refused''" and now = 5 and open_stream = "\<lambda>c. Inr 0"
        and send = "\<lambda>_ _. None"] start_blocks_after_dial [OF sample_free] by metis
  have "Stop (Closed None) (sample_manager, ?w) = Some (Return (None, stopped_worker))"
    by (simp add: Stop_effect stopped_worker_def sample_manager_def NewStreamManager_def sample_worker_def)
  then show ?thesis by (rule worker_reach.stop [OF s])
qed

theorem worker_never_works_witness:
  "sent (snd stopped_worker) = [] \<and> worker_done (snd stopped_worker) \<and>
   Start (\<lambda>c. Inr 0) (\<lambda>_ _. None) (Inr 7) 5 stopped_worker = None \<and>
   Stop (Closed None) stopped_worker = Some (Panic ''close of closed channel'')"
  using worker_never_works [OF stopped_worker_reach [unfolded stopped_worker_def], of "\<lambda>c. Inr 0" "\<lambda>_ _. None" "Inr 7" 5
      "Closed None"]
  by (cases "Start (\<lambda>c. Inr 0) (\<lambda>_ _. None) (Inr 7) 5 stopped_worker") (auto simp: stopped_worker_def)

section \<open>Properties: task processing\<close>

text \<open>Every outcome of a handler becomes one result for the task: a missing handler and a handler error give a
  failure with their text under the task's identifier, no result and no error gives a success, and a
  result that is returned is sent as it is, with the identifier of the task and the time filled in when
  it has none.\<close>
lemma handler_outcome_to_result:
  "task_result clk t None =
     \<lparr>ResultTaskId = Id t, Success = False, Output = None,
      ResultError = ''no handler for task type: '' @ Type t, ResultCompletedAt = unix_seconds (clk 1)\<rparr> \<and>
   (case h t of
      (res, Some e) \<Rightarrow>
        ResultTaskId (task_result clk t (Some h)) = Id t \<and> \<not> Success (task_result clk t (Some h)) \<and>
        ResultError (task_result clk t (Some h)) = e \<and> Output (task_result clk t (Some h)) = None
    | (None, None) \<Rightarrow>
        ResultTaskId (task_result clk t (Some h)) = Id t \<and> Success (task_result clk t (Some h)) \<and>
        ResultError (task_result clk t (Some h)) = [] \<and> Output (task_result clk t (Some h)) = None
    | (Some r, None) \<Rightarrow>
        ResultTaskId (task_result clk t (Some h)) = (if ResultTaskId r = [] then Id t else ResultTaskId r) \<and>
        Success (task_result clk t (Some h)) = Success r \<and>
        ResultError (task_result clk t (Some h)) = ResultError r \<and>
        Output (task_result clk t (Some h)) = Output r \<and>
        ResultCompletedAt (task_result clk t (Some h)) =
          (if ResultCompletedAt r = 0 then unix_seconds (clk 4) else ResultCompletedAt r))"
  by (auto simp: task_result_def Let_def split: prod.split option.split)

fun event_task :: "stream_event \<Rightarrow> (clock \<times> ProtoTask) option" where
  "event_task (RecvMessage clk (Some m)) =
     (case OrchestratorPayload m of Some (OrchestratorMessage_Task (Some t)) \<Rightarrow> Some (clk, t) | _ \<Rightarrow> None)"
| "event_task ev = None"

fun complete_message :: "stream_event \<Rightarrow> bool" where
  "complete_message (RecvMessage clk None) = True"
| "complete_message (RecvMessage clk (Some m)) =
     (case OrchestratorPayload m of
        Some (OrchestratorMessage_Task t) \<Rightarrow> t \<noteq> None
      | Some (OrchestratorMessage_Ack a) \<Rightarrow> a \<noteq> None
      | None \<Rightarrow> True)"
| "complete_message ev = False"

definition result_message :: "'s Worker \<Rightarrow> clock \<times> ProtoTask \<Rightarrow> WorkerMessage" where
  "result_message w x =
     \<lparr>MessageWorkerId = ConfigWorkerID (worker_config w),
      WorkerPayload = Some (WorkerMessage_Result (Some (task_result (fst x) (snd x) (handlers w (Type (snd x))))))\<rparr>"

definition failed_task :: "'s Worker \<Rightarrow> clock \<times> ProtoTask \<Rightarrow> bool" where
  "failed_task w x \<longleftrightarrow> \<not> Success (task_result (fst x) (snd x) (handlers w (Type (snd x))))"

lemma recordTaskProcessed_counts [simp]:
  "TasksProcessed (recordTaskProcessed now d ok st) = TasksProcessed st + 1"
  "TasksFailed (recordTaskProcessed now d ok st) = TasksFailed st + of_bool (\<not> ok)"
  "TotalProcessTime (recordTaskProcessed now d ok st) = TotalProcessTime st + d"
  by (simp_all add: recordTaskProcessed_def Let_def)

lemma handle_no_task:
  assumes "complete_message (RecvMessage clk msg)" and "event_task (RecvMessage clk msg) = None"
  shows "handleOrchestratorMessage send cb clk stream msg s = Some (Return s)"
  using assms
  by (cases msg) (auto simp: handleOrchestratorMessage_def split: option.splits OrchestratorMessage_Payload.splits)

lemma handle_task:
  assumes "event_task (RecvMessage clk msg) = Some (clk', t)" and "\<And>st m. send st m = None"
  shows "clk' = clk \<and> handleOrchestratorMessage send cb clk stream msg (sm, w) =
    Some (Return (sm, w\<lparr>stats := recordTaskProcessed (clk 6) (of_int (since (clk 5) (clk 0)))
        (\<not> failed_task w (clk, t)) (stats w), sent := sent w @ [result_message w (clk, t)]\<rparr>))"
  using assms
  by (cases msg)
    (auto simp: handleOrchestratorMessage_def processTask_def Let_def failed_task_def result_message_def
      split: option.splits OrchestratorMessage_Payload.splits)

lemma processStream_results:
  assumes "\<And>st m. send st m = None" and "\<forall>ev \<in> set evs. complete_message ev"
  shows "\<exists>w'. processStream send cb stream evs (sm, w) = Some (Return (sm, w')) \<and>
    handlers w' = handlers w \<and> worker_config w' = worker_config w \<and>
    sent w' = sent w @ map (result_message w) (List.map_filter event_task evs) \<and>
    TasksProcessed (stats w') = TasksProcessed (stats w) + of_nat (length (List.map_filter event_task evs)) \<and>
    TasksFailed (stats w') =
      TasksFailed (stats w) + of_nat (length (filter (failed_task w) (List.map_filter event_task evs)))"
  using assms(2)
proof (induction evs arbitrary: w)
  case Nil
  then show ?case by (simp add: List.map_filter_simps)
next
  case (Cons ev evs)
  then obtain clk msg where ev: "ev = RecvMessage clk msg" by (cases ev) auto
  show ?case
  proof (cases "event_task ev")
    case None
    with handle_no_task [of clk msg send cb stream "(sm, w)"] ev Cons show ?thesis
      by (simp add: List.map_filter_simps)
  next
    case (Some x)
    obtain clk' t where x: "x = (clk', t)" by force
    define w1 where "w1 = w\<lparr>stats := recordTaskProcessed (clk 6) (of_int (since (clk 5) (clk 0)))
        (\<not> failed_task w (clk, t)) (stats w), sent := sent w @ [result_message w (clk, t)]\<rparr>"
    have h: "clk' = clk" "handleOrchestratorMessage send cb clk stream msg (sm, w) = Some (Return (sm, w1))"
      using handle_task [of clk msg clk' t send cb stream sm w] Some x ev assms(1) by (simp_all add: w1_def)
    have same: "result_message w1 = result_message w" "failed_task w1 = failed_task w"
      by (simp_all add: fun_eq_iff result_message_def failed_task_def w1_def)
    from Cons.IH [of w1] Cons.prems obtain w' where
      "processStream send cb stream evs (sm, w1) = Some (Return (sm, w'))"
      "handlers w' = handlers w1 \<and> worker_config w' = worker_config w1"
      "sent w' = sent w1 @ map (result_message w) (List.map_filter event_task evs)"
      "TasksProcessed (stats w') = TasksProcessed (stats w1) + of_nat (length (List.map_filter event_task evs))"
      "TasksFailed (stats w') =
        TasksFailed (stats w1) + of_nat (length (filter (failed_task w) (List.map_filter event_task evs)))"
      unfolding same by auto
    with ev Some x h show ?thesis by (simp add: List.map_filter_simps w1_def)
  qed
qed

text \<open>C38: on a stream where sending works, the reader answers each task with exactly one result, in the order of
  arrival and under the worker's identifier, ignores acknowledgements and empty messages, and counts
  every task, and every failed task, once.\<close>
theorem one_result_per_task:
  assumes "\<And>st m. send st m = None" and "\<forall>ev \<in> set evs. complete_message ev"
  shows "\<exists>w'. processStream send cb stream evs (sm, w) = Some (Return (sm, w')) \<and>
    sent w' = sent w @ map (result_message w) (List.map_filter event_task evs) \<and>
    TasksProcessed (Worker_GetStats w') =
      TasksProcessed (Worker_GetStats w) + of_nat (length (List.map_filter event_task evs)) \<and>
    TasksFailed (Worker_GetStats w') =
      TasksFailed (Worker_GetStats w) + of_nat (length (filter (failed_task w) (List.map_filter event_task evs)))"
  using processStream_results [where send = send and cb = cb and stream = stream and sm = sm and w = w, OF assms]
  by (auto simp: Worker_GetStats_def)

definition task_event :: stream_event where
  "task_event = RecvMessage (\<lambda>_. 5) (Some \<lparr>OrchestratorPayload = Some (OrchestratorMessage_Task (Some
     \<lparr>Id = ''t1'', Type = ''email'', TaskPayload = None, Metadata = Map.empty, Priority = 0, TaskCreatedAt = 0\<rparr>))\<rparr>)"

theorem one_result_per_task_witness:
  "\<exists>w'. processStream (\<lambda>_ _. None) (worker_callbacks (\<lambda>c. Inr 0) (\<lambda>_ _. None)) 0
      [task_event, RecvMessage (\<lambda>_. 6) None, task_event] (sample_manager, sample_worker) =
      Some (Return (sample_manager, w')) \<and>
    length (sent w') = 2 \<and> TasksProcessed (Worker_GetStats w') = 2 \<and> TasksFailed (Worker_GetStats w') = 2"
proof -
  have "\<forall>ev \<in> set [task_event, RecvMessage (\<lambda>_. 6) None, task_event]. complete_message ev"
    by (simp add: task_event_def)
  from one_result_per_task [OF _ this, where send = "\<lambda>_ _. None" and stream = 0 and sm = sample_manager
      and cb = "worker_callbacks (\<lambda>c. Inr 0) (\<lambda>_ _. None)" and w = sample_worker]
  show ?thesis
    by (auto simp: task_event_def List.map_filter_simps failed_task_def sample_worker_def task_result_def
        Worker_GetStats_def)
qed

end
