(* ===== verification/Orchestrator_Server.thy ===== *)
theory Orchestrator_Server
  imports Proto_Messages
begin

text \<open>
  The orchestrator process, \<^verbatim>\<open>src/cmd/orchestrator/handler.go\<close>: the loop that serves one worker
  stream, and the placeholders of \<^verbatim>\<open>src/internal/scheduler\<close> and \<^verbatim>\<open>src/internal/routing\<close>.

  The stream is its sequence of receive outcomes, and the outcome of the \<open>k\<close>-th send. The loop
  ends when a receive reports the end of the stream or an error, or a send fails; on a stream
  that delivers no further outcome it waits for the next one (\<open>Waiting\<close>).
\<close>

section \<open>The stream loop\<close>

datatype recv = Received "WorkerMessage option" | EndOfStream | RecvError error

datatype loop_end = Waiting | Returned "error option"

definition registered_ack :: OrchestratorMessage where
  "registered_ack = \<lparr>OrchestratorPayload = Some (OrchestratorMessage_Ack (Some \<lparr>AckMessage = ''registered''\<rparr>))\<rparr>"

text \<open>
  The loop over the receive outcomes; \<open>sent\<close> are the messages handed to \<^verbatim>\<open>Send\<close> so far.
\<close>

fun StreamTasks ::
    "(nat \<Rightarrow> error option) \<Rightarrow> OrchestratorMessage list \<Rightarrow> recv list \<Rightarrow> loop_end \<times> OrchestratorMessage list" where
  "StreamTasks send sent [] = (Waiting, sent)"
| "StreamTasks send sent (EndOfStream # rest) = (Returned None, sent)"
| "StreamTasks send sent (RecvError err # rest) = (Returned (Some err), sent)"
| "StreamTasks send sent (Received msg # rest) =
     (case WorkerMessage_GetPayload msg of
        Some (WorkerMessage_Registration reg) \<Rightarrow>
          (case send (length sent) of
             Some err \<Rightarrow> (Returned (Some err), sent @ [registered_ack])
           | None \<Rightarrow> StreamTasks send (sent @ [registered_ack]) rest)
      | Some (WorkerMessage_Result res) \<Rightarrow> StreamTasks send sent rest
      | Some (WorkerMessage_Heartbeat hb) \<Rightarrow> StreamTasks send sent rest
      | None \<Rightarrow> StreamTasks send sent rest)"

section \<open>Scheduler and router placeholders\<close>

text \<open>The interfaces as method tables over the implementation's state.\<close>

record 's Scheduler =
  Enqueue :: "string \<Rightarrow> string \<Rightarrow> goint \<Rightarrow> 's \<Rightarrow> error option \<times> 's"
  Dequeue :: "string list \<Rightarrow> 's \<Rightarrow> string result \<times> 's"
  Cancel :: "string \<Rightarrow> 's \<Rightarrow> error option \<times> 's"

record 'r Router =
  Route :: "string \<Rightarrow> string \<Rightarrow> 'r \<Rightarrow> string result \<times> 'r"

datatype DefaultScheduler = NewDefaultScheduler

datatype DefaultRouter = NewDefaultRouter

definition DefaultScheduler_Enqueue ::
    "string \<Rightarrow> string \<Rightarrow> goint \<Rightarrow> DefaultScheduler \<Rightarrow> error option \<times> DefaultScheduler" where
  "DefaultScheduler_Enqueue taskID taskType priority s = (None, s)"

definition DefaultScheduler_Dequeue ::
    "string list \<Rightarrow> DefaultScheduler \<Rightarrow> string result \<times> DefaultScheduler" where
  "DefaultScheduler_Dequeue capabilities s = (Inr [], s)"

definition DefaultScheduler_Cancel ::
    "string \<Rightarrow> DefaultScheduler \<Rightarrow> error option \<times> DefaultScheduler" where
  "DefaultScheduler_Cancel taskID s = (None, s)"

definition DefaultRouter_Route ::
    "string \<Rightarrow> string \<Rightarrow> DefaultRouter \<Rightarrow> string result \<times> DefaultRouter" where
  "DefaultRouter_Route taskID taskType r = (Inr [], r)"

definition DefaultScheduler_methods :: "DefaultScheduler Scheduler" where
  "DefaultScheduler_methods =
     \<lparr>Enqueue = DefaultScheduler_Enqueue, Dequeue = DefaultScheduler_Dequeue,
      Cancel = DefaultScheduler_Cancel\<rparr>"

definition DefaultRouter_methods :: "DefaultRouter Router" where
  "DefaultRouter_methods = \<lparr>Route = DefaultRouter_Route\<rparr>"

text \<open>
  The placeholders accept and lose every task: after any number of accepted calls no worker is
  given a task, and no task has an address.
\<close>

lemma default_scheduler_loses_tasks:
  "Dequeue DefaultScheduler_methods caps
     (fold (\<lambda>(i, ty, p) s. snd (Enqueue DefaultScheduler_methods i ty p s)) ts s) = (Inr [], NewDefaultScheduler)"
  "fst (Route DefaultRouter_methods i ty r) = Inr []"
  by (cases "fold (\<lambda>(i, ty, p) s. snd (Enqueue DefaultScheduler_methods i ty p s)) ts s")
    (simp_all add: DefaultScheduler_methods_def DefaultRouter_methods_def DefaultScheduler_Dequeue_def
      DefaultRouter_Route_def)

section \<open>What a worker sees\<close>

definition is_registration :: "WorkerMessage option \<Rightarrow> bool" where
  "is_registration msg \<longleftrightarrow>
     (case WorkerMessage_GetPayload msg of Some (WorkerMessage_Registration reg) \<Rightarrow> True | _ \<Rightarrow> False)"

lemma StreamTasks_message:
  "StreamTasks send sent (Received msg # rest) =
     (if is_registration msg
      then (case send (length sent) of
              Some err \<Rightarrow> (Returned (Some err), sent @ [registered_ack])
            | None \<Rightarrow> StreamTasks send (sent @ [registered_ack]) rest)
      else StreamTasks send sent rest)"
  by (simp add: is_registration_def split: option.split WorkerMessage_Payload.split)

lemma StreamTasks_messages:
  assumes "\<And>k. send k = None"
  shows "StreamTasks send sent (map Received msgs @ rest) =
    StreamTasks send (sent @ replicate (length (filter is_registration msgs)) registered_ack) rest"
proof (induction msgs arbitrary: sent)
  case Nil
  then show ?case by simp
next
  case (Cons msg msgs)
  have "replicate n registered_ack @ [registered_ack] = registered_ack # replicate n registered_ack" for n
    by (simp add: replicate_append_same)
  with Cons.IH show ?case by (simp add: StreamTasks_message assms del: StreamTasks.simps(4))
qed

lemma StreamTasks_only_acks:
  "\<exists>n. snd (StreamTasks send sent evs) = sent @ replicate n registered_ack"
proof (induction evs arbitrary: sent)
  case Nil
  then show ?case by (auto intro: exI [of _ 0])
next
  case (Cons ev rest)
  have stop: "\<exists>n. sent @ [registered_ack] = sent @ replicate n registered_ack"
    by (rule exI [of _ 1]) simp
  have more: "\<exists>n. snd (StreamTasks send (sent @ [registered_ack]) rest) = sent @ replicate n registered_ack"
  proof -
    from Cons.IH [of "sent @ [registered_ack]"] obtain n where
      "snd (StreamTasks send (sent @ [registered_ack]) rest) = sent @ replicate (Suc n) registered_ack" by auto
    then show ?thesis by blast
  qed
  show ?case
  proof (cases ev)
    case (Received msg)
    then show ?thesis
      using stop more Cons.IH [of sent]
      by (simp add: StreamTasks_message del: StreamTasks.simps(4) split: option.split)
  qed (auto intro: exI [of _ 0])
qed

section \<open>Properties of the orchestrator stream\<close>

text \<open>C39: a worker stream on which sending works is answered with one acknowledgement per registration and
  nothing else; results, heartbeats and empty messages get no answer. The loop goes on until the stream
  ends, and then returns nil at its end and the error otherwise.\<close>
theorem stream_acknowledges_registrations:
  assumes "\<And>k. send k = None"
  shows "StreamTasks send [] (map Received msgs @ EndOfStream # rest) =
      (Returned None, replicate (length (filter is_registration msgs)) registered_ack) \<and>
    StreamTasks send [] (map Received msgs @ RecvError err # rest) =
      (Returned (Some err), replicate (length (filter is_registration msgs)) registered_ack) \<and>
    StreamTasks send [] (map Received msgs) =
      (Waiting, replicate (length (filter is_registration msgs)) registered_ack)"
  using StreamTasks_messages [OF assms, where rest = "[]"] StreamTasks_messages [OF assms, where sent = "[]"]
  by simp

definition registration_msg :: "WorkerMessage option" where
  "registration_msg = Some \<lparr>MessageWorkerId = ''w1'', WorkerPayload = Some (WorkerMessage_Registration
     (Some \<lparr>RegistrationWorkerId = ''w1'', RegistrationCapabilities = [''email'']\<rparr>))\<rparr>"

definition heartbeat_msg :: "WorkerMessage option" where
  "heartbeat_msg = Some \<lparr>MessageWorkerId = ''w1'', WorkerPayload = Some (WorkerMessage_Heartbeat
     (Some \<lparr>HeartbeatWorkerId = ''w1'', HeartbeatTimestamp = 4\<rparr>))\<rparr>"

theorem stream_acknowledges_registrations_witness:
  "StreamTasks (\<lambda>_. None) [] [Received registration_msg, Received heartbeat_msg, Received None, EndOfStream] =
     (Returned None, [registered_ack])"
  using stream_acknowledges_registrations [of "\<lambda>_. None" "[registration_msg, heartbeat_msg, None]" "[]"]
  by (simp add: registration_msg_def heartbeat_msg_def is_registration_def getter_defs)

text \<open>The orchestrator never dispatches a task: on every stream, whatever is received and whichever sends
  fail, every message it sends is the acknowledgement of a registration.\<close>
lemma stream_never_dispatches:
  "\<exists>n. snd (StreamTasks send [] evs) = replicate n registered_ack"
  using StreamTasks_only_acks [of send "[]" evs] by simp

end
