(* ===== verification/End_To_End.thy ===== *)
theory End_To_End
  imports Gateway_Service Worker_Properties Orchestrator_Server
begin

text \<open>
  The components together: a task is submitted at the gateway, scheduled and dispatched by the
  engine, processed by a worker, and its result reported back. The program has no code yet that
  moves a task from PENDING to DISPATCHED and puts it on a stream, so these calls of the engine, and
  the message that carries the task to the worker, are given explicitly. What the two ends of a stream
  do today is \<open>orchestrator_keeps_worker_idle\<close>.
\<close>

text \<open>The worker's registration is answered with an acknowledgement, and whatever the orchestrator sends on a
  stream, to any messages and with any outcome of its sends, a worker that reads it does not panic,
  runs no handler and answers nothing.\<close>

lemma orchestrator_keeps_worker_idle:
  "StreamTasks (\<lambda>_. None) [] [Received (Some (registration w))] = (Waiting, [registered_ack])"
  "processStream send cb stream (map (RecvMessage clk \<circ> Some) (snd (StreamTasks send' [] recvs))) s =
     Some (Return s)"
proof -
  show "StreamTasks (\<lambda>_. None) [] [Received (Some (registration w))] = (Waiting, [registered_ack])"
    by (simp add: registration_def getter_defs)
  obtain n where n: "snd (StreamTasks send' [] recvs) = replicate n registered_ack"
    using stream_never_dispatches by blast
  have "handleOrchestratorMessage send cb clk stream (Some registered_ack) s = Some (Return s)"
    by (simp add: handleOrchestratorMessage_def registered_ack_def)
  then show "processStream send cb stream (map (RecvMessage clk \<circ> Some) (snd (StreamTasks send' [] recvs))) s =
      Some (Return s)"
    unfolding n by (induction n) simp_all
qed

lemma submit_reach:
  assumes "engine_reach e" and "task_of e (task_id (workflow_id (clk 0)) (clk 1)) = None"
    and "e1 = snd (CreateTask wal_m pm_m (\<lambda>i. clk (1 + i)) e (workflow_id (clk 0)) n d)"
  shows "engine_reach e1"
  unfolding assms(3)
  by (rule engine_reach.step [OF assms(1)]) (rule fresh_step_create, use assms(2) in simp)

text \<open>A pending task that is scheduled and dispatched is DISPATCHED.\<close>

lemma dispatch_reaches:
  assumes "engine_reach e" and "task_of e i = Some t" and "State t = StatePending"
    and "e' = snd (TransitionTask wal_m cd (snd (TransitionTask wal_m cs e i StateScheduled)) i StateDispatched)"
  shows "engine_reach e' \<and> (\<exists>t'. task_of e' i = Some t' \<and> State t' = StateDispatched)"
proof -
  define t1 where "t1 = snd (TransitionTo (\<lambda>k. cs (1 + k)) t StateScheduled)"
  have tr: "transition (State t) StateScheduled" using assms(3) by simp
  from transition_view [OF assms(1,2) tr t1_def] obtain e1 where
    e1: "snd (TransitionTask wal_m cs e i StateScheduled) = e1" "task_of e1 i = Some t1" "engine_reach e1" by auto
  have "State t1 = StateScheduled" using tr by (simp add: t1_def TransitionTo_effect)
  then have tr1: "transition (State t1) StateDispatched" by simp
  from transition_view [OF e1(3,2) tr1 refl, of cd] show ?thesis
    using tr1 by (auto simp: assms(4) e1(1) TransitionTo_effect)
qed

text \<open>What a worker sends for a task, when sending works.\<close>

lemma processTask_sends:
  assumes "\<And>st m. send st m = None"
  shows "\<exists>w'. processTask send cb clk stream (Some m) (sm, w) = Some (Return (sm, w')) \<and>
    sent w' = sent w @ [result_message w (clk, m)]"
  by (simp add: processTask_def Let_def assms result_message_def)

text \<open>C4: the whole path of a task: submitted at the gateway, scheduled, dispatched, processed by a worker that has a
  handler for its type, and the result message handed back to the gateway. The client then reads
  COMPLETED with the handler's output, or FAILED with its error text, under the identifier it got.\<close>
theorem task_round_trip:
  assumes "engine_reach e" and "Type t \<noteq> []" and "Id t \<noteq> []"
    and fresh: "task_of e (task_id (workflow_id (clk 0)) (clk 1)) = None"
    and submit: "SubmitTask wal_m pm_m clk e (Some \<lparr>RequestTask = Some t\<rparr>) = (Inr resp, e1)"
    and dispatch: "e2 = snd (TransitionTask wal_m c2
        (snd (TransitionTask wal_m c1 e1 (ResponseTaskId resp) StateScheduled)) (ResponseTaskId resp) StateDispatched)"
    and msg: "Id m = ResponseTaskId resp" "Type m = Type t"
    and handler: "handlers w (Type t) = Some h" "h m = (Some r, None)" "ResultTaskId r \<in> {[], Id m}"
    and send: "\<And>st msg. send st msg = None"
  shows "\<exists>w' x st res e3. processTask send cb clkw stream (Some m) (sm, w) = Some (Return (sm, w')) \<and>
    WorkerPayload (last (sent w')) = Some (WorkerMessage_Result (Some x)) \<and>
    GetTaskStatus (handleTaskResult wal_m c3 e2 (Some x)) (Some \<lparr>RequestTaskId = ResponseTaskId resp\<rparr>) = (Inr st, e3) \<and>
    Status st = (if Success r then StateCompleted else StateFailed) \<and> StatusResult st = Some res \<and>
    Success res = Success r \<and>
    (if Success r then Output res = Output r else ResultError res = ResultError r)"
proof -
  from SubmitTask_creates [OF assms(1-3), of clk] obtain u e1' where
    u: "SubmitTask wal_m pm_m clk e (Some \<lparr>RequestTask = Some t\<rparr>) =
        (Inr \<lparr>ResponseTaskId = ID u, Accepted = True, Message = ''Task accepted for execution''\<rparr>, e1')"
      "e1' = snd (CreateTask wal_m pm_m (\<lambda>i. clk (1 + i)) e (workflow_id (clk 0)) (Type t) (TaskPayload t))"
      "task_of e1' = (task_of e)(ID u \<mapsto> u)" "State u = StatePending" by blast
  with submit have resp: "ResponseTaskId resp = ID u" and e1: "e1 = e1'" by auto
  have "task_of e1 (ID u) = Some u" using u(3) e1 by simp
  moreover have "engine_reach e1" by (rule submit_reach [OF assms(1) fresh u(2) [folded e1]])
  ultimately obtain t' where e2: "engine_reach e2" "task_of e2 (ID u) = Some t'" "State t' = StateDispatched"
    using dispatch_reaches [where cs = c1 and cd = c2, OF _ _ u(4) dispatch [unfolded resp]] by blast
  define x where "x = task_result clkw m (handlers w (Type m))"
  have x: "ResultTaskId x = ID u" "Success x = Success r" "Output x = Output r" "ResultError x = ResultError r"
    using handler msg resp by (auto simp: x_def task_result_def)
  from processTask_sends [where send = send, OF send] obtain w' where
    w: "processTask send cb clkw stream (Some m) (sm, w) = Some (Return (sm, w'))"
      "sent w' = sent w @ [result_message w (clkw, m)]" by blast
  have "WorkerPayload (last (sent w')) = Some (WorkerMessage_Result (Some x))"
    using w(2) by (simp add: result_message_def x_def)
  moreover from handle_result_status [of e2 x t' c3] e2 x obtain st res e3 where
    "GetTaskStatus (handleTaskResult wal_m c3 e2 (Some x)) (Some \<lparr>RequestTaskId = ID u\<rparr>) = (Inr st, e3)"
    "Status st = (if Success r then StateCompleted else StateFailed)" "StatusResult st = Some res"
    "Success res = Success r" "Success r \<longrightarrow> Output res = Output r"
    "\<not> Success r \<longrightarrow> ResultError res = ResultError r" by auto
  ultimately show ?thesis using w(1) resp by auto
qed

definition echo_result :: TaskResult where
  "echo_result = \<lparr>ResultTaskId = [], Success = True, Output = Some [42], ResultError = [], ResultCompletedAt = 0\<rparr>"

definition echo_worker :: "nat Worker" where
  "echo_worker = snd (RegisterHandler ''email'' (Some (\<lambda>t. (Some echo_result, None))) sample_worker)"

theorem task_round_trip_witness:
  "\<exists>resp e1. SubmitTask wal_m pm_m (\<lambda>_. 5) eng0 (Some \<lparr>RequestTask = Some sample_task\<rparr>) = (Inr resp, e1) \<and>
    (let e2 = snd (TransitionTask wal_m (\<lambda>_. 7) (snd (TransitionTask wal_m (\<lambda>_. 6) e1 (ResponseTaskId resp)
           StateScheduled)) (ResponseTaskId resp) StateDispatched);
         m = sample_task\<lparr>Id := ResponseTaskId resp\<rparr>
     in \<exists>w' x st res e3. processTask (\<lambda>_ _. None) (worker_callbacks (\<lambda>c. Inr 0) (\<lambda>_ _. None)) (\<lambda>_. 8) 0 (Some m)
          (sample_manager, echo_worker) = Some (Return (sample_manager, w')) \<and>
        WorkerPayload (last (sent w')) = Some (WorkerMessage_Result (Some x)) \<and>
        GetTaskStatus (handleTaskResult wal_m (\<lambda>_. 9) e2 (Some x)) (Some \<lparr>RequestTaskId = ResponseTaskId resp\<rparr>) =
          (Inr st, e3) \<and>
        Status st = StateCompleted \<and> StatusResult st = Some res \<and> Output res = Some [42])"
proof -
  have t: "Type sample_task \<noteq> []" "Id sample_task \<noteq> []" by (simp_all add: sample_task_def)
  from SubmitTask_creates [OF eng0_reach t, of "\<lambda>_. 5"] obtain resp e1 where
    s: "SubmitTask wal_m pm_m (\<lambda>_. 5) eng0 (Some \<lparr>RequestTask = Some sample_task\<rparr>) = (Inr resp, e1)" by metis
  have h: "handlers echo_worker (Type sample_task) = Some (\<lambda>t. (Some echo_result, None))"
    by (simp add: echo_worker_def RegisterHandler_def sample_task_def)
  have f: "task_of eng0 (task_id (workflow_id 5) 5) = None" by (simp add: eng0_def NewEngine_def task_of_def)
  note trip = task_round_trip [where clk = "\<lambda>_. 5" and m = "sample_task\<lparr>Id := ResponseTaskId resp\<rparr>"
        and ?c1.0 = "\<lambda>_. 6" and ?c2.0 = "\<lambda>_. 7" and ?c3.0 = "\<lambda>_. 9" and clkw = "\<lambda>_. 8"
        and w = echo_worker and r = echo_result and send = "\<lambda>_ _. None" and stream = 0 and sm = sample_manager
        and cb = "worker_callbacks (\<lambda>c. Inr 0) (\<lambda>_ _. None)", OF eng0_reach t f s refl _ _ h]
  have "Success echo_result" "Output echo_result = Some [42]" "ResultTaskId echo_result = []"
    by (simp_all add: echo_result_def)
  then show ?thesis using s trip by (fastforce simp: Let_def)
qed

end
