(* ===== verification/Gateway_Server.thy ===== *)
theory Gateway_Server
  imports Task_Model Proto_Messages
begin

text \<open>
  The gateway process, \<^verbatim>\<open>src/cmd/gateway\<close>: the placeholder gRPC handlers of \<^verbatim>\<open>handler.go\<close>, the
  REST handlers of \<^verbatim>\<open>http_handler.go\<close> and the routes of \<^verbatim>\<open>main.go\<close>.

  A handler's response is the status code and the value that is handed to the JSON encoder; the
  request body enters as the outcome of the JSON decoder (\<open>None\<close> when it reports an error).
  The multiplexer \<^verbatim>\<open>http.ServeMux\<close> is modelled for paths that are already clean (no empty
  and no dot segments): an exact pattern, a pattern with a trailing slash for its subtree (the
  longest match wins), and the redirect to a subtree pattern when only its slash is missing.
\<close>

section \<open>GatewayHandler (handler.go)\<close>

definition GatewayHandler_SubmitTask :: "SubmitTaskRequest option \<Rightarrow> SubmitTaskResponse rpc_result" where
  "GatewayHandler_SubmitTask req =
     (if SubmitTaskRequest_GetTask req = None
      then Inl (InvalidArgument, ''task must not be nil'')
      else
        let taskID = ProtoTask_GetId (SubmitTaskRequest_GetTask req)
        in Inr \<lparr>ResponseTaskId = taskID, Accepted = True, Message = ''task accepted''\<rparr>)"

definition GatewayHandler_GetTaskStatus :: "TaskStatusRequest option \<Rightarrow> TaskStatusResponse rpc_result" where
  "GatewayHandler_GetTaskStatus req =
     (let taskID = TaskStatusRequest_GetTaskId req in
      if taskID = [] then Inl (InvalidArgument, ''task_id must not be empty'')
      else Inr \<lparr>StatusTaskId = taskID, Status = ''pending'', StatusResult = None\<rparr>)"

section \<open>HTTPHandler (http_handler.go)\<close>

text \<open>The values of the input object are of any type: no handler reads them.\<close>

record 'v StartWorkflowRequest =
  WorkflowName :: string
  Input :: "string \<rightharpoonup> 'v"

record StartWorkflowResponse =
  StartedWorkflowID :: string
  StartedStatus :: string
  StartedMessage :: string

record GetWorkflowStatusResponse =
  StatusWorkflowID :: string
  WorkflowStatus :: string

datatype Body =
    ErrorResponse string
  | StartResponse StartWorkflowResponse
  | StatusResponse GetWorkflowStatusResponse
  | HealthResponse "string \<rightharpoonup> string"

record Response =
  code :: nat
  content_type :: string
  body :: Body

definition writeJSON :: "nat \<Rightarrow> Body \<Rightarrow> Response" where
  "writeJSON c v = \<lparr>code = c, content_type = ''application/json'', body = v\<rparr>"

text \<open>Slicing a string with an offset out of range panics.\<close>

definition slice_from :: "string \<Rightarrow> nat \<Rightarrow> string outcome" where
  "slice_from s n =
     (if n \<le> length s then Return (drop n s) else Panic ''slice bounds out of range'')"

definition slice_to :: "string \<Rightarrow> nat \<Rightarrow> string outcome" where
  "slice_to s n =
     (if n \<le> length s then Return (take n s) else Panic ''slice bounds out of range'')"

definition extractPathParam :: "string \<Rightarrow> string \<Rightarrow> string \<Rightarrow> string outcome" where
  "extractPathParam path prefx suffx =
     (if length path \<le> length prefx + length suffx then Return []
      else
        case slice_from path (length prefx) of
          Panic m \<Rightarrow> Panic m
        | Return trimmed \<Rightarrow>
            if length suffx > 0 \<and> length trimmed > length suffx
            then slice_to trimmed (length trimmed - length suffx)
            else Return trimmed)"

definition StartWorkflow :: "'v StartWorkflowRequest option \<Rightarrow> Response" where
  "StartWorkflow decoded =
     (case decoded of
        None \<Rightarrow> writeJSON 400 (ErrorResponse ''invalid request body'')
      | Some req \<Rightarrow>
          if WorkflowName req = [] then writeJSON 400 (ErrorResponse ''workflow_name is required'')
          else writeJSON 200 (StartResponse
                 \<lparr>StartedWorkflowID = ''wf-placeholder'', StartedStatus = ''started'',
                  StartedMessage = ''workflow started successfully''\<rparr>))"

definition workflows_path :: string where "workflows_path = ''/api/v1/workflows/''"
definition status_suffix :: string where "status_suffix = ''/status''"

definition GetWorkflowStatus :: "string \<Rightarrow> Response outcome" where
  "GetWorkflowStatus path =
     (case extractPathParam path workflows_path status_suffix of
        Panic m \<Rightarrow> Panic m
      | Return wid \<Rightarrow>
          if wid = [] then Return (writeJSON 400 (ErrorResponse ''workflow id is required''))
          else Return (writeJSON 200 (StatusResponse
                 \<lparr>StatusWorkflowID = wid, WorkflowStatus = ''running''\<rparr>)))"

definition HealthCheck :: Response where
  "HealthCheck = writeJSON 200 (HealthResponse [''status'' \<mapsto> ''ok''])"

section \<open>Routes (main.go)\<close>

datatype Route = StartRoute | StatusRoute | HealthRoute | SwaggerRoute | RedirectTo string | NoRoute

definition has_prefix :: "string \<Rightarrow> string \<Rightarrow> bool" where
  "has_prefix p s \<longleftrightarrow> take (length p) s = p"

definition route :: "bool \<Rightarrow> string \<Rightarrow> Route" where
  "route swaggerEnabled path =
     (if path = workflows_path @ ''start'' then StartRoute
      else if has_prefix workflows_path path then StatusRoute
      else if path = ''/healthz'' then HealthRoute
      else if swaggerEnabled \<and> has_prefix ''/swagger/'' path then SwaggerRoute
      else if path @ ''/'' = workflows_path then RedirectTo workflows_path
      else if swaggerEnabled \<and> path @ ''/'' = ''/swagger/'' then RedirectTo ''/swagger/''
      else NoRoute)"

text \<open>The response of the three REST handlers; the Swagger UI is code of another package.\<close>

definition serve :: "bool \<Rightarrow> string \<Rightarrow> 'v StartWorkflowRequest option \<Rightarrow> Response outcome option" where
  "serve swaggerEnabled path decoded =
     (case route swaggerEnabled path of
        StartRoute \<Rightarrow> Some (Return (StartWorkflow decoded))
      | StatusRoute \<Rightarrow> Some (GetWorkflowStatus path)
      | HealthRoute \<Rightarrow> Some (Return HealthCheck)
      | _ \<Rightarrow> None)"

definition http_port :: "goint \<Rightarrow> goint" where
  "http_port gatewayPort = gatewayPort + 1"

section \<open>Path parameters\<close>

lemma extractPathParam_long:
  assumes "length prefx + length suffx < length path"
  shows "extractPathParam path prefx suffx =
    Return (take (length path - length prefx - length suffx) (drop (length prefx) path))"
  using assms by (auto simp: extractPathParam_def slice_from_def slice_to_def)

lemma extractPathParam_append:
  "x \<noteq> [] \<Longrightarrow> extractPathParam (prefx @ x @ suffx) prefx suffx = Return x"
  by (subst extractPathParam_long) simp_all

lemma length_status_suffix: "length status_suffix = 7"
  by (simp add: status_suffix_def)

lemma has_prefix_append [simp]: "has_prefix p (p @ s)"
  by (simp add: has_prefix_def)

lemma route_status:
  assumes "x \<noteq> ''start''"
  shows "route sw (workflows_path @ x) = StatusRoute"
  using assms by (simp add: route_def)

section \<open>Properties of the gateway server\<close>

text \<open>\<^verbatim>\<open>extractPathParam\<close> never slices out of range, whatever the three strings are. A path not longer than prefix
  and suffix together gives the empty string, and any longer path gives exactly its middle part,
  with as many bytes cut off at the ends as prefix and suffix have.\<close>
lemma path_param_total:
  "extractPathParam path prefx suffx =
     Return (if length path \<le> length prefx + length suffx then []
             else take (length path - length prefx - length suffx) (drop (length prefx) path))"
  using extractPathParam_long [of prefx suffx path] by (simp add: extractPathParam_def)

text \<open>The documented status URL works for every identifier: \<^verbatim>\<open>/api/v1/workflows/<id>/status\<close> reaches the status
  handler, which answers 200 with that identifier, even when the identifier is \<^verbatim>\<open>start\<close> or contains
  slashes.\<close>
lemma status_url_roundtrip:
  assumes "wid \<noteq> []"
  shows "serve sw (workflows_path @ wid @ status_suffix) decoded =
    Some (Return (writeJSON 200 (StatusResponse \<lparr>StatusWorkflowID = wid, WorkflowStatus = ''running''\<rparr>)))"
proof -
  have "CHR ''/'' \<in> set (wid @ status_suffix)" by (simp add: status_suffix_def)
  moreover have "CHR ''/'' \<notin> set ''start''" by simp
  ultimately have "wid @ status_suffix \<noteq> ''start''" by metis
  from route_status [OF this] assms show ?thesis
    by (simp add: serve_def GetWorkflowStatus_def extractPathParam_append)
qed

text \<open>The status handler never looks at the text it cuts off: any path of the subtree with more than seven
  bytes after the prefix, such as one without \<^verbatim>\<open>/status\<close>, is answered with 200 and an identifier that
  lacks the last seven bytes.\<close>
lemma status_suffix_unchecked:
  assumes "7 < length x"
  shows "serve sw (workflows_path @ x) decoded =
    Some (Return (writeJSON 200 (StatusResponse
      \<lparr>StatusWorkflowID = take (length x - 7) x, WorkflowStatus = ''running''\<rparr>)))"
proof -
  from assms have "x \<noteq> ''start''" by auto
  from route_status [OF this] assms show ?thesis
    by (auto simp: serve_def GetWorkflowStatus_def extractPathParam_long length_status_suffix)
qed

text \<open>The status the deployed gRPC handler reports is not a task state: it answers \<^verbatim>\<open>pending\<close> for every
  identifier, submitted or not, and that text is not one of the states of the task model.\<close>
lemma grpc_status_placeholder:
  assumes "i \<noteq> []"
  shows "\<exists>st. GatewayHandler_GetTaskStatus (Some \<lparr>RequestTaskId = i\<rparr>) = Inr st \<and> StatusTaskId st = i \<and>
    \<not> IsValidState (Status st)"
  using assms by (simp add: GatewayHandler_GetTaskStatus_def getter_defs IsValidState_def AllStates_def state_defs)

end
