(* ===== verification/Grpc_Dispatch.thy ===== *)
theory Grpc_Dispatch
  imports Gateway_Service Gateway_Server Orchestrator_Server
begin

text \<open>
  The generated service code, \<^verbatim>\<open>src/api/proto/ortrix_grpc.pb.go\<close>: the server interfaces as method
  tables, the servers that refuse every method, the per-method handlers, the service descriptions,
  and the client stubs. The gRPC runtime is a parameter: the decoder and the interceptor a handler
  is called with, and the \<^verbatim>\<open>Invoke\<close> and \<^verbatim>\<open>NewStream\<close> of the connection a stub calls.

  A value of type \<^verbatim>\<open>interface{}\<close> is a \<open>Message\<close>: a constructor for its dynamic type and the pointer.
  A type assertion to another type panics. The state \<open>'s\<close> is whatever the service works on.
\<close>

section \<open>Servers\<close>

datatype Message =
    MSubmitTaskRequest "SubmitTaskRequest option"
  | MSubmitTaskResponse "SubmitTaskResponse option"
  | MTaskStatusRequest "TaskStatusRequest option"
  | MTaskStatusResponse "TaskStatusResponse option"

type_synonym status = "Code \<times> string"
type_synonym 's call = "'s \<Rightarrow> Message rpc_result outcome \<times> 's"

record 's GatewayServiceServer =
  srv_SubmitTask :: "SubmitTaskRequest option \<Rightarrow> 's \<Rightarrow> SubmitTaskResponse rpc_result \<times> 's"
  srv_GetTaskStatus :: "TaskStatusRequest option \<Rightarrow> 's \<Rightarrow> TaskStatusResponse rpc_result \<times> 's"

definition UnimplementedGatewayServiceServer :: "'s GatewayServiceServer" where
  "UnimplementedGatewayServiceServer =
     \<lparr>srv_SubmitTask = (\<lambda>req s. (Inl (Unimplemented, ''method SubmitTask not implemented''), s)),
      srv_GetTaskStatus = (\<lambda>req s. (Inl (Unimplemented, ''method GetTaskStatus not implemented''), s))\<rparr>"

text \<open>
  The two implementations under src/ define both methods, so nothing of the embedded server is left.
\<close>

definition GatewayHandler :: "'s GatewayServiceServer" where
  "GatewayHandler =
     UnimplementedGatewayServiceServer
       \<lparr>srv_SubmitTask := (\<lambda>req s. (GatewayHandler_SubmitTask req, s)),
        srv_GetTaskStatus := (\<lambda>req s. (GatewayHandler_GetTaskStatus req, s))\<rparr>"

definition GatewayService ::
    "'w Logger \<Rightarrow> 'p Manager \<Rightarrow> clock \<Rightarrow> ('w, 'p) Engine GatewayServiceServer" where
  "GatewayService L P clk =
     UnimplementedGatewayServiceServer
       \<lparr>srv_SubmitTask := (\<lambda>req e. SubmitTask L P clk e req),
        srv_GetTaskStatus := (\<lambda>req e. GetTaskStatus e req)\<rparr>"

text \<open>The constructors: a server and the state it works on. The placeholder has none but its log.\<close>

definition NewGatewayHandler :: "unit GatewayServiceServer \<times> unit" where
  "NewGatewayHandler = (GatewayHandler, ())"

definition NewGatewayService ::
    "'w Logger \<Rightarrow> 'p Manager \<Rightarrow> clock \<Rightarrow> ('w, 'p) Engine \<Rightarrow>
     ('w, 'p) Engine GatewayServiceServer \<times> ('w, 'p) Engine" where
  "NewGatewayService L P clk engine = (GatewayService L P clk, engine)"

section \<open>Handlers\<close>

text \<open>\<^verbatim>\<open>dec\<close> fills the request it is given a pointer to, at either type.\<close>

record Decoder =
  dec_submit :: "SubmitTaskRequest \<Rightarrow> status option \<times> SubmitTaskRequest"
  dec_status :: "TaskStatusRequest \<Rightarrow> status option \<times> TaskStatusRequest"

type_synonym 's interceptor = "Message \<Rightarrow> string \<Rightarrow> (Message \<Rightarrow> 's call) \<Rightarrow> 's call"

definition GatewayService_SubmitTask_FullMethodName :: string where
  "GatewayService_SubmitTask_FullMethodName = ''/ortrix.GatewayService/SubmitTask''"

definition GatewayService_GetTaskStatus_FullMethodName :: string where
  "GatewayService_GetTaskStatus_FullMethodName = ''/ortrix.GatewayService/GetTaskStatus''"

definition interface_conversion :: string where
  "interface_conversion = ''interface conversion''"

fun answer :: "('r option \<Rightarrow> Message) \<Rightarrow> 'r rpc_result \<times> 's \<Rightarrow> Message rpc_result outcome \<times> 's" where
  "answer M (Inl err, s) = (Return (Inl err), s)"
| "answer M (Inr r, s) = (Return (Inr (M (Some r))), s)"

definition GatewayService_SubmitTask_Handler ::
    "'s GatewayServiceServer \<Rightarrow> Decoder \<Rightarrow> 's interceptor option \<Rightarrow> 's call" where
  "GatewayService_SubmitTask_Handler srv dec interceptor s =
     (case dec_submit dec SubmitTaskRequest_zero of
        (Some err, _) \<Rightarrow> (Return (Inl err), s)
      | (None, req) \<Rightarrow>
          (case interceptor of
             None \<Rightarrow> answer MSubmitTaskResponse (srv_SubmitTask srv (Some req) s)
           | Some ic \<Rightarrow>
               let handler = (\<lambda>req s.
                     case req of
                       MSubmitTaskRequest r \<Rightarrow> answer MSubmitTaskResponse (srv_SubmitTask srv r s)
                     | _ \<Rightarrow> (Panic interface_conversion, s))
               in ic (MSubmitTaskRequest (Some req)) GatewayService_SubmitTask_FullMethodName handler s))"

definition GatewayService_GetTaskStatus_Handler ::
    "'s GatewayServiceServer \<Rightarrow> Decoder \<Rightarrow> 's interceptor option \<Rightarrow> 's call" where
  "GatewayService_GetTaskStatus_Handler srv dec interceptor s =
     (case dec_status dec TaskStatusRequest_zero of
        (Some err, _) \<Rightarrow> (Return (Inl err), s)
      | (None, req) \<Rightarrow>
          (case interceptor of
             None \<Rightarrow> answer MTaskStatusResponse (srv_GetTaskStatus srv (Some req) s)
           | Some ic \<Rightarrow>
               let handler = (\<lambda>req s.
                     case req of
                       MTaskStatusRequest r \<Rightarrow> answer MTaskStatusResponse (srv_GetTaskStatus srv r s)
                     | _ \<Rightarrow> (Panic interface_conversion, s))
               in ic (MTaskStatusRequest (Some req)) GatewayService_GetTaskStatus_FullMethodName handler s))"

record ('srv, 's) ServiceDesc =
  ServiceName :: string
  Methods :: "(string \<times> ('srv \<Rightarrow> Decoder \<Rightarrow> 's interceptor option \<Rightarrow> 's call)) list"
  DescMetadata :: string

definition GatewayService_ServiceDesc :: "('s GatewayServiceServer, 's) ServiceDesc" where
  "GatewayService_ServiceDesc =
     \<lparr>ServiceName = ''ortrix.GatewayService'',
      Methods = [(''SubmitTask'', GatewayService_SubmitTask_Handler),
                 (''GetTaskStatus'', GatewayService_GetTaskStatus_Handler)],
      DescMetadata = ''api/proto/ortrix.proto''\<rparr>"

section \<open>Client stubs\<close>

text \<open>\<^verbatim>\<open>cc.Invoke(ctx, method, in, out)\<close> fills the response \<open>out\<close> points to and returns an error or nil.\<close>

type_synonym 's invoke = "string \<Rightarrow> Message \<Rightarrow> Message \<Rightarrow> 's \<Rightarrow> (status option \<times> Message) \<times> 's"

definition gatewayServiceClient_SubmitTask ::
    "'s invoke \<Rightarrow> SubmitTaskRequest option \<Rightarrow> 's \<Rightarrow> Message rpc_result \<times> 's" where
  "gatewayServiceClient_SubmitTask Invoke req s =
     (let out = MSubmitTaskResponse (Some SubmitTaskResponse_zero);
          ((err, out), s) =
            Invoke GatewayService_SubmitTask_FullMethodName (MSubmitTaskRequest req) out s
      in case err of Some e \<Rightarrow> (Inl e, s) | None \<Rightarrow> (Inr out, s))"

definition gatewayServiceClient_GetTaskStatus ::
    "'s invoke \<Rightarrow> TaskStatusRequest option \<Rightarrow> 's \<Rightarrow> Message rpc_result \<times> 's" where
  "gatewayServiceClient_GetTaskStatus Invoke req s =
     (let out = MTaskStatusResponse (Some TaskStatusResponse_zero);
          ((err, out), s) =
            Invoke GatewayService_GetTaskStatus_FullMethodName (MTaskStatusRequest req) out s
      in case err of Some e \<Rightarrow> (Inl e, s) | None \<Rightarrow> (Inr out, s))"

text \<open>Registration hands the description and the server to the runtime's registrar.\<close>

definition RegisterGatewayServiceServer ::
    "(('s GatewayServiceServer, 's) ServiceDesc \<Rightarrow> 's GatewayServiceServer \<Rightarrow> 'g \<Rightarrow> 'g) \<Rightarrow>
     'g \<Rightarrow> 's GatewayServiceServer \<Rightarrow> 'g" where
  "RegisterGatewayServiceServer RegisterService g srv = RegisterService GatewayService_ServiceDesc srv g"

section \<open>The worker service\<close>

text \<open>
  A server-side stream is what \<open>Orchestrator_Server\<close> makes of it: the outcomes of its sends and its
  receives. \<open>text_of\<close> is the error text the runtime gives a status.
\<close>

type_synonym stream_method =
  "(nat \<Rightarrow> error option) \<Rightarrow> recv list \<Rightarrow> loop_end \<times> OrchestratorMessage list"

record WorkerServiceServer =
  srv_StreamTasks :: stream_method

definition UnimplementedWorkerServiceServer :: "(status \<Rightarrow> error) \<Rightarrow> WorkerServiceServer" where
  "UnimplementedWorkerServiceServer text_of =
     \<lparr>srv_StreamTasks = (\<lambda>send recvs.
        (Returned (Some (text_of (Unimplemented, ''method StreamTasks not implemented''))), []))\<rparr>"

definition WorkerHandler :: "(status \<Rightarrow> error) \<Rightarrow> WorkerServiceServer" where
  "WorkerHandler text_of =
     (UnimplementedWorkerServiceServer text_of)\<lparr>srv_StreamTasks := (\<lambda>send recvs. StreamTasks send [] recvs)\<rparr>"

definition NewWorkerHandler :: "(status \<Rightarrow> error) \<Rightarrow> WorkerServiceServer" where
  "NewWorkerHandler text_of = WorkerHandler text_of"

definition WorkerService_StreamTasks_FullMethodName :: string where
  "WorkerService_StreamTasks_FullMethodName = ''/ortrix.WorkerService/StreamTasks''"

definition WorkerService_StreamTasks_Handler :: "WorkerServiceServer \<Rightarrow> stream_method" where
  "WorkerService_StreamTasks_Handler srv send recvs = srv_StreamTasks srv send recvs"

record StreamDesc =
  StreamName :: string
  StreamHandler :: "WorkerServiceServer \<Rightarrow> stream_method"
  ServerStreams :: bool
  ClientStreams :: bool

record StreamServiceDesc =
  StreamServiceName :: string
  Streams :: "StreamDesc list"
  StreamMetadata :: string

definition WorkerService_ServiceDesc :: StreamServiceDesc where
  "WorkerService_ServiceDesc =
     \<lparr>StreamServiceName = ''ortrix.WorkerService'',
      Streams = [\<lparr>StreamName = ''StreamTasks'', StreamHandler = WorkerService_StreamTasks_Handler,
                  ServerStreams = True, ClientStreams = True\<rparr>],
      StreamMetadata = ''api/proto/ortrix.proto''\<rparr>"

definition workerServiceClient_StreamTasks ::
    "(StreamDesc \<Rightarrow> string \<Rightarrow> error + 'st) \<Rightarrow> error + 'st" where
  "workerServiceClient_StreamTasks NewStream =
     (case NewStream (hd (Streams WorkerService_ServiceDesc)) WorkerService_StreamTasks_FullMethodName of
        Inl err \<Rightarrow> Inl err
      | Inr stream \<Rightarrow> Inr stream)"

definition RegisterWorkerServiceServer ::
    "(StreamServiceDesc \<Rightarrow> WorkerServiceServer \<Rightarrow> 'g \<Rightarrow> 'g) \<Rightarrow> 'g \<Rightarrow> WorkerServiceServer \<Rightarrow> 'g" where
  "RegisterWorkerServiceServer RegisterService g srv = RegisterService WorkerService_ServiceDesc srv g"

text \<open>What the two programs register.\<close>

definition gateway_grpc ::
    "((unit GatewayServiceServer, unit) ServiceDesc \<Rightarrow> unit GatewayServiceServer \<Rightarrow> 'g \<Rightarrow> 'g) \<Rightarrow> 'g \<Rightarrow> 'g" where
  "gateway_grpc RegisterService grpcServer =
     RegisterGatewayServiceServer RegisterService grpcServer (fst NewGatewayHandler)"

definition orchestrator_grpc ::
    "(status \<Rightarrow> error) \<Rightarrow> (StreamServiceDesc \<Rightarrow> WorkerServiceServer \<Rightarrow> 'g \<Rightarrow> 'g) \<Rightarrow> 'g \<Rightarrow> 'g" where
  "orchestrator_grpc text_of RegisterService grpcServer =
     RegisterWorkerServiceServer RegisterService grpcServer (NewWorkerHandler text_of)"

section \<open>Names, handlers and stubs\<close>

definition full_method :: "string \<Rightarrow> string \<Rightarrow> string" where
  "full_method service m = ''/'' @ service @ ''/'' @ m"

text \<open>The client calls the methods under the names the service description has for them.\<close>

lemma full_names:
  "map (full_method (ServiceName GatewayService_ServiceDesc) \<circ> fst) (Methods GatewayService_ServiceDesc) =
     [GatewayService_SubmitTask_FullMethodName, GatewayService_GetTaskStatus_FullMethodName]"
  by (simp add: full_method_def GatewayService_ServiceDesc_def GatewayService_SubmitTask_FullMethodName_def
      GatewayService_GetTaskStatus_FullMethodName_def)

text \<open>A request that cannot be decoded is refused with the decoder's error, and the service is not called.\<close>

lemma handlers_refuse_undecodable:
  "dec_submit dec SubmitTaskRequest_zero = (Some err, r) \<Longrightarrow>
     GatewayService_SubmitTask_Handler srv dec ic s = (Return (Inl err), s)"
  "dec_status dec TaskStatusRequest_zero = (Some err, r') \<Longrightarrow>
     GatewayService_GetTaskStatus_Handler srv dec ic s = (Return (Inl err), s)"
  by (simp_all add: GatewayService_SubmitTask_Handler_def GatewayService_GetTaskStatus_Handler_def)

text \<open>An interceptor that only calls the handler it is given changes nothing.\<close>

lemma transparent_interceptor:
  assumes "\<And>m name h x. ic m name h x = h m x"
  shows "GatewayService_SubmitTask_Handler srv dec (Some ic) s = GatewayService_SubmitTask_Handler srv dec None s"
    and "GatewayService_GetTaskStatus_Handler srv dec (Some ic) s =
      GatewayService_GetTaskStatus_Handler srv dec None s"
  by (simp_all add: GatewayService_SubmitTask_Handler_def GatewayService_GetTaskStatus_Handler_def assms
      split: prod.split option.split)

text \<open>The stream the worker opens is the one the orchestrator serves, in both directions.\<close>

lemma worker_stream_served:
  "\<exists>d \<in> set (Streams WorkerService_ServiceDesc).
     full_method (StreamServiceName WorkerService_ServiceDesc) (StreamName d) =
       WorkerService_StreamTasks_FullMethodName \<and>
     ServerStreams d \<and> ClientStreams d \<and>
     StreamHandler d (WorkerHandler text_of) send recvs = StreamTasks send [] recvs \<and>
     workerServiceClient_StreamTasks NewStream = NewStream d WorkerService_StreamTasks_FullMethodName"
  by (simp add: WorkerService_ServiceDesc_def full_method_def WorkerService_StreamTasks_FullMethodName_def
      WorkerService_StreamTasks_Handler_def WorkerHandler_def workerServiceClient_StreamTasks_def
      split: sum.split)

end
