(* ===== verification/Go_Json.thy ===== *)
theory Go_Json
  imports Go_Prelude "HOL-Library.Monad_Syntax"
begin

text \<open>
  What the sources use of \<^verbatim>\<open>encoding/json\<close> (Go 1.24): how strings are quoted and read, and the syntax of values.

  \<^item> A JSON value keeps its strings as they stand between the quotes, and its numbers as literals, since the decoder
    turns them into Go values only when it knows the target: a \<^verbatim>\<open>time.Time\<close> reads the raw text.
  \<^item> \<open>quote\<close> is the encoder with HTML escaping, as \<^verbatim>\<open>Marshal\<close> and \<^verbatim>\<open>Encoder\<close> have it by default; \<open>unquote\<close> is the
    decoder's reading. Both replace bytes that are no UTF-8 by U+FFFD.
  \<^item> \<open>parse_value\<close> is the scanner's grammar, with the nesting limit of the package. It takes fuel: each call
    consumes a byte, so fuel above the length of the text never runs out (\<open>parse_fuel\<close>).
\<close>

section \<open>UTF-8\<close>

text \<open>The length of an encoded character and the range of its second byte, by its first byte.\<close>

definition lead :: "nat \<Rightarrow> nat \<times> nat \<times> nat" where
  "lead a =
     (if a < 128 then (1, 0, 0)
      else if a < 194 then (0, 0, 0)
      else if a < 224 then (2, 128, 191)
      else if a = 224 then (3, 160, 191)
      else if a = 237 then (3, 128, 159)
      else if a < 240 then (3, 128, 191)
      else if a = 240 then (4, 144, 191)
      else if a < 244 then (4, 128, 191)
      else if a = 244 then (4, 128, 143)
      else (0, 0, 0))"

definition continuation :: "char \<Rightarrow> bool" where
  "continuation c \<longleftrightarrow> 128 \<le> byte_of c \<and> byte_of c \<le> 191"

text \<open>The length of the encoded character at the front, or 0 if there is none (\<^verbatim>\<open>utf8.DecodeRune\<close>).\<close>

fun rune_size :: "string \<Rightarrow> nat" where
  "rune_size [] = 0"
| "rune_size (c # s) =
     (let (n, lo, hi) = lead (byte_of c) in
      if n \<le> 1 then n
      else if n \<le> Suc (length s) \<and> lo \<le> byte_of (s ! 0) \<and> byte_of (s ! 0) \<le> hi \<and> list_all continuation (take (n - 1) s)
      then n else 0)"

text \<open>The encoding of a code point (\<^verbatim>\<open>utf8.AppendRune\<close>).\<close>

definition encode_rune :: "nat \<Rightarrow> string" where
  "encode_rune r =
     (if r < 128 then [char_of r]
      else if r < 2048 then [char_of (192 + r div 64), char_of (128 + r mod 64)]
      else if r < 65536 then [char_of (224 + r div 4096), char_of (128 + r div 64 mod 64), char_of (128 + r mod 64)]
      else [char_of (240 + r div 262144), char_of (128 + r div 4096 mod 64), char_of (128 + r div 64 mod 64),
            char_of (128 + r mod 64)])"

definition replacement :: string where
  "replacement = encode_rune 65533"

lemma rune_size_le: "rune_size s \<le> length s"
  by (cases s) (auto simp: lead_def split: prod.split)

lemma rune_size_prefix:
  assumes "0 < rune_size s"
  shows "rune_size (take (rune_size s) s @ t) = rune_size s"
proof (cases s)
  case (Cons c r)
  obtain n lo hi where l: "lead (byte_of c) = (n, lo, hi)" by (metis prod_cases3)
  show ?thesis
  proof (cases "n \<le> 1")
    case True
    with assms Cons l show ?thesis by (cases n) auto
  next
    case False
    with assms Cons l have n: "n \<le> Suc (length r)" "rune_size s = n"
      "lo \<le> byte_of (r ! 0)" "byte_of (r ! 0) \<le> hi" "list_all continuation (take (n - 1) r)"
      by (auto split: if_splits)
    obtain m where "n = Suc (Suc m)" using False by (cases n; cases "n - 1") auto
    with Cons l n show ?thesis by (simp add: nth_append min_def)
  qed
qed (use assms in simp)

lemma rune_size_multibyte:
  assumes "128 \<le> byte_of c" and "0 < rune_size (c # s)"
  shows "\<forall>x \<in> set (take (rune_size (c # s)) (c # s)). 128 \<le> byte_of x"
proof -
  obtain n lo hi where l: "lead (byte_of c) = (n, lo, hi)" by (metis prod_cases3)
  have "n \<noteq> 1" using assms(1) l by (auto simp: lead_def split: if_splits)
  with assms(2) l have "rune_size (c # s) = n" "list_all continuation (take (n - 1) s)" "1 < n"
    by (auto split: if_splits)
  with assms(1) show ?thesis by (cases n) (auto simp: list_all_iff continuation_def)
qed

lemma rune_size_ascii: "byte_of c < 128 \<Longrightarrow> rune_size (c # s) = 1"
  by (simp add: lead_def)

declare rune_size.simps(2) [simp del]

section \<open>Strings\<close>

definition hex_digit :: "nat \<Rightarrow> char" where
  "hex_digit d = (if d < 10 then char_of (48 + d) else char_of (87 + d))"

definition hex_val :: "char \<Rightarrow> nat option" where
  "hex_val c =
     (if 48 \<le> byte_of c \<and> byte_of c \<le> 57 then Some (byte_of c - 48)
      else if 97 \<le> byte_of c \<and> byte_of c \<le> 102 then Some (byte_of c - 87)
      else if 65 \<le> byte_of c \<and> byte_of c \<le> 70 then Some (byte_of c - 55)
      else None)"

text \<open>The value of four hexadecimal digits at the front.\<close>

fun hex4 :: "string \<Rightarrow> nat option" where
  "hex4 (a # b # c # d # s) =
     (case (hex_val a, hex_val b, hex_val c, hex_val d) of
        (Some a, Some b, Some c, Some d) \<Rightarrow> Some (4096 * a + 256 * b + 16 * c + d)
      | _ \<Rightarrow> None)"
| "hex4 _ = None"

definition unicode_escape :: "nat \<Rightarrow> string" where
  "unicode_escape r =
     [CHR 0x5C, CHR ''u'', hex_digit (r div 4096), hex_digit (r div 256 mod 16), hex_digit (r div 16 mod 16), hex_digit (r mod 16)]"

definition quote_ascii :: "char \<Rightarrow> string" where
  "quote_ascii c =
     (if byte_of c = 34 \<or> byte_of c = 92 then [CHR 0x5C, c]
      else if byte_of c = 8 then [CHR 0x5C, CHR ''b'']
      else if byte_of c = 12 then [CHR 0x5C, CHR ''f'']
      else if byte_of c = 10 then [CHR 0x5C, CHR ''n'']
      else if byte_of c = 13 then [CHR 0x5C, CHR ''r'']
      else if byte_of c = 9 then [CHR 0x5C, CHR ''t'']
      else if byte_of c < 32 \<or> c \<in> set ''<>&'' then unicode_escape (byte_of c)
      else [c])"

text \<open>The characters U+2028 and U+2029, which are escaped for JavaScript.\<close>

definition line_separator :: string where "line_separator = encode_rune 8232"
definition paragraph_separator :: string where "paragraph_separator = encode_rune 8233"

function quote :: "string \<Rightarrow> string" where
  "quote [] = []"
| "quote (c # s) =
     (if byte_of c < 128 then quote_ascii c @ quote s
      else
        let n = rune_size (c # s) in
        if n = 0 then unicode_escape 65533 @ quote s
        else
          let r = take n (c # s) in
          (if r = line_separator then unicode_escape 8232
           else if r = paragraph_separator then unicode_escape 8233
           else r) @ quote (drop n (c # s)))"
  by pat_completeness auto
termination
  by (relation "measure length") auto

text \<open>The string up to its closing quote, as it stands, and the rest of the text (the scanner).\<close>

definition escapable :: "char \<Rightarrow> bool" where
  "escapable e \<longleftrightarrow> e \<in> set [CHR 0x22, CHR 0x5C, CHR ''/'', CHR ''b'', CHR ''f'', CHR ''n'', CHR ''r'', CHR ''t'']"

function scan_string :: "string \<Rightarrow> (string \<times> string) option" where
  "scan_string [] = None"
| "scan_string (c # s) =
     (if c = CHR 0x22 then Some ([], s)
      else if c = CHR 0x5C then
        (case s of
           [] \<Rightarrow> None
         | e # t \<Rightarrow>
             if escapable e then map_option (\<lambda>(raw, r). (c # e # raw, r)) (scan_string t)
             else if e = CHR ''u'' \<and> hex4 t \<noteq> None
             then map_option (\<lambda>(raw, r). (c # e # take 4 t @ raw, r)) (scan_string (drop 4 t))
             else None)
      else if byte_of c < 32 then None
      else map_option (\<lambda>(raw, r). (c # raw, r)) (scan_string s))"
  by pat_completeness auto
termination
  by (relation "measure length") auto

definition unescape :: "char \<Rightarrow> char" where
  "unescape e =
     (if e = CHR ''b'' then char_of (8 :: nat) else if e = CHR ''f'' then char_of (12 :: nat)
      else if e = CHR ''n'' then char_of (10 :: nat) else if e = CHR ''r'' then char_of (13 :: nat)
      else if e = CHR ''t'' then char_of (9 :: nat) else e)"

definition surrogate :: "nat \<Rightarrow> bool" where
  "surrogate r \<longleftrightarrow> 55296 \<le> r \<and> r < 57344"

text \<open>The second half of a pair of \<^verbatim>\<open>\u\<close> escapes, if there is one.\<close>

definition low_surrogate :: "string \<Rightarrow> nat option" where
  "low_surrogate s =
     (if take 2 s = [CHR 0x5C, CHR ''u'']
      then (case hex4 (drop 2 s) of
              Some r \<Rightarrow> if 56320 \<le> r \<and> r < 57344 then Some r else None
            | None \<Rightarrow> None)
      else None)"

function unquote :: "string \<Rightarrow> string" where
  "unquote [] = []"
| "unquote (c # s) =
     (if c = CHR 0x5C then
        (case s of
           [] \<Rightarrow> []
         | e # t \<Rightarrow>
             if e = CHR ''u'' then
               (case hex4 t of
                  None \<Rightarrow> []
                | Some r \<Rightarrow>
                    let t = drop 4 t in
                    if \<not> surrogate r then encode_rune r @ unquote t
                    else
                      (case (if r < 56320 then low_surrogate t else None) of
                         Some r2 \<Rightarrow>
                           encode_rune (65536 + 1024 * (r - 55296) + (r2 - 56320)) @ unquote (drop 6 t)
                       | None \<Rightarrow> replacement @ unquote t))
             else unescape e # unquote t)
      else if byte_of c < 128 then c # unquote s
      else
        let n = rune_size (c # s) in
        if n = 0 then replacement @ unquote s else take n (c # s) @ unquote (drop n (c # s)))"
  by pat_completeness auto
termination
  by (relation "measure length") auto

text \<open>What survives: every byte that is no part of an encoded character becomes U+FFFD.\<close>

function sanitize :: "string \<Rightarrow> string" where
  "sanitize [] = []"
| "sanitize (c # s) =
     (let n = rune_size (c # s) in
      if n = 0 then replacement @ sanitize s else take n (c # s) @ sanitize (drop n (c # s)))"
  by pat_completeness auto
termination
  by (relation "measure length") auto

function utf8_valid :: "string \<Rightarrow> bool" where
  "utf8_valid [] \<longleftrightarrow> True"
| "utf8_valid (c # s) \<longleftrightarrow> (let n = rune_size (c # s) in if n = 0 then False else utf8_valid (drop n (c # s)))"
  by pat_completeness auto
termination
  by (relation "measure length") auto

declare quote.simps(2) [simp del] scan_string.simps(2) [simp del] unquote.simps(2) [simp del]
  sanitize.simps(2) [simp del] utf8_valid.simps(2) [simp del]

lemma sanitize_valid: "utf8_valid s \<Longrightarrow> sanitize s = s"
  by (induction s rule: utf8_valid.induct)
    (auto simp: sanitize.simps(2) utf8_valid.simps(2) Let_def split: if_splits)

section \<open>Quoting and reading back\<close>

lemma byte_of_char_of [simp]: "n < 256 \<Longrightarrow> byte_of (char_of n) = n"
  by (simp add: byte_of_def)

lemma byte_of_less [simp]: "byte_of c < 256"
  by (simp add: byte_of_def of_char_mod_256 flip: of_nat_mod)

lemma char_of_byte_of [simp]: "char_of (byte_of c) = c"
  by (simp add: byte_of_def)

lemma hex_val_digit [simp]: "d < 16 \<Longrightarrow> hex_val (hex_digit d) = Some d"
  by (simp add: hex_val_def hex_digit_def)

lemma three_digits: "16 * a + b = r \<Longrightarrow> 16 * c + d = a \<Longrightarrow> 16 * e + f = c \<Longrightarrow> 4096 * e + 256 * f + 16 * d + b = (r :: nat)"
  by simp

lemma hex_digits_sum: "4096 * (r div 4096) + 256 * (r div 256 mod 16) + 16 * (r div 16 mod 16) + r mod 16 = (r :: nat)"
proof -
  have "r div 256 = r div 16 div 16" "r div 4096 = r div 16 div 16 div 16" by (simp_all flip: div_mult2_eq)
  then show ?thesis by (simp only: three_digits [OF mult_div_mod_eq mult_div_mod_eq mult_div_mod_eq])
qed

lemma hex4_escape:
  assumes "r < 65536"
  shows "hex4 (hex_digit (r div 4096) # hex_digit (r div 256 mod 16) # hex_digit (r div 16 mod 16) #
    hex_digit (r mod 16) # s) = Some r"
proof -
  have "r div 4096 < 16" using assms by (simp add: less_mult_imp_div_less)
  then show ?thesis using hex_digits_sum [of r] by simp
qed

lemma scan_unicode_escape:
  "r < 65536 \<Longrightarrow> scan_string (unicode_escape r @ s) = map_option (\<lambda>(raw, t). (unicode_escape r @ raw, t)) (scan_string s)"
  by (simp add: unicode_escape_def scan_string.simps(2) hex4_escape escapable_def del: hex4.simps)

lemma unquote_unicode_escape:
  "r < 65536 \<Longrightarrow> \<not> surrogate r \<Longrightarrow> unquote (unicode_escape r @ s) = encode_rune r @ unquote s"
  by (simp add: unicode_escape_def unquote.simps(2) hex4_escape Let_def del: hex4.simps)

lemma byte_of_inject: "byte_of c = byte_of d \<longleftrightarrow> c = d"
  by (metis char_of_byte_of)

lemma byte_of_values [simp]:
  "byte_of CHR 0x22 = 34" "byte_of CHR 0x5C = 92" "byte_of CHR ''u'' = 117" "byte_of CHR ''/'' = 47" "byte_of CHR ''b'' = 98"
  "byte_of CHR ''f'' = 102" "byte_of CHR ''n'' = 110" "byte_of CHR ''r'' = 114" "byte_of CHR ''t'' = 116"
  "byte_of CHR ''<'' = 60" "byte_of CHR ''>'' = 62" "byte_of CHR ''&'' = 38"
  by (simp_all add: byte_of_def)

lemma scan_escaped:
  "escapable e \<Longrightarrow> scan_string (CHR 0x5C # e # s) = map_option (\<lambda>(raw, r). (CHR 0x5C # e # raw, r)) (scan_string s)"
  by (simp add: scan_string.simps(2))

lemma scan_plain:
  assumes "byte_of c \<noteq> 34" and "byte_of c \<noteq> 92" and "32 \<le> byte_of c"
  shows "scan_string (c # s) = map_option (\<lambda>(raw, r). (c # raw, r)) (scan_string s)"
  using assms by (auto simp: scan_string.simps(2))

lemma unquote_escaped: "e \<noteq> CHR ''u'' \<Longrightarrow> unquote (CHR 0x5C # e # s) = unescape e # unquote s"
  by (simp add: unquote.simps(2))

lemma scan_quote_ascii:
  assumes "byte_of c < 128"
  shows "scan_string (quote_ascii c @ s) = map_option (\<lambda>(raw, t). (quote_ascii c @ raw, t)) (scan_string s)"
proof (cases "byte_of c = 34 \<or> byte_of c = 92")
  case True
  then have "c = CHR 0x22 \<or> c = CHR 0x5C" by (metis byte_of_inject byte_of_values(1,2))
  then show ?thesis using True by (auto simp: quote_ascii_def scan_escaped escapable_def)
next
  case False
  then show ?thesis
    using assms by (simp add: quote_ascii_def scan_unicode_escape scan_escaped scan_plain escapable_def)
qed

lemma unquote_quote_ascii:
  assumes "byte_of c < 128"
  shows "unquote (quote_ascii c @ s) = c # unquote s"
proof (cases "byte_of c = 34 \<or> byte_of c = 92")
  case True
  then have "c = CHR 0x22 \<or> c = CHR 0x5C" by (metis byte_of_inject byte_of_values(1,2))
  then show ?thesis using True by (auto simp: quote_ascii_def unquote_escaped unescape_def)
next
  case False
  note char = char_of_byte_of [of c]
  have "encode_rune (byte_of c) = [c]" "\<not> surrogate (byte_of c)" using assms by (simp_all add: encode_rune_def surrogate_def)
  moreover have "c \<noteq> CHR 0x5C" using False by auto
  ultimately show ?thesis
    using assms False char
    by (auto simp: quote_ascii_def unquote_unicode_escape unquote_escaped unescape_def unquote.simps(2) simp del: char_of_byte_of)
qed

lemma scan_literal:
  "\<forall>x \<in> set xs. 128 \<le> byte_of x \<Longrightarrow> scan_string (xs @ s) = map_option (\<lambda>(raw, t). (xs @ raw, t)) (scan_string s)"
proof (induction xs)
  case (Cons x xs)
  then have "byte_of x \<noteq> 34" "byte_of x \<noteq> 92" "32 \<le> byte_of x" by auto
  with Cons show ?case by (simp add: scan_plain option.map_comp comp_def case_prod_beta)
qed (simp add: option.map_id)

lemma unquote_rune:
  assumes "128 \<le> byte_of c" and "0 < rune_size (c # s)"
  shows "unquote (take (rune_size (c # s)) (c # s) @ t) = take (rune_size (c # s)) (c # s) @ unquote t"
proof -
  obtain n where n: "rune_size (c # s) = Suc n" using assms(2) by (cases "rune_size (c # s)") auto
  have "rune_size (c # take n s @ t) = Suc n" using rune_size_prefix [OF assms(2), of t] n by simp
  moreover have "n \<le> length s" using rune_size_le [of "c # s"] n by simp
  moreover have "c \<noteq> CHR 0x5C" "\<not> byte_of c < 128" using assms(1) by auto
  ultimately show ?thesis by (simp add: n unquote.simps(2))
qed

lemma separators_ok:
  "encode_rune 8232 = line_separator" "encode_rune 8233 = paragraph_separator" "encode_rune 65533 = replacement"
  by (simp_all add: line_separator_def paragraph_separator_def replacement_def)

text \<open>What the encoder writes is one string token, and the decoder reads it back.\<close>

lemma scan_quote: "scan_string (quote s @ CHR 0x22 # t) = Some (quote s, t)"
proof (induction s rule: quote.induct)
  case 1
  then show ?case by (simp add: scan_string.simps(2))
next
  case (2 c s)
  show ?case
  proof (cases "byte_of c < 128")
    case True
    with 2 show ?thesis by (simp add: quote.simps(2) scan_quote_ascii)
  next
    case False
    with 2 rune_size_multibyte [of c s] show ?thesis
      by (auto simp: quote.simps(2) Let_def scan_unicode_escape scan_literal simp flip: append_Cons)
  qed
qed

lemma unquote_quote: "unquote (quote s) = sanitize s"
proof (induction s rule: quote.induct)
  case (2 c s)
  show ?case
  proof (cases "byte_of c < 128")
    case True
    with 2 show ?thesis
      by (simp add: quote.simps(2) unquote_quote_ascii sanitize.simps(2) rune_size_ascii)
  next
    case False
    with 2 unquote_rune [of c s] show ?thesis
      by (auto simp: quote.simps(2) sanitize.simps(2) Let_def unquote_unicode_escape surrogate_def separators_ok)
  qed
qed simp

section \<open>Values\<close>

datatype json = JNull | JBool bool | JNum string | JStr string | JArr "json list" | JObj "(string \<times> json) list"

definition is_space :: "char \<Rightarrow> bool" where
  "is_space c \<longleftrightarrow> byte_of c \<in> {9, 10, 13, 32}"

definition skip :: "string \<Rightarrow> string" where
  "skip s = dropWhile is_space s"

subsection \<open>Numbers\<close>

fun scan_int :: "string \<Rightarrow> (string \<times> string) option" where
  "scan_int [] = None"
| "scan_int (c # s) =
     (if c = CHR ''0'' then Some ([c], s)
      else if is_digit c then Some (c # takeWhile is_digit s, dropWhile is_digit s) else None)"

definition scan_digits :: "string \<Rightarrow> (string \<times> string) option" where
  "scan_digits s =
     (if takeWhile is_digit s = [] then None else Some (takeWhile is_digit s, dropWhile is_digit s))"

fun scan_fraction :: "string \<Rightarrow> (string \<times> string) option" where
  "scan_fraction [] = Some ([], [])"
| "scan_fraction (c # s) =
     (if c = CHR ''.'' then do { (ds, r) \<leftarrow> scan_digits s; Some (c # ds, r) } else Some ([], c # s))"

fun scan_sign :: "char list \<Rightarrow> string \<Rightarrow> string \<times> string" where
  "scan_sign signs [] = ([], [])"
| "scan_sign signs (c # s) = (if c \<in> set signs then ([c], s) else ([], c # s))"

fun scan_exponent :: "string \<Rightarrow> (string \<times> string) option" where
  "scan_exponent [] = Some ([], [])"
| "scan_exponent (c # s) =
     (if c \<in> set ''eE''
      then (let (sign, s) = scan_sign ''+-'' s in do { (ds, r) \<leftarrow> scan_digits s; Some (c # sign @ ds, r) })
      else Some ([], c # s))"

definition scan_number :: "string \<Rightarrow> (string \<times> string) option" where
  "scan_number s =
     (let (sign, s) = scan_sign ''-'' s in
      do {
        (i, s) \<leftarrow> scan_int s;
        (f, s) \<leftarrow> scan_fraction s;
        (e, s) \<leftarrow> scan_exponent s;
        Some (sign @ i @ f @ e, s)
      })"

subsection \<open>Parser\<close>

definition max_depth :: nat where "max_depth = 10000"

definition literal :: "string \<Rightarrow> 'a \<Rightarrow> string \<Rightarrow> ('a \<times> string) option" where
  "literal w v s = (if take (length w) s = w then Some (v, drop (length w) s) else None)"

fun parse_value :: "nat \<Rightarrow> nat \<Rightarrow> string \<Rightarrow> (json \<times> string) option"
  and parse_elements :: "nat \<Rightarrow> nat \<Rightarrow> string \<Rightarrow> (json list \<times> string) option"
  and parse_members :: "nat \<Rightarrow> nat \<Rightarrow> string \<Rightarrow> ((string \<times> json) list \<times> string) option" where
  "parse_value 0 d s = None"
| "parse_value (Suc n) d s =
     (case skip s of
        [] \<Rightarrow> None
      | c # t \<Rightarrow>
          if c = CHR ''{'' then
            (if max_depth \<le> d then None
             else if take 1 (skip t) = ''}'' then Some (JObj [], drop 1 (skip t))
             else do { (ms, r) \<leftarrow> parse_members n (Suc d) t; Some (JObj ms, r) })
          else if c = CHR ''['' then
            (if max_depth \<le> d then None
             else if take 1 (skip t) = '']'' then Some (JArr [], drop 1 (skip t))
             else do { (vs, r) \<leftarrow> parse_elements n (Suc d) t; Some (JArr vs, r) })
          else if c = CHR 0x22 then do { (raw, r) \<leftarrow> scan_string t; Some (JStr raw, r) }
          else if c = CHR ''-'' \<or> is_digit c then do { (l, r) \<leftarrow> scan_number (c # t); Some (JNum l, r) }
          else if c = CHR ''t'' then literal ''true'' (JBool True) (c # t)
          else if c = CHR ''f'' then literal ''false'' (JBool False) (c # t)
          else literal ''null'' JNull (c # t))"
| "parse_elements 0 d s = None"
| "parse_elements (Suc n) d s =
     do {
       (v, r) \<leftarrow> parse_value n d s;
       case skip r of
         [] \<Rightarrow> None
       | c # t \<Rightarrow>
           if c = CHR '']'' then Some ([v], t)
           else if c = CHR '','' then do { (vs, r) \<leftarrow> parse_elements n d t; Some (v # vs, r) }
           else None
     }"
| "parse_members 0 d s = None"
| "parse_members (Suc n) d s =
     (if take 1 (skip s) \<noteq> [CHR 0x22] then None
      else
        do {
          (k, r) \<leftarrow> scan_string (drop 1 (skip s));
          if take 1 (skip r) \<noteq> '':'' then None
          else
            do {
              (v, r) \<leftarrow> parse_value n d (drop 1 (skip r));
              case skip r of
                [] \<Rightarrow> None
              | c # t \<Rightarrow>
                  if c = CHR ''}'' then Some ([(k, v)], t)
                  else if c = CHR '','' then do { (ms, r) \<leftarrow> parse_members n d t; Some ((k, v) # ms, r) }
                  else None
            }
        })"

text \<open>\<^verbatim>\<open>Unmarshal\<close> wants one value and nothing after it; \<^verbatim>\<open>Decoder.Decode\<close> reads the first value of its input.\<close>

definition first_value :: "string \<Rightarrow> (json \<times> string) option" where
  "first_value s = parse_value (2 * length s + 2) 0 s"

definition parse_json :: "string \<Rightarrow> json option" where
  "parse_json s = do { (v, r) \<leftarrow> first_value s; if skip r = [] then Some v else None }"

subsection \<open>Printer\<close>

fun join :: "string list \<Rightarrow> string" where
  "join [] = []"
| "join [x] = x"
| "join (x # xs) = x @ '','' @ join xs"

definition quoted :: "string \<Rightarrow> string" where
  "quoted raw = CHR 0x22 # raw @ [CHR 0x22]"

fun print_json :: "json \<Rightarrow> string" where
  "print_json JNull = ''null''"
| "print_json (JBool b) = (if b then ''true'' else ''false'')"
| "print_json (JNum l) = l"
| "print_json (JStr raw) = quoted raw"
| "print_json (JArr vs) = ''['' @ join (map print_json vs) @ '']''"
| "print_json (JObj ms) = ''{'' @ join (map (\<lambda>(k, v). quoted k @ '':'' @ print_json v) ms) @ ''}''"

section \<open>Fuel\<close>

declare parse_value.simps [simp del] parse_elements.simps [simp del] parse_members.simps [simp del]

lemma skip_length: "length (skip s) \<le> length s"
  by (simp add: skip_def length_dropWhile_le)

lemma scan_string_shorter: "scan_string s = Some (raw, r) \<Longrightarrow> length r < length s"
proof (induction s arbitrary: raw r rule: scan_string.induct)
  case (2 c s)
  then show ?case by (fastforce simp: scan_string.simps(2) split: if_splits list.splits)
qed simp

lemma scan_digits_shorter: "scan_digits s = Some (ds, r) \<Longrightarrow> length r \<le> length s"
  by (auto simp: scan_digits_def length_dropWhile_le split: if_splits)

lemma scan_int_shorter: "scan_int s = Some (i, r) \<Longrightarrow> length r < length s"
  by (cases s) (auto simp: length_dropWhile_le less_Suc_eq_le split: if_splits)

lemma scan_fraction_shorter: "scan_fraction s = Some (f, r) \<Longrightarrow> length r \<le> length s"
  by (cases s) (auto split: if_splits Option.bind_splits dest: scan_digits_shorter)

lemma scan_sign_shorter: "length (snd (scan_sign signs s)) \<le> length s"
  by (cases s) auto

lemma scan_exponent_shorter: "scan_exponent s = Some (e, r) \<Longrightarrow> length r \<le> length s"
proof (cases s)
  case (Cons c t)
  assume "scan_exponent s = Some (e, r)"
  with Cons scan_sign_shorter [of "''+-''" t] show ?thesis
    by (auto simp: Let_def case_prod_beta split: if_splits Option.bind_splits dest!: scan_digits_shorter)
qed simp

lemma scan_number_shorter:
  assumes "scan_number s = Some (l, r)"
  shows "length r < length s"
  using assms scan_sign_shorter [of "''-''" s]
  by (fastforce simp: scan_number_def Let_def case_prod_beta split: Option.bind_splits
      dest!: scan_int_shorter scan_fraction_shorter scan_exponent_shorter)

lemma literal_shorter: "literal w v s = Some (x, r) \<Longrightarrow> w \<noteq> [] \<Longrightarrow> s \<noteq> [] \<Longrightarrow> length r < length s"
  by (auto simp: literal_def split: if_splits)

lemma skip_Cons_shorter: "skip s = c # t \<Longrightarrow> length t < length s"
  using skip_length [of s] by simp

lemma drop_skip_shorter: "take 1 (skip s) = [c] \<Longrightarrow> length (drop 1 (skip s)) < length s"
  using skip_length [of s] by (cases "skip s") auto

lemma parse_shorter:
  "parse_value n d s = Some (v, r) \<Longrightarrow> length r < length s"
  "parse_elements n d s = Some (vs, r) \<Longrightarrow> length r < length s"
  "parse_members n d s = Some (ms, r) \<Longrightarrow> length r < length s"
proof (induction n arbitrary: d s v vs ms r)
  case 0
  {
    case 1
    then show ?case by (simp add: parse_value.simps)
  next
    case 2
    then show ?case by (simp add: parse_elements.simps)
  next
    case 3
    then show ?case by (simp add: parse_members.simps)
  }
next
  case (Suc n)
  {
    case 1
    then obtain c t where ct: "skip s = c # t" by (cases "skip s") (auto simp: parse_value.simps)
    note t = skip_Cons_shorter [OF ct]
    show ?case
    proof (cases "c = CHR ''{'' \<or> c = CHR ''[''")
      case True
      with 1 ct t Suc.IH(2,3) [of "Suc d" t] skip_length [of t] show ?thesis
        by (fastforce simp: parse_value.simps split: if_splits Option.bind_splits)
    next
      case False
      with 1 ct skip_length [of s] show ?thesis
        by (fastforce simp: parse_value.simps split: if_splits Option.bind_splits dest: scan_string_shorter scan_number_shorter literal_shorter)
    qed
  next
    case 2
    then obtain v' r' where v: "parse_value n d s = Some (v', r')" by (auto simp: parse_elements.simps split: Option.bind_splits)
    with 2 obtain c t where ct: "skip r' = c # t" by (cases "skip r'") (auto simp: parse_elements.simps)
    from 2 v ct Suc.IH(1) [OF v] skip_Cons_shorter [OF ct] show ?case
      by (fastforce simp: parse_elements.simps split: if_splits Option.bind_splits dest: Suc.IH(2))
  next
    case 3
    then have q: "take 1 (skip s) = [CHR 0x22]" by (auto simp: parse_members.simps split: if_splits)
    with 3 obtain k r1 where k: "scan_string (drop 1 (skip s)) = Some (k, r1)"
      by (auto simp: parse_members.simps split: Option.bind_splits)
    with 3 q have q1: "take 1 (skip r1) = '':''" by (auto simp: parse_members.simps split: if_splits)
    with 3 q k obtain v' r' where v: "parse_value n d (drop 1 (skip r1)) = Some (v', r')"
      by (auto simp: parse_members.simps split: Option.bind_splits)
    with 3 q k q1 obtain c t where ct: "skip r' = c # t" by (cases "skip r'") (auto simp: parse_members.simps)
    have "length t < length s"
      using drop_skip_shorter [OF q] scan_string_shorter [OF k] drop_skip_shorter [OF q1] Suc.IH(1) [OF v]
        skip_Cons_shorter [OF ct] by linarith
    with 3 q k q1 v ct show ?case
      by (fastforce simp: parse_members.simps split: if_splits Option.bind_splits dest: Suc.IH(3))
  }
qed

text \<open>More fuel than twice the length of the text changes nothing.\<close>

lemma parse_fuel_Suc:
  "2 * length s < n \<Longrightarrow> parse_value (Suc n) d s = parse_value n d s"
  "2 * length s + 1 < n \<Longrightarrow> parse_elements (Suc n) d s = parse_elements n d s"
  "2 * length s < n \<Longrightarrow> parse_members (Suc n) d s = parse_members n d s"
proof (induction n arbitrary: d s)
  case (Suc n)
  {
    case 1
    have "parse_elements (Suc n) (Suc d) t = parse_elements n (Suc d) t \<and>
        parse_members (Suc n) (Suc d) t = parse_members n (Suc d) t" if "skip s = c # t" for c t
      using skip_Cons_shorter [OF that] Suc.IH(2,3) [of t "Suc d"] 1 by simp
    then show ?case
      by (simp add: parse_value.simps(2) [of "Suc n"] parse_value.simps(2) [of n] split: list.split)
  next
    case 2
    have v: "parse_value (Suc n) d s = parse_value n d s" using Suc.IH(1) [of s d] 2 by simp
    have "parse_elements (Suc n) d t = parse_elements n d t"
      if "parse_value n d s = Some (v, r)" "skip r = c # t" for v r c t
      using skip_Cons_shorter [OF that(2)] parse_shorter(1) [OF that(1)] Suc.IH(2) [of t d] 2 by simp
    then show ?case
      unfolding parse_elements.simps(2) [of "Suc n"] parse_elements.simps(2) [of n] v
      by (cases "parse_value n d s") (auto split: list.split)
  next
    case 3
    have v: "parse_value (Suc n) d (drop 1 (skip r)) = parse_value n d (drop 1 (skip r))"
      if "take 1 (skip s) = [CHR 0x22]" "scan_string (drop 1 (skip s)) = Some (k, r)" for k r
      using drop_skip_shorter [OF that(1)] scan_string_shorter [OF that(2)] skip_length [of r]
        Suc.IH(1) [of "drop 1 (skip r)" d] 3 by simp
    have "parse_members (Suc n) d t = parse_members n d t"
      if "take 1 (skip s) = [CHR 0x22]" "scan_string (drop 1 (skip s)) = Some (k, r)"
        "parse_value n d (drop 1 (skip r)) = Some (v, r1)" "skip r1 = c # t" for k r v r1 c t
      using drop_skip_shorter [OF that(1)] scan_string_shorter [OF that(2)] skip_length [of r]
        parse_shorter(1) [OF that(3)] skip_Cons_shorter [OF that(4)] Suc.IH(3) [of t d] 3 by simp
    with v show ?case
      unfolding parse_members.simps(2) [of "Suc n"] parse_members.simps(2) [of n]
      by (auto split: list.split Option.bind_split)
  }
qed simp_all

lemma parse_fuel:
  assumes "2 * length s < n"
  shows "parse_value n d s = parse_value (2 * length s + 2) d s"
proof -
  have "parse_value (Suc (2 * length s) + k) d s = parse_value (Suc (2 * length s)) d s" for k
    by (induction k) (simp_all add: parse_fuel_Suc)
  from this [of "n - Suc (2 * length s)"] this [of 1] assms show ?thesis by simp
qed

section \<open>Reading back what was printed\<close>

definition number_end :: "string \<Rightarrow> bool" where
  "number_end s \<longleftrightarrow> s = [] \<or> \<not> is_digit (hd s) \<and> hd s \<notin> set ''.eE''"

fun printable :: "json \<Rightarrow> bool" where
  "printable JNull = True"
| "printable (JBool b) = True"
| "printable (JNum l) = (\<exists>n. l = show_nat n)"
| "printable (JStr raw) = (\<exists>s. raw = quote s)"
| "printable (JArr vs) = (\<forall>v \<in> set vs. printable v)"
| "printable (JObj ms) = (\<forall>(k, v) \<in> set ms. (\<exists>s. k = quote s) \<and> printable v)"

fun depth :: "json \<Rightarrow> nat" where
  "depth (JArr vs) = Suc (Max (insert 0 (set (map depth vs))))"
| "depth (JObj ms) = Suc (Max (insert 0 (set (map (\<lambda>(k, v). depth v) ms))))"
| "depth _ = 0"

lemma byte_of_digit: "d < 10 \<Longrightarrow> byte_of (digit d) = 48 + d"
  by (simp add: digit_def)

lemma digit_zero: "digit 0 = CHR ''0''"
  using byte_of_digit [of 0] by (simp flip: byte_of_inject) (simp add: byte_of_def)

lemma show_nat_hd: "n \<noteq> 0 \<Longrightarrow> hd (show_nat n) \<noteq> CHR ''0''"
proof (induction n rule: show_nat.induct)
  case (1 n)
  show ?case
  proof (cases "n < 10")
    case True
    then have "byte_of (digit n) = 48 + n" by (rule byte_of_digit)
    moreover have "byte_of CHR ''0'' = 48" by (simp add: byte_of_def)
    ultimately show ?thesis using True "1.prems" by (auto simp: show_nat.simps [of n])
  next
    case False
    then have "n div 10 \<noteq> 0" by simp
    from "1.IH" [OF False this] False show ?thesis by (simp add: show_nat.simps [of n])
  qed
qed

lemma takeWhile_end: "list_all P xs \<Longrightarrow> t = [] \<or> \<not> P (hd t) \<Longrightarrow> takeWhile P (xs @ t) = xs \<and> dropWhile P (xs @ t) = t"
  by (induction xs) (cases t; auto)+

lemma scan_int_show: "number_end t \<Longrightarrow> scan_int (show_nat n @ t) = Some (show_nat n, t)"
proof (cases "n = 0")
  case True
  then have "show_nat n = [CHR ''0'']" by (simp add: show_nat.simps digit_zero)
  then show ?thesis by simp
next
  case False
  assume t: "number_end t"
  obtain c cs where s: "show_nat n = c # cs" by (metis list.exhaust show_nat_not_Nil)
  with show_nat_hd [OF False] show_nat_digits [of n] takeWhile_end [of is_digit cs t] t show ?thesis
    by (auto simp: number_end_def)
qed

lemma scan_number_show:
  assumes "number_end t"
  shows "scan_number (show_nat n @ t) = Some (show_nat n, t)"
proof -
  obtain c cs where s: "show_nat n = c # cs" by (metis list.exhaust show_nat_not_Nil)
  then have "scan_sign ''-'' (show_nat n @ t) = ([], show_nat n @ t)"
    using show_nat_no_minus [of n] by auto
  moreover have "scan_fraction t = Some ([], t)" "scan_exponent t = Some ([], t)"
    using assms by (cases t; simp add: number_end_def)+
  ultimately show ?thesis by (simp add: scan_number_def scan_int_show [OF assms])
qed

lemma show_nat_starts: "\<exists>c cs. show_nat n = c # cs \<and> is_digit c"
  using show_nat_digits [of n] show_nat_not_Nil [of n] by (cases "show_nat n") auto

lemma skip_not_space: "\<not> is_space c \<Longrightarrow> skip (c # s) = c # s"
  by (simp add: skip_def)

lemma print_json_starts: "printable j \<Longrightarrow> \<exists>c cs. print_json j = c # cs \<and> \<not> is_space c \<and> c \<notin> set '']}''"
  using show_nat_starts
  by (cases j) (auto simp: quoted_def is_space_def byte_of_def is_digit_def, (fastforce simp: is_digit_def byte_of_def)+)

text \<open>A value whose printed form is read back in front of anything that does not prolong a number.\<close>

definition read_back :: "nat \<Rightarrow> json \<Rightarrow> bool" where
  "read_back d j \<longleftrightarrow>
     (\<forall>n t. 2 * length (print_json j) < n \<and> number_end t \<longrightarrow> parse_value n d (print_json j @ t) = Some (j, t))"

lemma read_backD: "read_back d j \<Longrightarrow> 2 * length (print_json j) < n \<Longrightarrow> number_end t \<Longrightarrow>
    parse_value n d (print_json j @ t) = Some (j, t)"
  by (simp add: read_back_def)

lemma punctuation:
  "skip (CHR '','' # t) = CHR '','' # t" "skip (CHR '']'' # t) = CHR '']'' # t" "skip (CHR ''}'' # t) = CHR ''}'' # t"
  "skip (CHR '':'' # t) = CHR '':'' # t" "skip (CHR 0x22 # t) = CHR 0x22 # t" "skip (CHR ''{'' # t) = CHR ''{'' # t"
  "skip (CHR ''['' # t) = CHR ''['' # t"
  "number_end (CHR '','' # t)" "number_end (CHR '']'' # t)" "number_end (CHR ''}'' # t)"
  by (simp_all add: skip_def is_space_def number_end_def is_digit_def byte_of_def)

lemma parse_elements_print:
  assumes "\<forall>v \<in> set vs. read_back d v" and "vs \<noteq> []" and "2 * length (join (map print_json vs)) + 1 < n"
  shows "parse_elements n d (join (map print_json vs) @ CHR '']'' # t) = Some (vs, t)"
  using assms
proof (induction vs arbitrary: n)
  case (Cons v vs)
  then obtain m where m: "n = Suc m" by (cases n) auto
  show ?case
  proof (cases vs)
    case Nil
    with Cons.prems m show ?thesis by (simp add: parse_elements.simps read_backD punctuation)
  next
    case (Cons w ws)
    have "2 * length (print_json v) < m" "2 * length (join (map print_json vs)) + 1 < m"
      using Cons.prems(3) m Cons by simp_all
    moreover have "join (map print_json (v # vs)) = print_json v @ CHR '','' # join (map print_json vs)" using Cons by simp
    ultimately show ?thesis
      using Cons.IH [of m] Cons.prems(1) Cons m by (simp add: parse_elements.simps read_backD punctuation del: join.simps)
  qed
qed simp

definition print_member :: "string \<times> json \<Rightarrow> string" where
  "print_member kv = quoted (fst kv) @ CHR '':'' # print_json (snd kv)"

lemma parse_member_front:
  assumes "k = quote s" and "read_back d v" and "2 * length (print_member (k, v)) < n" and "number_end t"
  shows "parse_members (Suc n) d (print_member (k, v) @ t) =
    (case skip t of [] \<Rightarrow> None
     | c # t \<Rightarrow> if c = CHR ''}'' then Some ([(k, v)], t)
         else if c = CHR '','' then do { (ms, r) \<leftarrow> parse_members n d t; Some ((k, v) # ms, r) }
         else None)"
  unfolding assms(1) using assms(3,4) scan_quote [of s "CHR '':'' # print_json v @ t"] read_backD [OF assms(2), of n t]
  by (simp add: parse_members.simps print_member_def quoted_def punctuation)

lemma parse_members_print:
  assumes "\<forall>(k, v) \<in> set ms. (\<exists>s. k = quote s) \<and> read_back d v" and "ms \<noteq> []"
    and "2 * length (join (map print_member ms)) + 1 < n"
  shows "parse_members n d (join (map print_member ms) @ CHR ''}'' # t) = Some (ms, t)"
  using assms
proof (induction ms arbitrary: n)
  case (Cons m ms)
  obtain k v where kv: "m = (k, v)" by force
  with Cons.prems(1) obtain s where k: "k = quote s" "read_back d v" by auto
  from Cons.prems obtain l where l: "n = Suc l" by (cases n) auto
  show ?case
  proof (cases ms)
    case Nil
    with Cons.prems l kv parse_member_front [OF k, of l "CHR ''}'' # t"] show ?thesis by (simp add: punctuation)
  next
    case (Cons w ws)
    have "2 * length (print_member (k, v)) < l" "2 * length (join (map print_member ms)) + 1 < l"
      using Cons.prems(3) l kv Cons by simp_all
    moreover have "join (map print_member (m # ms)) = print_member (k, v) @ CHR '','' # join (map print_member ms)"
      using Cons kv by simp
    ultimately show ?thesis
      using Cons.IH [of l] Cons.prems(1) Cons l kv parse_member_front [OF k, of l "CHR '','' # join (map print_member ms) @ CHR ''}'' # t"]
      by (simp add: punctuation del: join.simps)
  qed
qed simp

lemma depth_element:
  "v \<in> set vs \<Longrightarrow> depth v < depth (JArr vs)"
  "(k, v) \<in> set ms \<Longrightarrow> depth v < depth (JObj ms)"
  by (auto simp: less_Suc_eq_le intro!: Max_ge)

lemma join_starts: "x \<noteq> [] \<Longrightarrow> join (x # xs) @ t = hd x # tl (join (x # xs) @ t)"
  by (cases xs) (cases x; simp)+

lemma read_backI:
  assumes "\<And>n t. number_end t \<Longrightarrow> 2 * length (print_json j) \<le> n \<Longrightarrow>
    parse_value (Suc n) d (print_json j @ t) = Some (j, t)"
  shows "read_back d j"
  unfolding read_back_def
proof (intro allI impI)
  fix n t
  assume a: "2 * length (print_json j) < n \<and> number_end t"
  then obtain m where "n = Suc m" by (cases n) auto
  with a assms [of t m] show "parse_value n d (print_json j @ t) = Some (j, t)" by simp
qed

lemma read_back_array:
  assumes "\<And>v. v \<in> set vs \<Longrightarrow> printable v \<and> read_back (Suc d) v" and "d < max_depth"
  shows "read_back d (JArr vs)"
proof (rule read_backI)
  fix n t
  assume n: "2 * length (print_json (JArr vs)) \<le> n"
  show "parse_value (Suc n) d (print_json (JArr vs) @ t) = Some (JArr vs, t)"
  proof (cases vs)
    case Nil
    with assms(2) show ?thesis by (simp add: parse_value.simps punctuation)
  next
    case (Cons v ws)
    with assms(1) print_json_starts [of v] obtain c cs where
      c: "print_json v = c # cs" "\<not> is_space c" "c \<notin> set '']}''" by auto
    let ?j = "join (map print_json vs) @ CHR '']'' # t"
    have "?j = c # tl ?j" using join_starts [of "print_json v" "map print_json ws" "CHR '']'' # t"] c Cons by simp
    then have "skip ?j = c # tl ?j" using skip_not_space [OF c(2), of "tl ?j"] by simp
    then have "take 1 (skip ?j) \<noteq> '']''" using c(3) by simp
    with parse_elements_print [of vs "Suc d" n t] n assms Cons show ?thesis
      by (simp add: parse_value.simps punctuation del: join.simps)
  qed
qed

lemma print_object: "print_json (JObj ms) = CHR ''{'' # join (map print_member ms) @ ''}''"
proof -
  have "(\<lambda>(k, v). quoted k @ '':'' @ print_json v) = print_member" by (auto simp: print_member_def)
  then show ?thesis by simp
qed

lemma read_back_object:
  assumes "\<And>k v. (k, v) \<in> set ms \<Longrightarrow> (\<exists>s. k = quote s) \<and> read_back (Suc d) v" and "d < max_depth"
  shows "read_back d (JObj ms)"
proof (rule read_backI)
  fix n t
  assume n: "2 * length (print_json (JObj ms)) \<le> n"
  show "parse_value (Suc n) d (print_json (JObj ms) @ t) = Some (JObj ms, t)"
  proof (cases ms)
    case Nil
    with assms(2) show ?thesis by (simp add: parse_value.simps punctuation)
  next
    case (Cons m ws)
    let ?j = "join (map print_member ms) @ CHR ''}'' # t"
    have "?j = CHR 0x22 # tl ?j"
      using join_starts [of "print_member m" "map print_member ws" "CHR ''}'' # t"] Cons
      by (simp add: print_member_def quoted_def)
    then have "skip ?j = CHR 0x22 # tl ?j" using punctuation(5) [of "tl ?j"] by simp
    then have "take 1 (skip ?j) \<noteq> ''}''" by simp
    moreover have "parse_members n (Suc d) ?j = Some (ms, t)"
      using assms(1) n Cons by (intro parse_members_print) (auto simp: print_object simp del: print_json.simps)
    ultimately show ?thesis
      using assms(2) unfolding print_object by (simp add: parse_value.simps punctuation del: join.simps)
  qed
qed

lemma parse_print: "printable j \<Longrightarrow> d + depth j \<le> max_depth \<Longrightarrow> read_back d j"
proof (induction j arbitrary: d)
  case (JNum l)
  then obtain k where l: "l = show_nat k" by auto
  obtain c cs where c: "show_nat k = c # cs" "is_digit c" using show_nat_starts by blast
  then have n: "\<not> is_space c" "c \<noteq> CHR ''{''" "c \<noteq> CHR ''[''" "c \<noteq> CHR 0x22" by (auto simp: is_space_def is_digit_def byte_of_def)
  show ?case
    using n c scan_number_show [of _ k] by (intro read_backI) (simp add: l parse_value.simps skip_not_space)
next
  case (JStr raw)
  then obtain s where "raw = quote s" by auto
  then show ?case
    using scan_quote [of s] by (intro read_backI) (simp add: parse_value.simps quoted_def punctuation)
next
  case (JArr vs)
  show ?case
  proof (rule read_back_array)
    fix v
    assume v: "v \<in> set vs"
    with depth_element(1) [OF v] JArr.prems show "printable v \<and> read_back (Suc d) v" using JArr.IH [OF v] by auto
  qed (use JArr.prems in simp)
next
  case (JObj ms)
  show ?case
  proof (rule read_back_object)
    fix k v
    assume v: "(k, v) \<in> set ms"
    have "read_back (Suc d) v"
      using depth_element(2) [OF v] JObj.prems v by (intro JObj.IH [of "(k, v)" v]) auto
    with JObj.prems v show "(\<exists>s. k = quote s) \<and> read_back (Suc d) v" by auto
  qed (use JObj.prems in simp)
qed (rule read_backI, simp add: parse_value.simps skip_def is_space_def is_digit_def literal_def byte_of_def)+

text \<open>A printed value is what \<^verbatim>\<open>Unmarshal\<close> sees, and what \<^verbatim>\<open>Decode\<close> sees in front of other text.\<close>

lemma parse_json_print: "printable j \<Longrightarrow> depth j \<le> max_depth \<Longrightarrow> parse_json (print_json j) = Some j"
  using read_backD [OF parse_print [of j 0], of "2 * length (print_json j) + 2" "[]"]
  by (simp add: parse_json_def first_value_def number_end_def skip_def)

end
