(* ===== verification/Go_Encoding.thy ===== *)
theory Go_Encoding
  imports Go_Json
begin

text \<open>
  The two text forms of the standard library that JSON documents of the program contain: standard base64
  (\<^verbatim>\<open>encoding/base64\<close>) for byte slices, and RFC 3339 (\<^verbatim>\<open>time\<close>) for time stamps; and how \<^verbatim>\<open>encoding/json\<close> stores a
  JSON value into a Go value of each type the program uses (\<open>None\<close> is an error).
\<close>

section \<open>Base64\<close>

definition b64_char :: "nat \<Rightarrow> char" where
  "b64_char i =
     (if i < 26 then char_of (65 + i) else if i < 52 then char_of (71 + i) else if i < 62 then char_of (i - 4)
      else if i = 62 then CHR ''+'' else CHR ''/'')"

definition b64_val :: "char \<Rightarrow> nat option" where
  "b64_val c =
     (if 65 \<le> byte_of c \<and> byte_of c \<le> 90 then Some (byte_of c - 65)
      else if 97 \<le> byte_of c \<and> byte_of c \<le> 122 then Some (byte_of c - 71)
      else if 48 \<le> byte_of c \<and> byte_of c \<le> 57 then Some (byte_of c + 4)
      else if c = CHR ''+'' then Some 62 else if c = CHR ''/'' then Some 63 else None)"

fun b64_encode :: "nat list \<Rightarrow> string" where
  "b64_encode [] = []"
| "b64_encode [a] = [b64_char (a div 4), b64_char (a mod 4 * 16), CHR ''='', CHR ''='']"
| "b64_encode [a, b] =
     [b64_char (a div 4), b64_char (a mod 4 * 16 + b div 16), b64_char (b mod 16 * 4), CHR ''='']"
| "b64_encode (a # b # c # r) =
     b64_char (a div 4) # b64_char (a mod 4 * 16 + b div 16) # b64_char (b mod 16 * 4 + c div 64) #
     b64_char (c mod 64) # b64_encode r"

text \<open>Groups of four, the last one padded; the decoder ignores line breaks.\<close>

fun b64_groups :: "string \<Rightarrow> nat list option" where
  "b64_groups [] = Some []"
| "b64_groups (w # x # y # z # r) =
     do {
       w \<leftarrow> b64_val w;
       x \<leftarrow> b64_val x;
       if y = CHR ''='' \<and> z = CHR ''='' \<and> r = [] then Some [w * 4 + x div 16]
       else
         do {
           y \<leftarrow> b64_val y;
           if z = CHR ''='' \<and> r = [] then Some [w * 4 + x div 16, x mod 16 * 16 + y div 4]
           else
             do {
               z \<leftarrow> b64_val z;
               bs \<leftarrow> b64_groups r;
               Some ((w * 4 + x div 16) # (x mod 16 * 16 + y div 4) # (y mod 4 * 64 + z) # bs)
             }
         }
     }"
| "b64_groups _ = None"

definition b64_decode :: "string \<Rightarrow> nat list option" where
  "b64_decode s = b64_groups (filter (\<lambda>c. byte_of c \<noteq> 10 \<and> byte_of c \<noteq> 13) s)"

lemma b64_val_char [simp]: "i < 64 \<Longrightarrow> b64_val (b64_char i) = Some i"
proof -
  assume "i < 64"
  moreover have "byte_of CHR ''+'' = 43" "byte_of CHR ''/'' = 47" by (simp_all add: byte_of_def)
  ultimately show ?thesis by (auto simp: b64_val_def b64_char_def)
qed

lemma b64_char_plain: "i < 64 \<Longrightarrow> byte_of (b64_char i) \<ge> 43 \<and> b64_char i \<noteq> CHR ''=''"
proof -
  assume i: "i < 64"
  have "b64_val CHR ''='' = None" by (simp add: b64_val_def byte_of_def)
  then have "b64_char i \<noteq> CHR ''=''" using b64_val_char [OF i] by force
  moreover have "byte_of CHR ''+'' = 43" "byte_of CHR ''/'' = 47" by (simp_all add: byte_of_def)
  ultimately show ?thesis using i by (auto simp: b64_char_def)
qed

text \<open>Three bytes as four six-bit digits.\<close>

lemma b64_digits:
  assumes "a < 256" and "b < 256" and "c < (256 :: nat)"
  shows "a div 4 < 64" "a mod 4 * 16 + b div 16 < 64" "b mod 16 * 4 + c div 64 < 64" "a mod 4 * 16 < 64" "b mod 16 * 4 < 64"
proof -
  have "a div 4 < 64" "b div 16 < 16" "c div 64 < 4" using assms by (simp_all add: less_mult_imp_div_less)
  moreover have "a mod 4 < 4" "b mod 16 < 16" by simp_all
  ultimately show "a div 4 < 64" "a mod 4 * 16 + b div 16 < 64" "b mod 16 * 4 + c div 64 < 64" "a mod 4 * 16 < 64"
    "b mod 16 * 4 < 64" by linarith+
qed

lemma b64_bytes:
  assumes "a < 256" and "b < 256" and "c < (256 :: nat)"
  shows "a div 4 * 4 + (a mod 4 * 16 + b div 16) div 16 = a"
    "(a mod 4 * 16 + b div 16) mod 16 * 16 + (b mod 16 * 4 + c div 64) div 4 = b"
    "(b mod 16 * 4 + c div 64) mod 4 * 64 + c mod 64 = c"
    "(a mod 4 * 16 + b div 16) mod 16 * 16 + (b mod 16 * 4) div 4 = b"
proof -
  have "b div 16 < 16" "c div 64 < 4" using assms by (simp_all add: less_mult_imp_div_less)
  then show "a div 4 * 4 + (a mod 4 * 16 + b div 16) div 16 = a"
    "(a mod 4 * 16 + b div 16) mod 16 * 16 + (b mod 16 * 4 + c div 64) div 4 = b"
    "(b mod 16 * 4 + c div 64) mod 4 * 64 + c mod 64 = c"
    "(a mod 4 * 16 + b div 16) mod 16 * 16 + (b mod 16 * 4) div 4 = b" by simp_all
qed

lemma b64_groups_encode: "list_all (\<lambda>b. b < 256) bs \<Longrightarrow> b64_groups (b64_encode bs) = Some bs"
proof (induction bs rule: b64_encode.induct)
  case (2 a)
  then show ?case using b64_digits [of a 0 0] b64_bytes [of a 0 0] by simp
next
  case (3 a b)
  then show ?case
    using b64_digits [of a b 0] b64_bytes [of a b 0] b64_char_plain [of "b mod 16 * 4"] by simp
next
  case (4 a b c r)
  then show ?case
    using b64_digits [of a b c] b64_bytes [of a b c] b64_char_plain [of "b mod 16 * 4 + c div 64"]
      b64_char_plain [of "c mod 64"] by simp
qed simp

lemma b64_encode_plain: "list_all (\<lambda>b. b < 256) bs \<Longrightarrow> list_all (\<lambda>c. 43 \<le> byte_of c) (b64_encode bs)"
proof (induction bs rule: b64_encode.induct)
  case (2 a)
  then show ?case using b64_digits [of a 0 0] b64_char_plain by (simp add: byte_of_def)
next
  case (3 a b)
  then show ?case using b64_digits [of a b 0] b64_char_plain by (simp add: byte_of_def)
next
  case (4 a b c r)
  then show ?case using b64_digits [of a b c] b64_char_plain by simp
qed simp

lemma b64_decode_encode:
  assumes "list_all (\<lambda>b. b < 256) bs"
  shows "b64_decode (b64_encode bs) = Some bs"
proof -
  have "filter (\<lambda>c. byte_of c \<noteq> 10 \<and> byte_of c \<noteq> 13) (b64_encode bs) = b64_encode bs"
    using b64_encode_plain [OF assms] by (auto simp: list_all_iff filter_id_conv)
  with b64_groups_encode [OF assms] show ?thesis by (simp add: b64_decode_def)
qed

text \<open>Text that needs no escape in JSON.\<close>

lemma quote_plain:
  "list_all (\<lambda>c. 32 \<le> byte_of c \<and> byte_of c < 128 \<and> byte_of c \<notin> {34, 38, 60, 62, 92}) s \<Longrightarrow> quote s = s"
proof (induction s)
  case (Cons c s)
  then have "c \<notin> set ''<>&''" by (auto simp: byte_of_def)
  with Cons show ?case by (simp add: quote.simps(2) quote_ascii_def)
qed simp

section \<open>Calendar\<close>

definition leap :: "nat \<Rightarrow> bool" where
  "leap y \<longleftrightarrow> y mod 4 = 0 \<and> (y mod 100 \<noteq> 0 \<or> y mod 400 = 0)"

definition year_length :: "nat \<Rightarrow> nat" where
  "year_length y = (if leap y then 366 else 365)"

definition month_lengths :: "nat \<Rightarrow> nat list" where
  "month_lengths y = [31, if leap y then 29 else 28, 31, 30, 31, 30, 31, 31, 30, 31, 30, 31]"

text \<open>The piece a day falls into, when time is cut into pieces of the given lengths, and its place there.\<close>

fun locate :: "nat list \<Rightarrow> nat \<Rightarrow> nat \<times> nat" where
  "locate [] d = (0, d)"
| "locate (l # ls) d = (if d < l then (0, d) else let (i, r) = locate ls (d - l) in (Suc i, r))"

definition years :: "nat list" where
  "years = map year_length [0..<10000]"

text \<open>Days are counted from the first day of year 0; 1970 begins 719528 days later.\<close>

definition epoch_day :: int where
  "epoch_day = 719528"

definition day_of :: "nat \<Rightarrow> nat \<Rightarrow> nat \<Rightarrow> nat" where
  "day_of y m d = sum_list (map year_length [0..<y]) + sum_list (take (m - 1) (month_lengths y)) + (d - 1)"

lemma locate_correct:
  "d < sum_list ls \<Longrightarrow> locate ls d = (i, r) \<Longrightarrow> i < length ls \<and> r < ls ! i \<and> sum_list (take i ls) + r = d"
proof (induction ls arbitrary: d i r)
  case (Cons l ls)
  show ?case
  proof (cases "d < l")
    case False
    obtain i' r' where l: "locate ls (d - l) = (i', r')" by force
    moreover have "d - l < sum_list ls" using Cons.prems(1) False by simp
    ultimately show ?thesis using Cons.IH [of "d - l" i' r'] Cons.prems(2) False by auto
  qed (use Cons.prems in auto)
qed simp

lemma month_lengths_sum: "sum_list (month_lengths y) = year_length y"
  by (simp add: month_lengths_def year_length_def)

text \<open>The number of days before a year, in closed form.\<close>

lemma round_up_Suc:
  assumes "0 < (k :: nat)"
  shows "(Suc y + (k - 1)) div k = (y + (k - 1)) div k + of_bool (y mod k = 0)"
proof -
  have "y + (k - 1) = (y mod k + (k - 1)) + k * (y div k)" by (metis add.assoc add.commute mod_mult_div_eq)
  then have up: "(y + (k - 1)) div k = (y mod k + (k - 1)) div k + y div k" using assms by (simp only: div_mult_self2)
  have "(y mod k + (k - 1)) div k = of_bool (y mod k \<noteq> 0)"
  proof (cases "y mod k = 0")
    case False
    then obtain r where r: "y mod k = Suc r" by (cases "y mod k") auto
    then have "r < k" using mod_less_divisor [OF assms, of y] by simp
    then have "(r + k) div k = 1" using assms by (simp add: div_add_self2)
    then show ?thesis using r assms by (simp add: Suc_diff_Suc)
  qed (use assms in simp)
  with up show ?thesis using assms by (auto simp: div_add_self2)
qed

lemma days_before_year: "sum_list (map year_length [0..<y]) + (y + 99) div 100 = 365 * y + (y + 3) div 4 + (y + 399) div 400"
proof (induction y)
  case (Suc y)
  have s4: "(Suc y + 3) div 4 = (y + 3) div 4 + of_bool (y mod 4 = 0)"
    and s100: "(Suc y + 99) div 100 = (y + 99) div 100 + of_bool (y mod 100 = 0)"
    and s400: "(Suc y + 399) div 400 = (y + 399) div 400 + of_bool (y mod 400 = 0)"
    using round_up_Suc [of 4 y] round_up_Suc [of 100 y] round_up_Suc [of 400 y] by simp_all
  have "y mod 400 = 0 \<Longrightarrow> y mod 100 = 0" "y mod 100 = 0 \<Longrightarrow> y mod 4 = 0"
    by (auto simp flip: dvd_eq_mod_eq_0 elim: dvd_trans [rotated])
  then have "year_length y + of_bool (y mod 100 = 0) = 365 + of_bool (y mod 4 = 0) + of_bool (y mod 400 = 0)"
    by (cases "y mod 100 = 0"; cases "y mod 400 = 0"; cases "y mod 4 = 0") (simp_all add: year_length_def leap_def)
  with Suc show ?case unfolding s4 s100 s400 by simp
qed simp

lemma years_sum: "sum_list years = 3652425"
  using days_before_year [of 10000] by (simp add: years_def)

lemma epoch_day_correct: "day_of 1970 1 1 = nat epoch_day"
  using days_before_year [of 1970] by (simp add: day_of_def epoch_day_def)

section \<open>Fixed-width decimals\<close>

fun pad :: "nat \<Rightarrow> nat \<Rightarrow> string" where
  "pad 0 n = []"
| "pad (Suc w) n = pad w (n div 10) @ [digit (n mod 10)]"

definition take_digits :: "nat \<Rightarrow> string \<Rightarrow> (nat \<times> string) option" where
  "take_digits k s =
     (if k \<le> length s \<and> list_all is_digit (take k s) then Some (read_nat (take k s), drop k s) else None)"

definition expect :: "char \<Rightarrow> string \<Rightarrow> string option" where
  "expect c s = (if take 1 s = [c] then Some (drop 1 s) else None)"

lemma length_pad [simp]: "length (pad w n) = w"
  by (induction w arbitrary: n) simp_all

lemma pad_digits: "list_all is_digit (pad w n)"
  by (induction w arbitrary: n) (simp_all add: is_digit_def byte_of_digit)

lemma read_nat_pad: "n < 10 ^ w \<Longrightarrow> read_nat (pad w n) = n"
proof (induction w arbitrary: n)
  case (Suc w)
  then have "n div 10 < 10 ^ w" by (simp add: less_mult_imp_div_less mult.commute)
  with Suc.IH show ?case by (simp add: read_nat_snoc)
qed (simp add: read_nat_def)

lemma take_digits_pad: "n < 10 ^ k \<Longrightarrow> take_digits k (pad k n @ s) = Some (n, s)"
  by (simp add: take_digits_def pad_digits read_nat_pad)

lemma expect_Cons [simp]: "expect c (c # s) = Some s"
  by (simp add: expect_def)

section \<open>RFC 3339\<close>

text \<open>Trailing zeros of the nanoseconds are left out, and the point with them when there are only zeros.\<close>

definition trim_zeros :: "string \<Rightarrow> string" where
  "trim_zeros s = rev (dropWhile (\<lambda>c. c = CHR ''0'') (rev s))"

definition show_fraction :: "nat \<Rightarrow> string" where
  "show_fraction ns = (if ns = 0 then [] else CHR ''.'' # trim_zeros (pad 9 ns))"

text \<open>The offset of a zone from UTC in minutes.\<close>

definition show_zone :: "int \<Rightarrow> string" where
  "show_zone z =
     (if z = 0 then ''Z''
      else (if z < 0 then CHR ''-'' else CHR ''+'') #
           pad 2 (nat \<bar>z\<bar> div 60) @ '':'' @ pad 2 (nat \<bar>z\<bar> mod 60))"

text \<open>
  \<^verbatim>\<open>Time.MarshalJSON\<close> without the quotes, for a time in a zone: a year outside 0 to 9999 and an offset of a day
  or more are errors.
\<close>

definition show_time :: "int \<Rightarrow> time \<Rightarrow> string option" where
  "show_time z t =
     (let l = t + z * 60000000000;
          secs = l div 1000000000;
          ns = nat (l mod 1000000000);
          day = secs div 86400 + epoch_day;
          s = nat (secs mod 86400)
      in if day < 0 \<or> int (sum_list years) \<le> day \<or> 1440 \<le> \<bar>z\<bar> then None
         else
           let (y, yd) = locate years (nat day);
               (m, md) = locate (month_lengths y) yd
           in Some (pad 4 y @ ''-'' @ pad 2 (m + 1) @ ''-'' @ pad 2 (md + 1) @ ''T'' @ pad 2 (s div 3600) @ '':'' @
                    pad 2 (s div 60 mod 60) @ '':'' @ pad 2 (s mod 60) @ show_fraction ns @ show_zone z))"

text \<open>
  \<^verbatim>\<open>time.Parse\<close> with the RFC 3339 layout, which is what \<^verbatim>\<open>Time.UnmarshalJSON\<close> accepts: an hour may have one digit,
  a fraction may begin with a comma, more than nine of its digits are cut off, and the offset of a zone
  may be up to 24 hours and 60 minutes.
\<close>

definition take_hour :: "string \<Rightarrow> (nat \<times> string) option" where
  "take_hour s = (case take_digits 2 s of Some r \<Rightarrow> Some r | None \<Rightarrow> take_digits 1 s)"

fun take_fraction :: "string \<Rightarrow> nat \<times> string" where
  "take_fraction [] = (0, [])"
| "take_fraction (c # s) =
     (if c \<in> set ''.,'' \<and> takeWhile is_digit s \<noteq> []
      then let ds = take 9 (takeWhile is_digit s) in (read_nat ds * 10 ^ (9 - length ds), dropWhile is_digit s)
      else (0, c # s))"

fun take_zone :: "string \<Rightarrow> (int \<times> string) option" where
  "take_zone [] = None"
| "take_zone (c # s) =
     (if c = CHR ''Z'' then Some (0, s)
      else
        do {
          (h, s) \<leftarrow> take_digits 2 s;
          s \<leftarrow> expect CHR '':'' s;
          (m, s) \<leftarrow> take_digits 2 s;
          if 24 < h \<or> 60 < m then None
          else if c = CHR ''+'' then Some (int (h * 60 + m), s)
          else if c = CHR ''-'' then Some (- int (h * 60 + m), s)
          else None
        })"

definition time_of :: "nat \<Rightarrow> nat \<Rightarrow> nat \<Rightarrow> nat \<Rightarrow> nat \<Rightarrow> int \<Rightarrow> time" where
  "time_of y m d secs ns z =
     ((int (day_of y m d) - epoch_day) * 86400 + int secs) * 1000000000 + int ns - z * 60000000000"

definition parse_time :: "string \<Rightarrow> time option" where
  "parse_time s =
     do {
       (y, s) \<leftarrow> take_digits 4 s;
       s \<leftarrow> expect CHR ''-'' s;
       (m, s) \<leftarrow> take_digits 2 s;
       s \<leftarrow> expect CHR ''-'' s;
       (d, s) \<leftarrow> take_digits 2 s;
       s \<leftarrow> expect CHR ''T'' s;
       (h, s) \<leftarrow> take_hour s;
       s \<leftarrow> expect CHR '':'' s;
       (mi, s) \<leftarrow> take_digits 2 s;
       s \<leftarrow> expect CHR '':'' s;
       (se, s) \<leftarrow> take_digits 2 s;
       let (ns, s) = take_fraction s
       in do {
         (z, s) \<leftarrow> take_zone s;
         if m = 0 \<or> 12 < m \<or> d = 0 \<or> month_lengths y ! (m - 1) < d \<or> 24 \<le> h \<or> 60 \<le> mi \<or> 60 \<le> se \<or> s \<noteq> []
         then None
         else Some (time_of y m d (h * 3600 + mi * 60 + se) ns z)
       }
     }"

subsection \<open>Reading back\<close>

lemma take_hour_pad: "h < 100 \<Longrightarrow> take_hour (pad 2 h @ s) = Some (h, s)"
  by (simp add: take_hour_def take_digits_pad)

lemma take_zone_show:
  assumes "\<bar>z\<bar> < 1440"
  shows "take_zone (show_zone z) = Some (z, [])"
proof (cases "z = 0")
  case False
  define a where "a = nat \<bar>z\<bar>"
  have "a < 1440" using assms by (simp add: a_def)
  then have "a div 60 < 24" by (simp add: less_mult_imp_div_less)
  moreover have "a mod 60 < 100" "\<not> 60 < a mod 60" using mod_less_divisor [of 60 a] by linarith+
  moreover have "z = (if z < 0 then - int a else int a)" by (simp add: a_def)
  moreover have "a div 60 * 60 + a mod 60 = a" by simp
  ultimately show ?thesis
    using False take_digits_pad [of "a div 60" 2 "CHR '':'' # pad 2 (a mod 60)"] take_digits_pad [of "a mod 60" 2 "[]"]
    by (simp add: show_zone_def split: if_splits flip: a_def)
qed (simp add: show_zone_def)

lemma show_zone_starts: "\<exists>c cs. show_zone z = c # cs \<and> \<not> is_digit c \<and> c \<notin> set ''.,''"
  by (auto simp: show_zone_def is_digit_def byte_of_def)

lemma read_nat_zeros: "read_nat (xs @ replicate k CHR ''0'') = read_nat xs * 10 ^ k"
proof (induction k)
  case (Suc k)
  have "xs @ replicate (Suc k) CHR ''0'' = (xs @ replicate k CHR ''0'') @ [CHR ''0'']"
    by (simp add: replicate_append_same)
  then have "read_nat (xs @ replicate (Suc k) CHR ''0'') = 10 * read_nat (xs @ replicate k CHR ''0'')"
    by (simp only: read_nat_snoc) (simp add: digit_val_def)
  then show ?case using Suc by simp
qed simp

lemma trim_zeros_append: "s = trim_zeros s @ replicate (length s - length (trim_zeros s)) CHR ''0''"
proof -
  let ?z = "\<lambda>c. c = CHR ''0''"
  have "takeWhile ?z (rev s) = replicate (length (takeWhile ?z (rev s))) CHR ''0''"
    by (rule replicate_eqI [symmetric, THEN sym]) (auto dest: set_takeWhileD)
  moreover have "rev s = takeWhile ?z (rev s) @ dropWhile ?z (rev s)" by simp
  moreover have "length s = length (takeWhile ?z (rev s)) + length (dropWhile ?z (rev s))"
    by (metis length_append length_rev takeWhile_dropWhile_id)
  ultimately show ?thesis unfolding trim_zeros_def by (metis add_diff_cancel_right' length_rev rev_append rev_replicate rev_rev_ident)
qed

lemma read_trimmed:
  assumes "ns < 10 ^ 9"
  shows "read_nat (trim_zeros (pad 9 ns)) * 10 ^ (9 - length (trim_zeros (pad 9 ns))) = ns"
  using trim_zeros_append [of "pad 9 ns"] read_nat_zeros read_nat_pad [OF assms] by (metis length_pad)

lemma take_fraction_show:
  assumes "ns < 10 ^ 9"
  shows "take_fraction (show_fraction ns @ show_zone z) = (ns, show_zone z)"
proof (cases "ns = 0")
  case True
  with show_zone_starts [of z] show ?thesis by (auto simp: show_fraction_def)
next
  case False
  let ?t = "trim_zeros (pad 9 ns)"
  have all: "list_all is_digit ?t"
    using pad_digits [of 9 ns] trim_zeros_append [of "pad 9 ns"] by (metis list_all_append)
  obtain c cs where "show_zone z = c # cs" "\<not> is_digit c" using show_zone_starts by blast
  then have w: "takeWhile is_digit (?t @ show_zone z) = ?t" "dropWhile is_digit (?t @ show_zone z) = show_zone z"
    using takeWhile_end [OF all, of "show_zone z"] by auto
  have ne: "?t \<noteq> []" using read_trimmed [OF assms] False by (auto simp: read_nat_def)
  have "length ?t \<le> 9" using arg_cong [OF trim_zeros_append [of "pad 9 ns"], of length] by simp
  then show ?thesis using w ne False read_trimmed [OF assms] by (simp add: show_fraction_def)
qed

lemma locate_month:
  assumes "yd < year_length y" and "locate (month_lengths y) yd = (m, md)"
  shows "m < 12" "md < month_lengths y ! m" "sum_list (take m (month_lengths y)) + md = yd"
  using locate_correct [of yd "month_lengths y" m md] assms by (simp_all add: month_lengths_sum, simp add: month_lengths_def)

lemma month_length_le: "m < 12 \<Longrightarrow> month_lengths y ! m \<le> 31"
  by (auto simp: month_lengths_def less_Suc_eq numeral_eq_Suc)

lemma locate_year:
  assumes "n < sum_list years" and "locate years n = (y, yd)"
  shows "y < 10000" "yd < year_length y" "sum_list (map year_length [0..<y]) + yd = n"
proof -
  have "length years = 10000" by (simp add: years_def)
  with locate_correct [OF assms] have l: "y < 10000 \<and> yd < years ! y \<and> sum_list (take y years) + yd = n" by simp
  then have "years ! y = year_length y" by (simp add: years_def nth_upt del: upt.simps)
  with l show "y < 10000" "yd < year_length y" by simp_all
  have "take y years = map year_length [0..<y]" using l by (simp add: years_def take_map)
  with l show "sum_list (map year_length [0..<y]) + yd = n" by simp
qed

text \<open>A date and time of day written out in the layout is read back as the moment it denotes.\<close>

lemma parse_time_fields:
  assumes "y < 10000" and "m < 12" and "md < month_lengths y ! m" and "s < 86400" and "ns < 10 ^ 9" and "\<bar>z\<bar> < 1440"
  shows "parse_time (pad 4 y @ ''-'' @ pad 2 (m + 1) @ ''-'' @ pad 2 (md + 1) @ ''T'' @ pad 2 (s div 3600) @ '':'' @
      pad 2 (s div 60 mod 60) @ '':'' @ pad 2 (s mod 60) @ show_fraction ns @ show_zone z) =
    Some (time_of y (m + 1) (md + 1) s ns z)"
proof -
  have md: "md + 1 < 100" using assms(3) month_length_le [OF assms(2), of y] by simp
  have s: "s div 3600 < 24" "s div 60 mod 60 < 100" "s mod 60 < 100" "\<not> 60 \<le> s div 60 mod 60" "\<not> 60 \<le> s mod 60"
    using assms(4) mod_less_divisor [of 60 s] mod_less_divisor [of 60 "s div 60"]
    by (simp_all add: less_mult_imp_div_less not_le del: mod_less_divisor)
  have "s div 3600 = s div 60 div 60" by (simp flip: div_mult2_eq)
  then have "s div 3600 * 3600 + s div 60 mod 60 * 60 + s mod 60 = s"
    using div_mult_mod_eq [of "s div 60" 60] div_mult_mod_eq [of s 60] by linarith
  with assms md s show ?thesis
    by (simp add: parse_time_def take_digits_pad take_hour_pad take_fraction_show take_zone_show del: pad.simps)
qed

lemma parse_time_show:
  assumes "show_time z t = Some s"
  shows "parse_time s = Some t"
proof -
  define l where "l = t + z * 60000000000"
  define secs where "secs = l div 1000000000"
  define ns where "ns = nat (l mod 1000000000)"
  define day where "day = secs div 86400 + epoch_day"
  define sd where "sd = nat (secs mod 86400)"
  obtain y yd where y: "locate years (nat day) = (y, yd)" by force
  obtain m md where m: "locate (month_lengths y) yd = (m, md)" by force
  note defs = show_time_def Let_def l_def [symmetric] secs_def [symmetric] ns_def [symmetric] day_def [symmetric] sd_def [symmetric]
  from assms have g: "0 \<le> day" "day < int (sum_list years)" "\<bar>z\<bar> < 1440"
    and s: "s = pad 4 y @ ''-'' @ pad 2 (m + 1) @ ''-'' @ pad 2 (md + 1) @ ''T'' @ pad 2 (sd div 3600) @ '':'' @
      pad 2 (sd div 60 mod 60) @ '':'' @ pad 2 (sd mod 60) @ show_fraction ns @ show_zone z"
    by (auto simp: defs y m split: if_splits simp del: pad.simps)
  from g have "nat day < sum_list years" by linarith
  note ly = locate_year [OF this y]
  note lm = locate_month [OF ly(2) m]
  have b: "sd < 86400" "ns < 10 ^ 9" by (simp_all add: sd_def ns_def nat_less_iff)
  have "int (day_of y (m + 1) (md + 1)) = day"
    using ly(3) lm(3) g(1) by (simp add: day_of_def)
  moreover have "int sd = secs mod 86400" "int ns = l mod 1000000000" by (simp_all add: sd_def ns_def)
  moreover have "secs div 86400 * 86400 + secs mod 86400 = secs" "secs * 1000000000 + l mod 1000000000 = l"
    by (simp_all add: secs_def)
  ultimately have "time_of y (m + 1) (md + 1) sd ns z = t"
    by (simp add: time_of_def day_def l_def)
  with parse_time_fields [OF ly(1) lm(1,2) b g(3)] s show ?thesis by simp
qed

section \<open>Decoding into Go values\<close>

text \<open>
  Keys are matched exactly or, failing that, up to case; U+017F and U+212A fold to S and K. An unknown key is
  ignored, a later value replaces an earlier one, and null leaves a field as it is (a slice becomes nil).
\<close>

definition upper :: "char \<Rightarrow> char" where
  "upper c = (if 97 \<le> byte_of c \<and> byte_of c \<le> 122 then char_of (byte_of c - 32) else c)"

function fold_name :: "string \<Rightarrow> string" where
  "fold_name [] = []"
| "fold_name (c # s) =
     (if take 2 (c # s) = encode_rune 383 then CHR ''S'' # fold_name (drop 1 s)
      else if take 3 (c # s) = encode_rune 8490 then CHR ''K'' # fold_name (drop 2 s)
      else upper c # fold_name s)"
  by pat_completeness auto
termination
  by (relation "measure length") auto

definition match_field :: "string list \<Rightarrow> string \<Rightarrow> string option" where
  "match_field names k =
     (if k \<in> set names then Some k else List.find (\<lambda>f. fold_name f = fold_name k) names)"

definition json_uint :: "nat \<Rightarrow> string \<Rightarrow> nat option" where
  "json_uint w l = (if list_all is_digit l \<and> read_nat l < 2 ^ w then Some (read_nat l) else None)"

text \<open>A byte slice may also be given as an array of numbers; null keeps the byte that was there.\<close>

fun array_bytes :: "byte list \<Rightarrow> json list \<Rightarrow> byte list option" where
  "array_bytes old [] = Some []"
| "array_bytes old (v # vs) =
     do {
       b \<leftarrow> (case v of
              JNull \<Rightarrow> Some (case old of [] \<Rightarrow> 0 | b # _ \<Rightarrow> b)
            | JNum l \<Rightarrow> map_option of_nat (json_uint 8 l)
            | _ \<Rightarrow> None);
       bs \<leftarrow> array_bytes (tl old) vs;
       Some (b # bs)
     }"

definition decode_string :: "string \<Rightarrow> json \<Rightarrow> string option" where
  "decode_string old v = (case v of JNull \<Rightarrow> Some old | JStr raw \<Rightarrow> Some (unquote raw) | _ \<Rightarrow> None)"

definition decode_uint64 :: "u64 \<Rightarrow> json \<Rightarrow> u64 option" where
  "decode_uint64 old v =
     (case v of JNull \<Rightarrow> Some old | JNum l \<Rightarrow> map_option of_nat (json_uint 64 l) | _ \<Rightarrow> None)"

definition decode_bytes :: "bytes \<Rightarrow> json \<Rightarrow> bytes option" where
  "decode_bytes old v =
     (case v of
        JNull \<Rightarrow> Some None
      | JStr raw \<Rightarrow> map_option (\<lambda>bs. Some (map of_nat bs)) (b64_decode (unquote raw))
      | JArr vs \<Rightarrow> map_option Some (array_bytes (case old of None \<Rightarrow> [] | Some bs \<Rightarrow> bs) vs)
      | _ \<Rightarrow> None)"

definition decode_time :: "time \<Rightarrow> json \<Rightarrow> time option" where
  "decode_time old v = (case v of JNull \<Rightarrow> Some old | JStr raw \<Rightarrow> parse_time raw | _ \<Rightarrow> None)"

definition decode_bool :: "bool \<Rightarrow> json \<Rightarrow> bool option" where
  "decode_bool old v = (case v of JNull \<Rightarrow> Some old | JBool b \<Rightarrow> Some b | _ \<Rightarrow> None)"

definition bytes_json :: "bytes \<Rightarrow> json" where
  "bytes_json b = (case b of None \<Rightarrow> JNull | Some bs \<Rightarrow> JStr (b64_encode (map unat bs)))"

section \<open>Plain text\<close>

text \<open>Texts the encoder writes without a quote or an escape.\<close>

definition plain_char :: "char \<Rightarrow> bool" where
  "plain_char c \<longleftrightarrow> 32 \<le> byte_of c \<and> byte_of c < 128 \<and> byte_of c \<notin> {34, 38, 60, 62, 92}"

definition plain :: "string \<Rightarrow> bool" where
  "plain s = list_all plain_char s"

lemma quote_plain_id: "plain s \<Longrightarrow> quote s = s"
  unfolding plain_def plain_char_def by (rule quote_plain)

lemma plain_simps [simp]:
  "plain []" "plain (s @ t) \<longleftrightarrow> plain s \<and> plain t" "plain (c # s) \<longleftrightarrow> plain_char c \<and> plain s"
  by (simp_all add: plain_def)

lemma plain_char_digit [simp]: "d < 10 \<Longrightarrow> plain_char (digit d)"
  by (simp add: plain_char_def byte_of_digit)

lemma plain_char_literals [simp]:
  "plain_char CHR ''-''" "plain_char CHR ''+''" "plain_char CHR '':''" "plain_char CHR ''.''" "plain_char CHR ''T''"
  "plain_char CHR ''Z''" "plain_char CHR ''=''" "plain_char CHR ''/''"
  by (simp_all add: plain_char_def byte_of_def)

lemma plain_pad [simp]: "plain (pad w n)"
  by (induction w arbitrary: n) simp_all

lemma plain_trim: "plain s \<Longrightarrow> plain (trim_zeros s)"
  using trim_zeros_append [of s] by (metis plain_simps(2))

lemma plain_zone: "plain (show_zone z)"
  by (simp add: show_zone_def del: pad.simps)

lemma plain_fraction: "plain (show_fraction ns)"
  using plain_trim [OF plain_pad] by (simp add: show_fraction_def del: pad.simps)

lemma plain_time: "show_time z t = Some s \<Longrightarrow> plain s"
  by (auto simp: show_time_def Let_def plain_zone plain_fraction split: if_splits prod.splits simp del: pad.simps)

lemma plain_b64_char: "i < 64 \<Longrightarrow> plain_char (b64_char i)"
  by (simp add: b64_char_def) (auto simp: plain_char_def)

lemma plain_b64: "list_all (\<lambda>b. b < 256) bs \<Longrightarrow> plain (b64_encode bs)"
proof (induction bs rule: b64_encode.induct)
  case (2 a)
  then show ?case using b64_digits [of a 0 0] plain_b64_char by simp
next
  case (3 a b)
  then show ?case using b64_digits [of a b 0] plain_b64_char by simp
next
  case (4 a b x r)
  then show ?case using b64_digits [of a b x] plain_b64_char by simp
qed simp

lemma unquote_plain: "plain s \<Longrightarrow> unquote s = s"
proof -
  assume p: "plain s"
  have "utf8_valid s" using p
    by (induction s) (simp_all add: utf8_valid.simps(2) rune_size_ascii plain_char_def)
  with unquote_quote [of s] quote_plain_id [OF p] show ?thesis by (simp add: sanitize_valid)
qed

section \<open>Reading back Go values\<close>

lemma list_all_bytes: "list_all (\<lambda>b. b < 256) (map unat (bs :: byte list))"
proof -
  have "unat b < 256" for b :: byte using unsigned_less [of b] by simp
  then show ?thesis by (simp add: list_all_iff)
qed

lemma decode_bytes_json: "decode_bytes old (bytes_json b) = Some b"
proof (cases b)
  case (Some bs)
  have "unquote (b64_encode (map unat bs)) = b64_encode (map unat bs)"
    by (rule unquote_plain [OF plain_b64 [OF list_all_bytes]])
  with Some b64_decode_encode [OF list_all_bytes, of bs] show ?thesis
    by (simp add: decode_bytes_def bytes_json_def comp_def)
qed (simp add: decode_bytes_def bytes_json_def)

lemma printable_bytes_json: "printable (bytes_json b)" "depth (bytes_json b) = 0"
proof -
  have "b64_encode (map unat bs) = quote (b64_encode (map unat bs))" for bs :: "byte list"
    by (rule quote_plain_id [OF plain_b64 [OF list_all_bytes], symmetric])
  then show "printable (bytes_json b)" by (auto simp: bytes_json_def split: option.split)
qed (simp add: bytes_json_def split: option.split)

lemma json_uint_show: "n < 2 ^ w \<Longrightarrow> json_uint w (show_nat n) = Some n"
  by (simp add: json_uint_def show_nat_digits)

end
