(* ===== verification/Wal_Json.thy ===== *)
theory Wal_Json
  imports Wal_Log Go_Encoding
begin

text \<open>
  The JSON form of a log entry, \<^verbatim>\<open>EntryToJSON\<close> and \<^verbatim>\<open>EntryFromJSON\<close> of \<^verbatim>\<open>src/internal/wal/wal.go\<close>, with the field
  names of the tags of \<^verbatim>\<open>Entry\<close>. A result is \<open>None\<close> when the function returns an error. A \<^verbatim>\<open>time.Time\<close> also has a
  zone, which the JSON text shows: it is an argument, as an offset from UTC in minutes.
\<close>

section \<open>Encoding\<close>

definition entry_members :: "string \<Rightarrow> Entry \<Rightarrow> (string \<times> json) list" where
  "entry_members timestamp e =
     [(''sequence'', JNum (show_nat (unat (Sequence e)))),
      (''task_id'', JStr (quote (TaskID e))),
      (''workflow_id'', JStr (quote (EntryWorkflowID e))),
      (''state'', JStr (quote (EntryState e))),
      (''data'', bytes_json (Data e)),
      (''timestamp'', JStr timestamp),
      (''committed'', JBool (Committed e))]"

definition EntryToJSON :: "int \<Rightarrow> Entry option \<Rightarrow> string option" where
  "EntryToJSON zone e =
     (case e of
        None \<Rightarrow> Some (print_json JNull)
      | Some e \<Rightarrow>
          do {
            timestamp \<leftarrow> show_time zone (Timestamp e);
            Some (print_json (JObj (entry_members timestamp e)))
          })"

section \<open>Decoding\<close>

definition entry_fields :: "string list" where
  "entry_fields = [''sequence'', ''task_id'', ''workflow_id'', ''state'', ''data'', ''timestamp'', ''committed'']"

definition set_field :: "string \<Rightarrow> json \<Rightarrow> Entry \<Rightarrow> Entry option" where
  "set_field k v e =
     (case match_field entry_fields k of
        None \<Rightarrow> Some e
      | Some f \<Rightarrow>
          if f = ''sequence'' then map_option (\<lambda>x. e\<lparr>Sequence := x\<rparr>) (decode_uint64 (Sequence e) v)
          else if f = ''task_id'' then map_option (\<lambda>x. e\<lparr>TaskID := x\<rparr>) (decode_string (TaskID e) v)
          else if f = ''workflow_id''
          then map_option (\<lambda>x. e\<lparr>EntryWorkflowID := x\<rparr>) (decode_string (EntryWorkflowID e) v)
          else if f = ''state'' then map_option (\<lambda>x. e\<lparr>EntryState := x\<rparr>) (decode_string (EntryState e) v)
          else if f = ''data'' then map_option (\<lambda>x. e\<lparr>Data := x\<rparr>) (decode_bytes (Data e) v)
          else if f = ''timestamp'' then map_option (\<lambda>x. e\<lparr>Timestamp := x\<rparr>) (decode_time (Timestamp e) v)
          else map_option (\<lambda>x. e\<lparr>Committed := x\<rparr>) (decode_bool (Committed e) v))"

fun set_fields :: "(string \<times> json) list \<Rightarrow> Entry \<Rightarrow> Entry option" where
  "set_fields [] e = Some e"
| "set_fields ((k, v) # ms) e = do { e \<leftarrow> set_field (unquote k) v e; set_fields ms e }"

definition zero_entry :: Entry where
  "zero_entry = \<lparr>Sequence = 0, TaskID = [], EntryWorkflowID = [], EntryState = [], Data = None,
     Timestamp = zero_time, Committed = False\<rparr>"

definition EntryFromJSON :: "string \<Rightarrow> Entry option" where
  "EntryFromJSON data =
     do {
       v \<leftarrow> parse_json data;
       case v of JNull \<Rightarrow> Some zero_entry | JObj ms \<Rightarrow> set_fields ms zero_entry | _ \<Rightarrow> None
     }"

section \<open>Round trip\<close>

lemma plain_names: "list_all plain entry_fields"
  by (simp add: entry_fields_def plain_char_def byte_of_def)

lemma entry_names:
  "f \<in> set entry_fields \<Longrightarrow> quote f = f" "f \<in> set entry_fields \<Longrightarrow> unquote f = f"
  using plain_names by (simp_all add: list_all_iff quote_plain_id unquote_plain)

lemma set_field_exact:
  "set_field ''sequence'' v e = map_option (\<lambda>x. e\<lparr>Sequence := x\<rparr>) (decode_uint64 (Sequence e) v)"
  "set_field ''task_id'' v e = map_option (\<lambda>x. e\<lparr>TaskID := x\<rparr>) (decode_string (TaskID e) v)"
  "set_field ''workflow_id'' v e = map_option (\<lambda>x. e\<lparr>EntryWorkflowID := x\<rparr>) (decode_string (EntryWorkflowID e) v)"
  "set_field ''state'' v e = map_option (\<lambda>x. e\<lparr>EntryState := x\<rparr>) (decode_string (EntryState e) v)"
  "set_field ''data'' v e = map_option (\<lambda>x. e\<lparr>Data := x\<rparr>) (decode_bytes (Data e) v)"
  "set_field ''timestamp'' v e = map_option (\<lambda>x. e\<lparr>Timestamp := x\<rparr>) (decode_time (Timestamp e) v)"
  "set_field ''committed'' v e = map_option (\<lambda>x. e\<lparr>Committed := x\<rparr>) (decode_bool (Committed e) v)"
  by (simp_all add: set_field_def match_field_def entry_fields_def)

definition sanitize_entry :: "Entry \<Rightarrow> Entry" where
  "sanitize_entry e = e\<lparr>TaskID := sanitize (TaskID e), EntryWorkflowID := sanitize (EntryWorkflowID e),
     EntryState := sanitize (EntryState e)\<rparr>"

lemma printable_entry:
  assumes "plain ts"
  shows "printable (JObj (entry_members ts e))" "depth (JObj (entry_members ts e)) \<le> max_depth"
proof -
  have "\<exists>s. f = quote s" if "f \<in> set entry_fields" for f using entry_names(1) [OF that] by metis
  moreover have "\<exists>s. ts = quote s" using quote_plain_id [OF assms] by metis
  ultimately show "printable (JObj (entry_members ts e))"
    using printable_bytes_json(1) by (auto simp: entry_members_def entry_fields_def)
  show "depth (JObj (entry_members ts e)) \<le> max_depth"
    by (simp add: entry_members_def printable_bytes_json max_depth_def)
qed

lemma set_fields_entry:
  assumes "parse_time ts = Some (Timestamp e)"
  shows "set_fields (entry_members ts e) e0 = Some (sanitize_entry e)"
proof -
  have "unat (Sequence e) < 2 ^ 64" using unsigned_less [of "Sequence e"] by simp
  then have "decode_uint64 x (JNum (show_nat (unat (Sequence e)))) = Some (Sequence e)" for x
    by (simp add: decode_uint64_def json_uint_show)
  moreover have "decode_string x (JStr (quote s)) = Some (sanitize s)" for x s
    by (simp add: decode_string_def unquote_quote)
  moreover have "decode_time x (JStr ts) = Some (Timestamp e)" for x by (simp add: decode_time_def assms)
  ultimately show ?thesis
    using entry_names(2)
    by (simp add: entry_members_def entry_fields_def set_field_exact decode_bytes_json decode_bool_def sanitize_entry_def)
qed

lemma EntryFromJSON_ToJSON:
  assumes "EntryToJSON z (Some e) = Some js"
  shows "EntryFromJSON js = Some (sanitize_entry e)"
proof -
  from assms obtain ts where ts: "show_time z (Timestamp e) = Some ts"
    and js: "js = print_json (JObj (entry_members ts e))"
    by (auto simp: EntryToJSON_def split: Option.bind_splits)
  from parse_json_print [OF printable_entry [OF plain_time [OF ts]]] set_fields_entry [OF parse_time_show [OF ts]] show ?thesis
    unfolding js EntryFromJSON_def by simp
qed

text \<open>The years 0 to 9999, in seconds since the epoch.\<close>

lemma show_time_range:
  assumes "\<bar>z\<bar> < 1440" and "- 62167219200 \<le> (t + z * 60000000000) div 1000000000"
    and "(t + z * 60000000000) div 1000000000 < 253402300800"
  shows "\<exists>s. show_time z t = Some s"
proof -
  define secs where "secs = (t + z * 60000000000) div 1000000000"
  have "- 719528 \<le> secs div 86400" "secs div 86400 < 2932897"
    using assms(2,3) unfolding secs_def [symmetric] by linarith+
  with assms(1) show ?thesis
    by (simp add: show_time_def Let_def years_sum epoch_day_def case_prod_beta flip: secs_def del: pad.simps)
qed

section \<open>Property of the JSON form\<close>

text \<open>C16: a log entry survives its JSON form: for a time stamp whose year in its zone is between 0 and 9999 the encoder
  succeeds, and decoding its text gives the entry back, time stamp, payload and nil payload included, in
  whatever zone it was written. Only bytes of the three strings that are no UTF-8 are replaced by U+FFFD.\<close>
theorem entry_json_roundtrip:
  assumes "\<bar>z\<bar> < 1440" and "- 62167219200 \<le> (Timestamp e + z * 60000000000) div 1000000000"
    and "(Timestamp e + z * 60000000000) div 1000000000 < 253402300800"
  shows "\<exists>js. EntryToJSON z (Some e) = Some js \<and>
    EntryFromJSON js = Some (e\<lparr>TaskID := sanitize (TaskID e), EntryWorkflowID := sanitize (EntryWorkflowID e),
      EntryState := sanitize (EntryState e)\<rparr>) \<and>
    (utf8_valid (TaskID e) \<and> utf8_valid (EntryWorkflowID e) \<and> utf8_valid (EntryState e) \<longrightarrow> EntryFromJSON js = Some e)"
proof -
  from show_time_range [OF assms] obtain ts where "show_time z (Timestamp e) = Some ts" by blast
  then obtain js where js: "EntryToJSON z (Some e) = Some js" by (simp add: EntryToJSON_def)
  from EntryFromJSON_ToJSON [OF js] js show ?thesis by (auto simp: sanitize_entry_def sanitize_valid)
qed

definition sample_entry :: Entry where
  "sample_entry = \<lparr>Sequence = 7, TaskID = ''wf-1'', EntryWorkflowID = ''wf'', EntryState = ''PENDING'', Data = Some [1, 255],
     Timestamp = 1700000000123456789, Committed = False\<rparr>"

theorem entry_json_roundtrip_witness:
  "\<exists>js. EntryToJSON 330 (Some sample_entry) = Some js \<and> EntryFromJSON js = Some sample_entry"
proof -
  have "utf8_valid ''wf-1''" "utf8_valid ''wf''" "utf8_valid ''PENDING''"
    by (simp_all add: utf8_valid.simps(2) rune_size_ascii byte_of_def)
  with entry_json_roundtrip [of 330 sample_entry] show ?thesis by (auto simp: sample_entry_def)
qed

end
