(* ===== verification/Rest_Api.thy ===== *)
theory Rest_Api
  imports Gateway_Server Go_Encoding "HOL-Library.List_Lexorder" "HOL-Library.Char_ord"
begin

text \<open>
  The REST API of the gateway as text: how \<^verbatim>\<open>StartWorkflow\<close> decodes its request body and how \<^verbatim>\<open>writeJSON\<close>
  encodes its answer (\<^verbatim>\<open>src/cmd/gateway/http_handler.go\<close>), over the JSON of \<open>Go_Json\<close> and the handlers of \<open>Gateway_Server\<close>.
\<close>

section \<open>Request bodies\<close>

text \<open>
  A value of the input object is stored as \<^verbatim>\<open>interface{}\<close>: every JSON value can be, except a number beyond the
  range of \<^verbatim>\<open>float64\<close>, that is, of at least \<open>2 ^ 1024 - 2 ^ 970\<close>.
\<close>

definition digits_of :: "string \<Rightarrow> string" where
  "digits_of s = takeWhile is_digit s"

definition number_parts :: "string \<Rightarrow> nat \<times> int" where
  "number_parts l =
     (let l = snd (scan_sign ''-'' l);
          i = digits_of l;
          l = drop (length i) l;
          f = (if take 1 l = ''.'' then digits_of (drop 1 l) else []);
          l = (if take 1 l = ''.'' then drop (Suc (length f)) l else l);
          (sg, ds) = scan_sign ''+-'' (drop 1 l);
          e = (if l = [] then 0 else if sg = ''-'' then - int (read_nat ds) else int (read_nat ds))
      in (read_nat (i @ f), e - int (length f)))"

definition float_range :: "string \<Rightarrow> bool" where
  "float_range l =
     (let (m, e) = number_parts l; bound = 2 ^ 1024 - 2 ^ 970 in
      if 0 \<le> e then m * 10 ^ nat e < bound else m < bound * 10 ^ nat (- e))"

fun any_value :: "json \<Rightarrow> bool" where
  "any_value (JNum l) = float_range l"
| "any_value (JArr vs) = (\<forall>v \<in> set vs. any_value v)"
| "any_value (JObj ms) = (\<forall>(k, v) \<in> set ms. any_value v)"
| "any_value _ = True"

definition decode_any_map :: "(string \<rightharpoonup> json) \<Rightarrow> json \<Rightarrow> (string \<rightharpoonup> json) option" where
  "decode_any_map old v =
     (case v of
        JNull \<Rightarrow> Some Map.empty
      | JObj ms \<Rightarrow> if any_value v then Some (old ++ map_of (rev (map (map_prod unquote id) ms))) else None
      | _ \<Rightarrow> None)"

definition start_fields :: "string list" where
  "start_fields = [''workflow_name'', ''input'']"

definition set_start_field ::
    "string \<Rightarrow> json \<Rightarrow> json StartWorkflowRequest \<Rightarrow> json StartWorkflowRequest option" where
  "set_start_field k v r =
     (case match_field start_fields k of
        None \<Rightarrow> Some r
      | Some f \<Rightarrow>
          if f = ''workflow_name'' then map_option (\<lambda>x. r\<lparr>WorkflowName := x\<rparr>) (decode_string (WorkflowName r) v)
          else map_option (\<lambda>x. r\<lparr>Input := x\<rparr>) (decode_any_map (Input r) v))"

fun set_start_fields :: "(string \<times> json) list \<Rightarrow> json StartWorkflowRequest \<Rightarrow> json StartWorkflowRequest option" where
  "set_start_fields [] r = Some r"
| "set_start_fields ((k, v) # ms) r = do { r \<leftarrow> set_start_field (unquote k) v r; set_start_fields ms r }"

text \<open>\<^verbatim>\<open>json.NewDecoder(r.Body).Decode(&req)\<close>: the first value of the body; what follows is not read.\<close>

definition decode_start :: "string \<Rightarrow> json StartWorkflowRequest option" where
  "decode_start request =
     do {
       (v, r) \<leftarrow> first_value request;
       case v of
         JNull \<Rightarrow> Some \<lparr>WorkflowName = [], Input = Map.empty\<rparr>
       | JObj ms \<Rightarrow> set_start_fields ms \<lparr>WorkflowName = [], Input = Map.empty\<rparr>
       | _ \<Rightarrow> None
     }"

section \<open>Response bodies\<close>

text \<open>A map is encoded with its keys in order.\<close>

definition body_json :: "Body \<Rightarrow> json" where
  "body_json b =
     (case b of
        ErrorResponse e \<Rightarrow> JObj [(''error'', JStr (quote e))]
      | StartResponse r \<Rightarrow>
          JObj [(''workflow_id'', JStr (quote (StartedWorkflowID r))), (''status'', JStr (quote (StartedStatus r))),
                (''message'', JStr (quote (StartedMessage r)))]
      | StatusResponse r \<Rightarrow>
          JObj [(''workflow_id'', JStr (quote (StatusWorkflowID r))), (''status'', JStr (quote (WorkflowStatus r)))]
      | HealthResponse m \<Rightarrow>
          JObj (map (\<lambda>k. (quote k, JStr (quote (the (m k))))) (sorted_list_of_set (dom m))))"

definition response_text :: "Response \<Rightarrow> string" where
  "response_text r = print_json (body_json (body r)) @ [CHR 0x0A]"

definition http_serve :: "bool \<Rightarrow> string \<Rightarrow> string \<Rightarrow> (nat \<times> string) outcome option" where
  "http_serve swaggerEnabled path request =
     map_option (\<lambda>out. case out of Panic m \<Rightarrow> Panic m | Return r \<Rightarrow> Return (code r, response_text r))
       (serve swaggerEnabled path (decode_start request))"

section \<open>Reading responses and requests back\<close>

lemma plain_response_names:
  "plain ''error''" "plain ''workflow_id''" "plain ''status''" "plain ''message''" "plain ''workflow_name''" "plain ''input''"
  by (simp_all add: plain_char_def byte_of_def)

lemma printable_body: "printable (body_json b)" "depth (body_json b) \<le> max_depth"
proof -
  have "\<exists>s. k = quote s" if "plain k" for k using quote_plain_id [OF that] by metis
  then show "printable (body_json b)"
    using plain_response_names by (auto simp: body_json_def split: Body.split)
  have "Max (insert 0 (set (map (\<lambda>(k, v). depth v) (map (\<lambda>k. (quote k, JStr (f k))) ks)))) = 0" for f :: "string \<Rightarrow> string" and ks
    by (induction ks) auto
  then show "depth (body_json b) \<le> max_depth"
    by (auto simp: body_json_def max_depth_def comp_def split: Body.split)
qed

lemma skip_newline: "skip [CHR 0x0A] = []"
  by (simp add: skip_def is_space_def byte_of_def)

lemma parse_response: "parse_json (response_text r) = Some (body_json (body r))"
proof -
  have "number_end [CHR 0x0A]" by (simp add: number_end_def is_digit_def byte_of_def)
  with read_backD [OF parse_print [OF printable_body(1), of 0], of "body r" "2 * length (response_text r) + 2" "[CHR 0x0A]"]
    printable_body(2)
  show ?thesis
    by (simp add: parse_json_def first_value_def response_text_def skip_newline)
qed

end
