(* ===== verification/Configuration.thy ===== *)
theory Configuration
  imports Go_Prelude
begin

text \<open>
  Configuration from environment variables, \<^verbatim>\<open>src/internal/config/config.go\<close>, with the two
  parsers of \<^verbatim>\<open>strconv\<close> it uses. The environment is a map; a variable that is set to the empty
  string is set.
\<close>

section \<open>strconv\<close>

definition split_sign :: "string \<Rightarrow> bool \<times> string" where
  "split_sign s =
     (case s of
        [] \<Rightarrow> (False, [])
      | c # cs \<Rightarrow> if c = CHR ''-'' then (True, cs) else if c = CHR ''+'' then (False, cs) else (False, s))"

text \<open>\<open>None\<close> is a syntax or a range error: the caller only tests for an error.\<close>

definition Atoi :: "string \<Rightarrow> goint option" where
  "Atoi s =
     (let (neg, ds) = split_sign s in
      if ds = [] \<or> \<not> list_all is_digit ds then None
      else
        let n = int (read_nat ds) in
        if neg then (if n \<le> 2 ^ 63 then Some (of_int (- n)) else None)
        else (if n < 2 ^ 63 then Some (of_int n) else None))"

definition ParseBool :: "string \<Rightarrow> bool option" where
  "ParseBool s =
     (if s \<in> {''1'', ''t'', ''T'', ''true'', ''TRUE'', ''True''} then Some True
      else if s \<in> {''0'', ''f'', ''F'', ''false'', ''FALSE'', ''False''} then Some False
      else None)"

section \<open>Config\<close>

type_synonym environment = "string \<rightharpoonup> string"

record Config =
  GatewayPort :: goint
  OrchestratorPort :: goint
  OrchestratorAddr :: string
  LogLevel :: string
  Environment :: string
  SwaggerEnabled :: bool

definition getEnv :: "environment \<Rightarrow> string \<Rightarrow> string \<Rightarrow> string" where
  "getEnv env key defaultVal = (case env key of Some val \<Rightarrow> val | None \<Rightarrow> defaultVal)"

definition getEnvInt :: "environment \<Rightarrow> string \<Rightarrow> goint \<Rightarrow> goint" where
  "getEnvInt env key defaultVal =
     (case env key of
        Some val \<Rightarrow> (case Atoi val of Some intVal \<Rightarrow> intVal | None \<Rightarrow> defaultVal)
      | None \<Rightarrow> defaultVal)"

definition getEnvBool :: "environment \<Rightarrow> string \<Rightarrow> bool \<Rightarrow> bool" where
  "getEnvBool env key defaultVal =
     (case env key of
        Some val \<Rightarrow> (case ParseBool val of Some boolVal \<Rightarrow> boolVal | None \<Rightarrow> defaultVal)
      | None \<Rightarrow> defaultVal)"

definition Load :: "environment \<Rightarrow> Config" where
  "Load envm =
     (let env = getEnv envm ''ORTRIX_ENVIRONMENT'' ''development'' in
      \<lparr>GatewayPort = getEnvInt envm ''ORTRIX_GATEWAY_PORT'' 8080,
       OrchestratorPort = getEnvInt envm ''ORTRIX_ORCHESTRATOR_PORT'' 9090,
       OrchestratorAddr = getEnv envm ''ORTRIX_ORCHESTRATOR_ADDR'' ''localhost:9090'',
       LogLevel = getEnv envm ''ORTRIX_LOG_LEVEL'' ''debug'',
       Environment = env,
       SwaggerEnabled = getEnvBool envm ''ORTRIX_SWAGGER_ENABLED'' (env = ''development'')\<rparr>)"

section \<open>Parsing what was printed\<close>

lemma split_sign_show_nat [simp]: "split_sign (show_nat n) = (False, show_nat n)"
proof -
  obtain c cs where c: "show_nat n = c # cs" by (cases "show_nat n") auto
  with show_nat_digits [of n] have "is_digit c" by simp
  then have "c \<noteq> CHR ''-''" "c \<noteq> CHR ''+''" by (auto simp: is_digit_def byte_of_def)
  with c show ?thesis by (simp add: split_sign_def)
qed

lemma Atoi_show_int:
  assumes "- (2 ^ 63) \<le> i" and "i < 2 ^ 63"
  shows "Atoi (show_int i) = Some (of_int i)"
proof (cases "i < 0")
  case True
  have "split_sign (show_int i) = (True, show_nat (nat (- i)))" using True by (simp add: show_int_def split_sign_def)
  with True assms show ?thesis by (simp add: Atoi_def show_nat_digits)
next
  case False
  with assms show ?thesis by (simp add: Atoi_def show_int_def show_nat_digits)
qed

section \<open>Properties of the configuration\<close>

text \<open>A port written in decimal into the environment is the port the service gets, for every 64-bit value;
  with no value, or with one that is not a decimal number in range, it gets the default.\<close>
lemma port_roundtrip:
  assumes "- (2 ^ 63) \<le> i" and "i < 2 ^ 63" and "\<forall>v. envm ''ORTRIX_ORCHESTRATOR_PORT'' = Some v \<longrightarrow> Atoi v = None"
  shows "sint (GatewayPort (Load (envm(''ORTRIX_GATEWAY_PORT'' \<mapsto> show_int i)))) = i \<and>
    OrchestratorPort (Load (envm(''ORTRIX_GATEWAY_PORT'' \<mapsto> show_int i))) = 9090"
proof -
  have "sint (of_int i :: goint) = i"
    using assms(1,2) by (simp add: signed_of_int signed_take_bit_int_eq_self)
  then show ?thesis
    using assms(3) Atoi_show_int [OF assms(1,2)]
    by (auto simp: Load_def Let_def getEnvInt_def split: option.split)
qed

end
