(* ===== verification/Server_Processes.thy ===== *)
theory Server_Processes
  imports Configuration Gateway_Server
begin

text \<open>
  The two server processes, \<^verbatim>\<open>src/cmd/gateway/main.go\<close> and \<^verbatim>\<open>src/cmd/orchestrator/main.go\<close>, from the
  configuration to the exit, and the logger they build (\<^verbatim>\<open>src/internal/logging/logging.go\<close>).

  A process is a step relation on the positions of its goroutines. The gRPC server is code of
  another package, and a parameter: with how many calls in flight \<^verbatim>\<open>GracefulStop\<close> may return, with how many
  \<^verbatim>\<open>Serve\<close> may return nil once a stop was requested, and what \<^verbatim>\<open>Serve\<close> returns when it is called on a server
  that is already stopped. That a graceful stop waits for the calls in flight, and that \<^verbatim>\<open>Serve\<close> then
  returns nil, is documented (\<open>graceful\<close>); that \<^verbatim>\<open>Serve\<close> itself waits for them is not, and is a hypothesis of
  its own (\<open>serve_waits\<close>). The levels of logrus and its parser are parameters too. A signal that
  arrives before \<^verbatim>\<open>signal.Notify\<close> is called ends the process by its default action and is left out.
\<close>

section \<open>Logger\<close>

record 'l LoggerConfig =
  LogOutput :: string
  TimestampFormat :: string
  Level :: 'l

definition NewLogger :: "(string \<Rightarrow> 'l result) \<Rightarrow> 'l \<Rightarrow> string \<Rightarrow> 'l LoggerConfig" where
  "NewLogger ParseLevel DebugLevel level =
     (let parsed = (case ParseLevel level of Inl err \<Rightarrow> DebugLevel | Inr l \<Rightarrow> l)
      in \<lparr>LogOutput = ''stdout'', TimestampFormat = ''2006-01-02T15:04:05.000Z07:00'', Level = parsed\<rparr>)"

section \<open>Addresses\<close>

definition port_addr :: "goint \<Rightarrow> string" where
  "port_addr port = CHR '':'' # show_int (sint port)"

definition gateway_addrs :: "environment \<Rightarrow> string \<times> string" where
  "gateway_addrs env =
     (let cfg = Load env in (port_addr (GatewayPort cfg), port_addr (http_port (GatewayPort cfg))))"

definition orchestrator_addr :: "environment \<Rightarrow> string" where
  "orchestrator_addr env = port_addr (OrchestratorPort (Load env))"

section \<open>The gateway process\<close>

record GrpcServer =
  stop_returns :: "nat \<Rightarrow> bool"
  serve_returns_nil :: "nat \<Rightarrow> bool"
  serve_after_stop :: "error option"

datatype main_pc = Listening | Registered | HttpStarted | Ready | Serving | MainDone
datatype signal_pc = NotStarted | WaitSignal | GracefulStopping | HttpStopping | SignalDone
datatype http_pc = HttpOff | HttpServing | HttpClosed

record GatewayProcess =
  main_at :: main_pc
  signal_at :: signal_pc
  http_at :: http_pc
  quit :: bool
  rpcs :: nat
  requests :: nat
  exit_status :: "nat option"

definition gateway_start :: GatewayProcess where
  "gateway_start =
     \<lparr>main_at = Listening, signal_at = NotStarted, http_at = HttpOff, quit = False, rpcs = 0, requests = 0,
      exit_status = None\<rparr>"

text \<open>
  \<^verbatim>\<open>logger.Fatal\<close> ends the process with status 1, the return of \<^verbatim>\<open>main\<close> with status 0, in both cases whatever
  the other goroutines are doing. \<^verbatim>\<open>Shutdown\<close> makes \<^verbatim>\<open>ListenAndServe\<close> return \<^verbatim>\<open>ErrServerClosed\<close> at once and then
  waits for the requests in flight.
\<close>

inductive gateway_step :: "GrpcServer \<Rightarrow> GatewayProcess \<Rightarrow> GatewayProcess \<Rightarrow> bool"
  for srv where
  listen_fails: "exit_status p = None \<Longrightarrow> main_at p = Listening \<Longrightarrow>
    gateway_step srv p (p\<lparr>exit_status := Some 1\<rparr>)"
| listen_ok: "exit_status p = None \<Longrightarrow> main_at p = Listening \<Longrightarrow>
    gateway_step srv p (p\<lparr>main_at := Registered\<rparr>)"
| go_http: "exit_status p = None \<Longrightarrow> main_at p = Registered \<Longrightarrow>
    gateway_step srv p (p\<lparr>main_at := HttpStarted, http_at := HttpServing\<rparr>)"
| go_signal: "exit_status p = None \<Longrightarrow> main_at p = HttpStarted \<Longrightarrow>
    gateway_step srv p (p\<lparr>main_at := Ready, signal_at := WaitSignal\<rparr>)"
| serve_entered: "exit_status p = None \<Longrightarrow> main_at p = Ready \<Longrightarrow> \<not> quit p \<Longrightarrow>
    gateway_step srv p (p\<lparr>main_at := Serving\<rparr>)"
| serve_too_late: "exit_status p = None \<Longrightarrow> main_at p = Ready \<Longrightarrow> quit p \<Longrightarrow>
    gateway_step srv p (p\<lparr>main_at := MainDone,
      exit_status := Some (case serve_after_stop srv of Some err \<Rightarrow> 1 | None \<Rightarrow> 0)\<rparr>)"
| http_fails: "exit_status p = None \<Longrightarrow> http_at p = HttpServing \<Longrightarrow>
    gateway_step srv p (p\<lparr>exit_status := Some 1\<rparr>)"
| http_closed: "exit_status p = None \<Longrightarrow> http_at p = HttpServing \<Longrightarrow> signal_at p = HttpStopping \<Longrightarrow>
    gateway_step srv p (p\<lparr>http_at := HttpClosed\<rparr>)"
| rpc_begins: "exit_status p = None \<Longrightarrow> main_at p = Serving \<Longrightarrow> \<not> quit p \<Longrightarrow>
    gateway_step srv p (p\<lparr>rpcs := Suc (rpcs p)\<rparr>)"
| rpc_ends: "exit_status p = None \<Longrightarrow> rpcs p = Suc n \<Longrightarrow> gateway_step srv p (p\<lparr>rpcs := n\<rparr>)"
| request_begins: "exit_status p = None \<Longrightarrow> http_at p = HttpServing \<Longrightarrow>
    gateway_step srv p (p\<lparr>requests := Suc (requests p)\<rparr>)"
| request_ends: "exit_status p = None \<Longrightarrow> requests p = Suc n \<Longrightarrow> gateway_step srv p (p\<lparr>requests := n\<rparr>)"
| signal_received: "exit_status p = None \<Longrightarrow> signal_at p = WaitSignal \<Longrightarrow>
    gateway_step srv p (p\<lparr>signal_at := GracefulStopping, quit := True\<rparr>)"
| graceful_returns: "exit_status p = None \<Longrightarrow> signal_at p = GracefulStopping \<Longrightarrow> stop_returns srv (rpcs p) \<Longrightarrow>
    gateway_step srv p (p\<lparr>signal_at := HttpStopping\<rparr>)"
| shutdown_returns: "exit_status p = None \<Longrightarrow> signal_at p = HttpStopping \<Longrightarrow> requests p = 0 \<Longrightarrow>
    gateway_step srv p (p\<lparr>signal_at := SignalDone\<rparr>)"
| serve_fails: "exit_status p = None \<Longrightarrow> main_at p = Serving \<Longrightarrow> \<not> quit p \<Longrightarrow>
    gateway_step srv p (p\<lparr>exit_status := Some 1\<rparr>)"
| serve_returns: "exit_status p = None \<Longrightarrow> main_at p = Serving \<Longrightarrow> quit p \<Longrightarrow> serve_returns_nil srv (rpcs p) \<Longrightarrow>
    gateway_step srv p (p\<lparr>main_at := MainDone, exit_status := Some 0\<rparr>)"

section \<open>The orchestrator process\<close>

record OrchestratorProcess =
  omain_at :: main_pc
  osignal_at :: signal_pc
  oquit :: bool
  streams :: nat
  oexit :: "nat option"

definition orchestrator_start :: OrchestratorProcess where
  "orchestrator_start =
     \<lparr>omain_at = Listening, osignal_at = NotStarted, oquit = False, streams = 0, oexit = None\<rparr>"

inductive orchestrator_step :: "GrpcServer \<Rightarrow> OrchestratorProcess \<Rightarrow> OrchestratorProcess \<Rightarrow> bool"
  for srv where
  listen_fails: "oexit p = None \<Longrightarrow> omain_at p = Listening \<Longrightarrow>
    orchestrator_step srv p (p\<lparr>oexit := Some 1\<rparr>)"
| listen_ok: "oexit p = None \<Longrightarrow> omain_at p = Listening \<Longrightarrow>
    orchestrator_step srv p (p\<lparr>omain_at := Registered\<rparr>)"
| go_signal: "oexit p = None \<Longrightarrow> omain_at p = Registered \<Longrightarrow>
    orchestrator_step srv p (p\<lparr>omain_at := Ready, osignal_at := WaitSignal\<rparr>)"
| serve_entered: "oexit p = None \<Longrightarrow> omain_at p = Ready \<Longrightarrow> \<not> oquit p \<Longrightarrow>
    orchestrator_step srv p (p\<lparr>omain_at := Serving\<rparr>)"
| serve_too_late: "oexit p = None \<Longrightarrow> omain_at p = Ready \<Longrightarrow> oquit p \<Longrightarrow>
    orchestrator_step srv p (p\<lparr>omain_at := MainDone,
      oexit := Some (case serve_after_stop srv of Some err \<Rightarrow> 1 | None \<Rightarrow> 0)\<rparr>)"
| stream_begins: "oexit p = None \<Longrightarrow> omain_at p = Serving \<Longrightarrow> \<not> oquit p \<Longrightarrow>
    orchestrator_step srv p (p\<lparr>streams := Suc (streams p)\<rparr>)"
| stream_ends: "oexit p = None \<Longrightarrow> streams p = Suc n \<Longrightarrow> orchestrator_step srv p (p\<lparr>streams := n\<rparr>)"
| signal_received: "oexit p = None \<Longrightarrow> osignal_at p = WaitSignal \<Longrightarrow>
    orchestrator_step srv p (p\<lparr>osignal_at := GracefulStopping, oquit := True\<rparr>)"
| graceful_returns: "oexit p = None \<Longrightarrow> osignal_at p = GracefulStopping \<Longrightarrow> stop_returns srv (streams p) \<Longrightarrow>
    orchestrator_step srv p (p\<lparr>osignal_at := SignalDone\<rparr>)"
| serve_fails: "oexit p = None \<Longrightarrow> omain_at p = Serving \<Longrightarrow> \<not> oquit p \<Longrightarrow>
    orchestrator_step srv p (p\<lparr>oexit := Some 1\<rparr>)"
| serve_returns: "oexit p = None \<Longrightarrow> omain_at p = Serving \<Longrightarrow> oquit p \<Longrightarrow> serve_returns_nil srv (streams p) \<Longrightarrow>
    orchestrator_step srv p (p\<lparr>omain_at := MainDone, oexit := Some 0\<rparr>)"

section \<open>Shutdown\<close>

definition graceful :: "GrpcServer \<Rightarrow> bool" where
  "graceful srv \<longleftrightarrow> (\<forall>n. stop_returns srv n \<longleftrightarrow> n = 0) \<and> serve_returns_nil srv 0"

definition serve_waits :: "GrpcServer \<Rightarrow> bool" where
  "serve_waits srv \<longleftrightarrow> (\<forall>n. serve_returns_nil srv n \<longrightarrow> n = 0)"

definition gateway_inv :: "GatewayProcess \<Rightarrow> bool" where
  "gateway_inv p \<longleftrightarrow>
     (exit_status p = Some 0 \<longrightarrow> main_at p = MainDone \<and> quit p \<and> rpcs p = 0) \<and>
     (signal_at p \<in> {HttpStopping, SignalDone} \<longrightarrow> quit p \<and> rpcs p = 0) \<and>
     (main_at p \<in> {Listening, Registered, HttpStarted} \<longrightarrow> signal_at p = NotStarted) \<and>
     (main_at p \<in> {Listening, Registered, HttpStarted, Ready} \<longrightarrow> rpcs p = 0) \<and>
     (quit p \<longleftrightarrow> signal_at p \<in> {GracefulStopping, HttpStopping, SignalDone})"

lemma gateway_inv_step:
  assumes "graceful srv" and "serve_waits srv" and "gateway_step srv p p'" and "gateway_inv p"
  shows "gateway_inv p'"
  using assms(3)
proof (cases rule: gateway_step.cases)
  case graceful_returns
  then have "rpcs p = 0" using assms(1) by (simp add: graceful_def)
  with graceful_returns assms(4) show ?thesis by (simp add: gateway_inv_def)
next
  case serve_returns
  then have "rpcs p = 0" using assms(2) by (simp add: serve_waits_def)
  with serve_returns assms(4) show ?thesis by (simp add: gateway_inv_def)
next
  case (rpc_ends n)
  with assms(4) show ?thesis by (auto simp: gateway_inv_def)
qed (use assms(4) in \<open>simp_all add: gateway_inv_def\<close>)

lemma gateway_reach_inv:
  assumes "(gateway_step srv)\<^sup>*\<^sup>* gateway_start p" and "graceful srv" and "serve_waits srv"
  shows "gateway_inv p"
  using assms(1)
proof (induction rule: rtranclp_induct)
  case base
  then show ?case by (simp add: gateway_inv_def gateway_start_def)
next
  case (step y z)
  then show ?case using gateway_inv_step [OF assms(2,3)] by blast
qed

text \<open>The run in which \<^verbatim>\<open>main\<close> returns before the HTTP server is shut down.\<close>

definition gateway_serving :: "nat \<Rightarrow> GatewayProcess" where
  "gateway_serving n =
     gateway_start\<lparr>main_at := Serving, signal_at := WaitSignal, http_at := HttpServing, requests := n\<rparr>"

lemma gateway_reaches_serving: "(gateway_step srv)\<^sup>*\<^sup>* gateway_start (gateway_serving 0)"
proof -
  let ?p1 = "gateway_start\<lparr>main_at := Registered\<rparr>"
  let ?p2 = "?p1\<lparr>main_at := HttpStarted, http_at := HttpServing\<rparr>"
  let ?p3 = "?p2\<lparr>main_at := Ready, signal_at := WaitSignal\<rparr>"
  have "gateway_step srv gateway_start ?p1"
    by (rule gateway_step.listen_ok) (simp_all add: gateway_start_def)
  moreover have "gateway_step srv ?p1 ?p2"
    by (rule gateway_step.go_http) (simp_all add: gateway_start_def)
  moreover have "gateway_step srv ?p2 ?p3"
    by (rule gateway_step.go_signal) (simp_all add: gateway_start_def)
  moreover have "gateway_step srv ?p3 (?p3\<lparr>main_at := Serving\<rparr>)"
    by (rule gateway_step.serve_entered) (simp_all add: gateway_start_def)
  moreover have "?p3\<lparr>main_at := Serving\<rparr> = gateway_serving 0"
    by (simp add: gateway_serving_def gateway_start_def)
  ultimately show ?thesis by (metis rtranclp.rtrancl_into_rtrancl rtranclp.rtrancl_refl)
qed

lemma gateway_reaches_requests: "(gateway_step srv)\<^sup>*\<^sup>* gateway_start (gateway_serving n)"
proof (induction n)
  case 0
  then show ?case by (rule gateway_reaches_serving)
next
  case (Suc n)
  have "gateway_step srv (gateway_serving n) ((gateway_serving n)\<lparr>requests := Suc (requests (gateway_serving n))\<rparr>)"
    by (rule gateway_step.request_begins) (simp_all add: gateway_serving_def gateway_start_def)
  moreover have "(gateway_serving n)\<lparr>requests := Suc (requests (gateway_serving n))\<rparr> = gateway_serving (Suc n)"
    by (simp add: gateway_serving_def)
  ultimately show ?case using Suc by (metis rtranclp.rtrancl_into_rtrancl)
qed

lemma gateway_reaches_abrupt_exit:
  assumes "graceful srv"
  shows "\<exists>p. (gateway_step srv)\<^sup>*\<^sup>* gateway_start p \<and> exit_status p = Some 0 \<and> requests p = n"
proof -
  let ?p = "(gateway_serving n)\<lparr>signal_at := GracefulStopping, quit := True\<rparr>"
  have "gateway_step srv (gateway_serving n) ?p"
    by (rule gateway_step.signal_received) (simp_all add: gateway_serving_def gateway_start_def)
  moreover have "gateway_step srv ?p (?p\<lparr>main_at := MainDone, exit_status := Some 0\<rparr>)"
    using assms by (intro gateway_step.serve_returns) (simp_all add: gateway_serving_def gateway_start_def graceful_def)
  ultimately have "(gateway_step srv)\<^sup>*\<^sup>* gateway_start (?p\<lparr>main_at := MainDone, exit_status := Some 0\<rparr>)"
    using gateway_reaches_requests [of srv n] by (meson rtranclp.rtrancl_into_rtrancl)
  moreover have "exit_status (?p\<lparr>main_at := MainDone, exit_status := Some 0\<rparr>) = Some 0"
    "requests (?p\<lparr>main_at := MainDone, exit_status := Some 0\<rparr>) = n" by (simp_all add: gateway_serving_def)
  ultimately show ?thesis by blast
qed

definition orchestrator_inv :: "OrchestratorProcess \<Rightarrow> bool" where
  "orchestrator_inv p \<longleftrightarrow>
     (osignal_at p = SignalDone \<longrightarrow> streams p = 0) \<and>
     (omain_at p \<in> {Listening, Registered, Ready} \<longrightarrow> streams p = 0) \<and>
     (omain_at p \<in> {Listening, Registered} \<longrightarrow> osignal_at p = NotStarted) \<and>
     (oquit p \<longleftrightarrow> osignal_at p \<in> {GracefulStopping, SignalDone})"

lemma orchestrator_inv_step:
  assumes "graceful srv" and "orchestrator_step srv p p'" and "orchestrator_inv p"
  shows "orchestrator_inv p'"
  using assms(2)
proof (cases rule: orchestrator_step.cases)
  case graceful_returns
  then have "streams p = 0" using assms(1) by (simp add: graceful_def)
  with graceful_returns assms(3) show ?thesis by (simp add: orchestrator_inv_def)
next
  case (stream_ends n)
  with assms(3) show ?thesis by (auto simp: orchestrator_inv_def)
next
  case stream_begins
  with assms(3) show ?thesis by (auto simp: orchestrator_inv_def)
qed (use assms(3) in \<open>auto simp: orchestrator_inv_def\<close>)

lemma orchestrator_reach_inv:
  assumes "(orchestrator_step srv)\<^sup>*\<^sup>* orchestrator_start p" and "graceful srv"
  shows "orchestrator_inv p"
  using assms(1)
proof (induction rule: rtranclp_induct)
  case base
  then show ?case by (simp add: orchestrator_inv_def orchestrator_start_def)
next
  case (step y z)
  then show ?case using orchestrator_inv_step [OF assms(2)] by blast
qed

section \<open>Properties of the processes\<close>

text \<open>C40: on a signal the gateway ends with status 0 only after every gRPC call in flight is finished, provided
  \<^verbatim>\<open>Serve\<close> itself waits for them, but it can end with any number of HTTP requests in flight: \<^verbatim>\<open>main\<close> returns
  as soon as the gRPC server has stopped and does not wait for the goroutine that shuts the HTTP
  server down afterwards.\<close>
theorem gateway_shutdown:
  assumes "graceful srv"
  shows "(serve_waits srv \<longrightarrow> (gateway_step srv)\<^sup>*\<^sup>* gateway_start p \<longrightarrow> exit_status p = Some 0 \<longrightarrow>
      quit p \<and> rpcs p = 0) \<and>
    (\<exists>p. (gateway_step srv)\<^sup>*\<^sup>* gateway_start p \<and> exit_status p = Some 0 \<and> requests p = n)"
  using gateway_reach_inv [OF _ assms, of p] gateway_reaches_abrupt_exit [OF assms, of n]
  by (simp add: gateway_inv_def)

text \<open>A server that waits for its calls in both functions and refuses to serve after a stop.\<close>

definition waiting_server :: GrpcServer where
  "waiting_server = \<lparr>stop_returns = (\<lambda>n. n = 0), serve_returns_nil = (\<lambda>n. n = 0),
     serve_after_stop = Some ''grpc: the server has been stopped''\<rparr>"

theorem gateway_shutdown_witness:
  "(\<exists>p. (gateway_step waiting_server)\<^sup>*\<^sup>* gateway_start p \<and> exit_status p = Some 0 \<and> requests p = 3) \<and>
   serve_waits waiting_server"
  using gateway_shutdown [of waiting_server gateway_start 3]
  by (simp add: graceful_def serve_waits_def waiting_server_def)

text \<open>A signal that is handled before \<^verbatim>\<open>main\<close> reaches \<^verbatim>\<open>Serve\<close>: \<^verbatim>\<open>Serve\<close> on the stopped server returns an
  error, and \<^verbatim>\<open>main\<close> ends with status 1, although the shutdown was asked for.\<close>

lemma early_signal_fails:
  assumes "serve_after_stop srv = Some err" and "gateway_step srv p p'" and "main_at p = Ready" and "quit p"
  shows "exit_status p' = Some 1 \<or> main_at p' = Ready \<and> quit p'"
  using assms(2-4) by (cases rule: gateway_step.cases) (auto simp: assms(1))

lemma early_signal_reached:
  "\<exists>p. (gateway_step srv)\<^sup>*\<^sup>* gateway_start p \<and> main_at p = Ready \<and> quit p \<and> exit_status p = None"
proof -
  let ?p1 = "gateway_start\<lparr>main_at := Registered\<rparr>"
  let ?p2 = "?p1\<lparr>main_at := HttpStarted, http_at := HttpServing\<rparr>"
  let ?p3 = "?p2\<lparr>main_at := Ready, signal_at := WaitSignal\<rparr>"
  let ?p4 = "?p3\<lparr>signal_at := GracefulStopping, quit := True\<rparr>"
  have steps: "gateway_step srv gateway_start ?p1" "gateway_step srv ?p1 ?p2" "gateway_step srv ?p2 ?p3"
    "gateway_step srv ?p3 ?p4"
    by (rule gateway_step.listen_ok gateway_step.go_http gateway_step.go_signal gateway_step.signal_received;
        simp add: gateway_start_def)+
  then have "(gateway_step srv)\<^sup>*\<^sup>* gateway_start ?p4"
    by (meson rtranclp.rtrancl_into_rtrancl rtranclp.rtrancl_refl)
  then show ?thesis by (intro exI [of _ ?p4]) (simp add: gateway_start_def)
qed

text \<open>Once \<^verbatim>\<open>Serve\<close> is entered and a signal handled, as long as a worker stream is open and if \<^verbatim>\<open>Serve\<close> waits, the
  orchestrator can make no step but the end of a stream.\<close>

lemma orchestrator_waits_for_workers:
  assumes "graceful srv" and "serve_waits srv" and "(orchestrator_step srv)\<^sup>*\<^sup>* orchestrator_start p"
    and "oquit p" and "streams p = Suc n" and "orchestrator_step srv p p'"
  shows "p' = p\<lparr>streams := n\<rparr> \<and> oexit p' = None"
proof -
  have inv: "orchestrator_inv p" by (rule orchestrator_reach_inv [OF assms(3,1)])
  have no: "\<not> stop_returns srv (streams p)" "\<not> serve_returns_nil srv (streams p)"
    using assms(1,2,5) by (auto simp: graceful_def serve_waits_def)
  from assms(6) show ?thesis
    using inv no assms(4,5) by (cases rule: orchestrator_step.cases) (auto simp: orchestrator_inv_def)
qed

end
