(* ===== verification/Swagger_Doc.thy ===== *)
theory Swagger_Doc
  imports Rest_Api Server_Processes
begin

text \<open>
  The API document the gateway serves, \<^verbatim>\<open>src/docs/swagger/docs.go\<close>, and its agreement with the REST handlers.

  The template \<^verbatim>\<open>doc\<close> is a JSON text with the fields of \<^verbatim>\<open>SwaggerInfo\<close> inserted; \<open>doc_json\<close> is its value, member by member
  in the order of the text, with the inserted texts standing raw between their quotes, as the template has them. The
  template package is another project's: its \<^verbatim>\<open>Parse\<close> and \<^verbatim>\<open>Execute\<close> are the parameter \<open>execute\<close> (\<open>None\<close> is an error of either), and
  that it inserts the fields, as its documentation says, is the hypothesis \<open>inserts\<close>.
\<close>

section \<open>SwaggerInfo\<close>

record swaggerInfo =
  Version :: string
  Host :: string
  BasePath :: string
  Schemes :: "string list option"
  Title :: string
  Description :: string

definition SwaggerInfo :: swaggerInfo where
  "SwaggerInfo =
     \<lparr>Version = ''1.0'', Host = ''localhost:8081'', BasePath = ''/'', Schemes = Some [], Title = ''Ortrix Gateway API'',
      Description = ''REST API for the Ortrix distributed workflow orchestrator.''\<rparr>"

section \<open>The document\<close>

definition info_doc :: "swaggerInfo \<Rightarrow> json" where
  "info_doc info = JObj [
     (''description'', JStr (Description info)),
     (''title'', JStr (Title info)),
     (''termsOfService'', JStr ''http://swagger.io/terms/''),
     (''contact'', JObj [
       (''name'', JStr ''Ortrix Maintainers''),
       (''url'', JStr ''https://github.com/mayur-tolexo/ortrix'')]),
     (''license'', JObj [(''name'', JStr ''MIT''), (''url'', JStr ''https://opensource.org/licenses/MIT'')]),
     (''version'', JStr (Version info))]"

definition start_doc :: json where
  "start_doc = JObj [
     (''post'', JObj [
       (''description'', JStr ''Starts a new workflow execution''),
       (''consumes'', JArr [JStr ''application/json'']),
       (''produces'', JArr [JStr ''application/json'']),
       (''tags'', JArr [JStr ''workflow'']),
       (''summary'', JStr ''Start a workflow''),
       (''parameters'', JArr [JObj [
           (''description'', JStr ''Workflow input''),
           (''name'', JStr ''request''),
           (''in'', JStr ''body''),
           (''required'', JBool True),
           (''schema'', JObj [(''$ref'', JStr ''#/definitions/main.StartWorkflowRequest'')])]]),
       (''responses'', JObj [
         (''200'', JObj [
           (''description'', JStr ''OK''),
           (''schema'', JObj [(''$ref'', JStr ''#/definitions/main.StartWorkflowResponse'')])]),
         (''400'', JObj [
           (''description'', JStr ''Bad Request''),
           (''schema'', JObj [(''$ref'', JStr ''#/definitions/main.ErrorResponse'')])])])])]"

definition status_doc :: json where
  "status_doc = JObj [
     (''get'', JObj [
       (''description'', JStr ''Returns the current status of a workflow''),
       (''consumes'', JArr [JStr ''application/json'']),
       (''produces'', JArr [JStr ''application/json'']),
       (''tags'', JArr [JStr ''workflow'']),
       (''summary'', JStr ''Get workflow status''),
       (''parameters'', JArr [JObj [
           (''type'', JStr ''string''),
           (''description'', JStr ''Workflow ID''),
           (''name'', JStr ''id''),
           (''in'', JStr ''path''),
           (''required'', JBool True)]]),
       (''responses'', JObj [
         (''200'', JObj [
           (''description'', JStr ''OK''),
           (''schema'', JObj [(''$ref'', JStr ''#/definitions/main.GetWorkflowStatusResponse'')])]),
         (''400'', JObj [
           (''description'', JStr ''Bad Request''),
           (''schema'', JObj [(''$ref'', JStr ''#/definitions/main.ErrorResponse'')])])])])]"

definition health_doc :: json where
  "health_doc = JObj [
     (''get'', JObj [
       (''description'', JStr ''Returns the health status of the gateway service''),
       (''produces'', JArr [JStr ''application/json'']),
       (''tags'', JArr [JStr ''system'']),
       (''summary'', JStr ''Health check''),
       (''responses'', JObj [
         (''200'', JObj [
           (''description'', JStr ''OK''),
           (''schema'', JObj [
             (''type'', JStr ''object''),
             (''additionalProperties'', JObj [(''type'', JStr ''string'')])])])])])]"

definition error_schema :: json where
  "error_schema = JObj [
     (''type'', JStr ''object''),
     (''properties'', JObj [
       (''error'', JObj [
         (''description'', JStr ''Error is the error message.''),
         (''type'', JStr ''string''),
         (''example'', JStr ''invalid request'')])])]"

definition status_schema :: json where
  "status_schema = JObj [
     (''type'', JStr ''object''),
     (''properties'', JObj [
       (''status'', JObj [
         (''description'', JStr ''Status is the current status of the workflow.''),
         (''type'', JStr ''string''),
         (''example'', JStr ''running'')]),
       (''workflow_id'', JObj [
         (''description'', JStr ''WorkflowID is the unique identifier of the workflow.''),
         (''type'', JStr ''string''),
         (''example'', JStr ''wf-abc123'')])])]"

definition request_schema :: json where
  "request_schema = JObj [
     (''type'', JStr ''object''),
     (''properties'', JObj [
       (''input'', JObj [
         (''description'', JStr ''Input is the JSON payload for the workflow.''),
         (''type'', JStr ''object''),
         (''additionalProperties'', JBool True)]),
       (''workflow_name'', JObj [
         (''description'', JStr ''WorkflowName is the name of the workflow to execute.''),
         (''type'', JStr ''string''),
         (''example'', JStr ''order-processing'')])])]"

definition start_schema :: json where
  "start_schema = JObj [
     (''type'', JStr ''object''),
     (''properties'', JObj [
       (''message'', JObj [
         (''description'', JStr ''Message provides additional details.''),
         (''type'', JStr ''string''),
         (''example'', JStr ''workflow started successfully'')]),
       (''status'', JObj [
         (''description'', JStr ''Status is the current status of the workflow.''),
         (''type'', JStr ''string''),
         (''example'', JStr ''started'')]),
       (''workflow_id'', JObj [
         (''description'', JStr ''WorkflowID is the unique identifier of the started workflow.''),
         (''type'', JStr ''string''),
         (''example'', JStr ''wf-abc123'')])])]"

definition doc_json :: "swaggerInfo \<Rightarrow> json" where
  "doc_json info = JObj [
     (''schemes'', case Schemes info of None \<Rightarrow> JNull | Some xs \<Rightarrow> JArr (map (\<lambda>x. JStr (quote x)) xs)),
     (''swagger'', JStr ''2.0''),
     (''info'', info_doc info),
     (''host'', JStr (Host info)),
     (''basePath'', JStr (BasePath info)),
     (''paths'', JObj [
       (''/api/v1/workflows/start'', start_doc),
       (''/api/v1/workflows/{id}/status'', status_doc),
       (''/healthz'', health_doc)]),
     (''definitions'', JObj [
       (''main.ErrorResponse'', error_schema),
       (''main.GetWorkflowStatusResponse'', status_schema),
       (''main.StartWorkflowRequest'', request_schema),
       (''main.StartWorkflowResponse'', start_schema)])]"

definition escape_newlines :: "string \<Rightarrow> string" where
  "escape_newlines s = concat (map (\<lambda>c. if c = CHR 0x0A then [CHR 0x5C, CHR ''n''] else [c]) s)"

definition ReadDoc :: "(swaggerInfo \<Rightarrow> string option) \<Rightarrow> string \<Rightarrow> swaggerInfo \<Rightarrow> string" where
  "ReadDoc execute doc info =
     (let sInfo = info\<lparr>Description := escape_newlines (Description info)\<rparr> in
      case execute sInfo of None \<Rightarrow> doc | Some tpl \<Rightarrow> tpl)"

definition inserts :: "(swaggerInfo \<Rightarrow> string option) \<Rightarrow> bool" where
  "inserts execute \<longleftrightarrow> (\<exists>tpl. execute SwaggerInfo = Some tpl \<and> parse_json tpl = Some (doc_json SwaggerInfo))"

section \<open>Reading the document\<close>

fun lookup :: "string list \<Rightarrow> json \<Rightarrow> json option" where
  "lookup [] j = Some j"
| "lookup (k # ks) (JObj ms) = (case map_of ms k of None \<Rightarrow> None | Some v \<Rightarrow> lookup ks v)"
| "lookup (k # ks) _ = None"

text \<open>The schema a document gives for a response, with a reference resolved.\<close>

definition response_schema :: "json \<Rightarrow> string \<Rightarrow> string \<Rightarrow> nat \<Rightarrow> json option" where
  "response_schema doc path method c =
     do {
       sch \<leftarrow> lookup [''paths'', path, method, ''responses'', show_nat c, ''schema''] doc;
       case lookup [''$ref''] sch of
         Some (JStr ref) \<Rightarrow> lookup [''definitions'', drop (length ''#/definitions/'') ref] doc
       | _ \<Rightarrow> Some sch
     }"

text \<open>An object meets a schema if its members are strings and either are the schema's properties, each of
  type string, or the schema allows any members of type string.\<close>

definition string_type :: "json \<Rightarrow> bool" where
  "string_type s \<longleftrightarrow> lookup [''type''] s = Some (JStr ''string'')"

definition meets :: "json \<Rightarrow> json \<Rightarrow> bool" where
  "meets sch v =
     (case v of
        JObj ms \<Rightarrow>
          list_all (\<lambda>(k, v). case v of JStr _ \<Rightarrow> True | _ \<Rightarrow> False) ms \<and>
          (case lookup [''properties''] sch of
             Some (JObj ps) \<Rightarrow> set (map fst ms) = set (map fst ps) \<and> list_all (\<lambda>(k, p). string_type p) ps
           | _ \<Rightarrow> (case lookup [''additionalProperties''] sch of Some p \<Rightarrow> string_type p | None \<Rightarrow> False))
      | _ \<Rightarrow> False)"

definition documented :: "json \<Rightarrow> string \<Rightarrow> string \<Rightarrow> Response \<Rightarrow> bool" where
  "documented doc path method r =
     (case (response_schema doc path method (code r), parse_json (response_text r)) of
        (Some sch, Some v) \<Rightarrow> meets sch v
      | _ \<Rightarrow> False)"

section \<open>The handlers and the document\<close>

lemma digit_texts: "digit 0 = CHR ''0''" "digit (Suc 0) = CHR ''1''" "digit 2 = CHR ''2''" "digit 4 = CHR ''4''" "digit 8 = CHR ''8''"
  by code_simp+

lemma show_codes: "show_nat 200 = ''200''" "show_nat 400 = ''400''" "show_nat 8081 = ''8081''"
  by (simp_all add: show_nat.simps digit_texts)

lemma documented_schemas:
  "response_schema (doc_json info) ''/api/v1/workflows/start'' ''post'' 200 = Some start_schema"
  "response_schema (doc_json info) ''/api/v1/workflows/start'' ''post'' 400 = Some error_schema"
  "response_schema (doc_json info) ''/api/v1/workflows/{id}/status'' ''get'' 200 = Some status_schema"
  "response_schema (doc_json info) ''/api/v1/workflows/{id}/status'' ''get'' 400 = Some error_schema"
  by (simp_all add: response_schema_def doc_json_def start_doc_def status_doc_def show_codes)

lemma documented_iff:
  "documented doc path m r \<longleftrightarrow> (\<exists>sch. response_schema doc path m (code r) = Some sch \<and> meets sch (body_json (body r)))"
  by (simp add: documented_def parse_response split: option.split)

lemma meets_schemas:
  "meets error_schema (body_json (ErrorResponse e))"
  "meets start_schema (body_json (StartResponse r))"
  "meets status_schema (body_json (StatusResponse q))"
  by (auto simp: meets_def body_json_def error_schema_def start_schema_def status_schema_def string_type_def)

lemma start_documented:
  "documented (doc_json info) ''/api/v1/workflows/start'' ''post'' (StartWorkflow decoded)"
  by (simp add: documented_iff StartWorkflow_def writeJSON_def documented_schemas meets_schemas split: option.split)

lemma status_documented:
  "\<exists>r. GetWorkflowStatus path = Return r \<and> documented (doc_json info) ''/api/v1/workflows/{id}/status'' ''get'' r"
  by (simp add: GetWorkflowStatus_def path_param_total documented_iff writeJSON_def documented_schemas meets_schemas
      del: list.size)

lemma health_documented: "documented (doc_json info) ''/healthz'' ''get'' HealthCheck"
  by (simp add: documented_iff HealthCheck_def writeJSON_def response_schema_def doc_json_def health_doc_def show_codes
      meets_def body_json_def string_type_def list_all_iff)

text \<open>The document is printed and read back: its texts need no escape.\<close>

fun plain_json :: "json \<Rightarrow> bool" where
  "plain_json (JNum l) = False"
| "plain_json (JStr raw) = plain raw"
| "plain_json (JArr vs) = list_all plain_json vs"
| "plain_json (JObj ms) = list_all (\<lambda>(k, v). plain k \<and> plain_json v) ms"
| "plain_json _ = True"

lemma plain_printable: "plain_json j \<Longrightarrow> printable j"
proof (induction j)
  case (JObj ms)
  have "\<exists>s. k = quote s" if "plain k" for k using quote_plain_id [OF that] by metis
  with JObj show ?case by (fastforce simp: list_all_iff)
qed (use quote_plain_id in \<open>auto simp: list_all_iff, metis\<close>)

lemma plain_char_bits [code]:
  "plain_char (Char b0 b1 b2 b3 b4 b5 b6 b7) \<longleftrightarrow> \<not> b7 \<and> (b5 \<or> b6) \<and>
     Char b0 b1 b2 b3 b4 b5 b6 b7 \<notin> set [CHR 0x22, CHR ''&'', CHR ''<'', CHR ''>'', CHR 0x5C]"
  by (cases b7; cases b6; cases b5; cases b4; cases b3; cases b2; cases b1; cases b0) (simp_all add: plain_char_def byte_of_def)

lemma doc_plain: "plain_json (doc_json SwaggerInfo)"
  by code_simp

lemma doc_depth: "depth (doc_json SwaggerInfo) \<le> max_depth"
  by code_simp

lemma print_inserts: "inserts (\<lambda>info. Some (print_json (doc_json info)))"
  using parse_json_print [OF plain_printable [OF doc_plain] doc_depth] by (simp add: inserts_def)

lemma SwaggerInfo_description: "SwaggerInfo\<lparr>Description := escape_newlines (Description SwaggerInfo)\<rparr> = SwaggerInfo"
  by (simp add: SwaggerInfo_def escape_newlines_def)

lemma ReadDoc_value: "inserts execute \<Longrightarrow> parse_json (ReadDoc execute doc SwaggerInfo) = Some (doc_json SwaggerInfo)"
  by (auto simp: ReadDoc_def SwaggerInfo_description inserts_def)

lemma default_host: "lookup [''host''] (doc_json SwaggerInfo) = Some (JStr (''localhost'' @ snd (gateway_addrs Map.empty)))"
proof -
  have "snd (gateway_addrs Map.empty) = '':8081''"
    by (simp add: gateway_addrs_def Load_def Let_def getEnvInt_def http_port_def port_addr_def show_int_def show_codes)
  then show ?thesis by (simp add: doc_json_def SwaggerInfo_def)
qed

section \<open>Property of the API document\<close>

text \<open>C20: the API document the gateway serves describes its REST handlers: whatever the request body or the path, each of the
  three handlers answers with a code the document lists for its operation, and the text of the answer is a
  JSON object with exactly the members, all strings, of the schema given there; and the host of the document
  is the HTTP address of a gateway with the default configuration.\<close>
theorem rest_api_documented:
  assumes "inserts execute"
  shows "\<exists>doc. parse_json (ReadDoc execute template SwaggerInfo) = Some doc \<and>
    documented doc ''/api/v1/workflows/start'' ''post'' (StartWorkflow (decode_start request)) \<and>
    (\<exists>r. GetWorkflowStatus path = Return r \<and> documented doc ''/api/v1/workflows/{id}/status'' ''get'' r) \<and>
    documented doc ''/healthz'' ''get'' HealthCheck \<and>
    lookup [''host''] doc = Some (JStr (''localhost'' @ snd (gateway_addrs Map.empty)))"
  using ReadDoc_value [OF assms] start_documented status_documented health_documented default_host by blast

theorem rest_api_documented_witness:
  "\<exists>doc. parse_json (ReadDoc (\<lambda>info. Some (print_json (doc_json info))) [] SwaggerInfo) = Some doc \<and>
    documented doc ''/api/v1/workflows/start'' ''post'' (StartWorkflow (decode_start ''{}''))"
  using rest_api_documented [OF print_inserts] by blast

end
