(* ===== verification/Stream_Goroutines.thy ===== *)
theory Stream_Goroutines
  imports Worker_Properties
begin

text \<open>
  The stream manager with any number of goroutines, \<^verbatim>\<open>src/internal/streaming/stream.go\<close>. Each method is cut
  where it takes its lock or waits, and a goroutine is at one of these places; \<open>goroutine\<close> is the step of one
  goroutine, \<open>world_step\<close> interleaves them and lets the client call the methods at any time (and \<open>quiet_step\<close>
  is its part without timer ticks and new calls).

  \<^item> The sections under a read lock, and those under the write lock that do not wait, are one step that needs the lock
    to be free. \<^verbatim>\<open>Connect\<close> waits for the dial and for the callback with the lock held, and \<^verbatim>\<open>Close\<close> for the
    connection to close, so they have places inside the lock.
  \<^item> \<open>asks\<close> says that the callback for a new connection asks the manager for it, as that of the worker does.
    The callbacks for errors and for the end of a connection only log or change the client.
  \<^item> \<open>dialled\<close> are the connections \<^verbatim>\<open>grpc.Dial\<close> has returned, \<open>opened\<close> those of them that nobody has closed.
\<close>

section \<open>Goroutines\<close>

record 'c Shared =
  manager :: "'c StreamManager"
  opened :: "'c set"
  dialled :: "'c set"

datatype 'c Goroutine =
    ConnectEnter | ConnectDial | ConnectCallback
  | LoopSelect goint | LoopCheck goint
  | AttemptEnter goint | AttemptPause goint | AttemptDial goint | AttemptDialled goint 'c
  | AttemptCallback goint | AttemptMark goint
  | MarkEnter | CloseEnter | CloseConn 'c | Query
  | Finished

definition with_manager :: "('c StreamManager \<Rightarrow> 'c StreamManager) \<Rightarrow> 'c Shared \<Rightarrow> 'c Shared" where
  "with_manager f s = s\<lparr>manager := f (manager s)\<rparr>"

definition add_connection :: "'c \<Rightarrow> 'c Shared \<Rightarrow> 'c Shared" where
  "add_connection c s = s\<lparr>opened := insert c (opened s), dialled := insert c (dialled s)\<rparr>"

definition ended :: "'c StreamManager \<Rightarrow> bool" where
  "ended sm \<longleftrightarrow> ctx_done sm \<or> done_closed sm"

inductive goroutine ::
    "bool \<Rightarrow> 'c Goroutine \<Rightarrow> 'c Shared \<Rightarrow> 'c Goroutine \<Rightarrow> 'c Shared \<Rightarrow> 'c Goroutine list \<Rightarrow> bool"
  for asks :: bool where
  connect_locks: "lock (manager s) = Some sm \<Longrightarrow>
    goroutine asks ConnectEnter s ConnectDial (with_manager (\<lambda>_. sm) s) []"
| connect_dial_fails: "goroutine asks ConnectDial s Finished (with_manager unlock s) []"
| connect_dials: "c \<notin> dialled s \<Longrightarrow>
    goroutine asks ConnectDial s ConnectCallback (with_manager (established c now) (add_connection c s)) []"
| connect_callback_fails: "\<not> (asks \<and> mu (manager s)) \<Longrightarrow>
    goroutine asks ConnectCallback s Finished (with_manager unlock s) []"
| connect_returns: "\<not> (asks \<and> mu (manager s)) \<Longrightarrow>
    goroutine asks ConnectCallback s Finished (with_manager (\<lambda>sm. unlock (sm\<lparr>loops := Suc (loops sm)\<rparr>)) s)
      [LoopSelect (InitialBackoff (config (manager s)))]"
| loop_ended: "ended (manager s) \<Longrightarrow> goroutine asks (LoopSelect b) s Finished s []"
| loop_tick: "goroutine asks (LoopSelect b) s (LoopCheck b) s []"
| loop_checks: "\<not> mu (manager s) \<Longrightarrow>
    goroutine asks (LoopCheck b) s (if isConnected (manager s) then LoopSelect b else AttemptEnter b) s []"
| attempt_gives_up: "\<not> mu (manager s) \<Longrightarrow> exhausted (manager s) \<Longrightarrow>
    goroutine asks (AttemptEnter b) s (LoopSelect b) s []"
| attempt_counts: "\<not> mu (manager s) \<Longrightarrow> \<not> exhausted (manager s) \<Longrightarrow>
    goroutine asks (AttemptEnter b) s (AttemptPause b)
      (with_manager (\<lambda>sm. sm\<lparr>retryCount := retryCount sm + 1\<rparr>) s) []"
| pause_over: "goroutine asks (AttemptPause b) s (AttemptDial b) s []"
| pause_ended: "ended (manager s) \<Longrightarrow> goroutine asks (AttemptPause b) s (LoopSelect b) s []"
| attempt_dial_fails:
    "goroutine asks (AttemptDial b) s (LoopSelect (next_backoff (config (manager s)) b)) s []"
| attempt_dials: "c \<notin> dialled s \<Longrightarrow>
    goroutine asks (AttemptDial b) s (AttemptDialled b c) (add_connection c s) []"
| attempt_connects: "\<not> mu (manager s) \<Longrightarrow>
    goroutine asks (AttemptDialled b c) s (AttemptCallback b) (with_manager (established c now) s) []"
| attempt_returns: "\<not> (asks \<and> mu (manager s)) \<Longrightarrow>
    goroutine asks (AttemptCallback b) s (LoopSelect (InitialBackoff (config (manager s)))) s []"
| attempt_callback_fails: "\<not> (asks \<and> mu (manager s)) \<Longrightarrow>
    goroutine asks (AttemptCallback b) s (AttemptMark b) s []"
| attempt_marks: "\<not> mu (manager s) \<Longrightarrow>
    goroutine asks (AttemptMark b) s (LoopSelect (InitialBackoff (config (manager s))))
      (with_manager (\<lambda>sm. sm\<lparr>isConnected := False\<rparr>) s) []"
| client_marks: "\<not> mu (manager s) \<Longrightarrow>
    goroutine asks MarkEnter s Finished (with_manager (\<lambda>sm. sm\<lparr>isConnected := False\<rparr>) s) []"
| close_again: "\<not> mu (manager s) \<Longrightarrow> done_closed (manager s) \<Longrightarrow> goroutine asks CloseEnter s Finished s []"
| close_unconnected: "\<not> mu (manager s) \<Longrightarrow> \<not> done_closed (manager s) \<Longrightarrow> conn (manager s) = None \<Longrightarrow>
    goroutine asks CloseEnter s Finished (with_manager (\<lambda>sm. sm\<lparr>done_closed := True, ctx_done := True\<rparr>) s) []"
| close_locks: "lock (manager s) = Some sm \<Longrightarrow> \<not> done_closed sm \<Longrightarrow> conn sm = Some c \<Longrightarrow>
    goroutine asks CloseEnter s (CloseConn c)
      (with_manager (\<lambda>_. sm\<lparr>done_closed := True, ctx_done := True\<rparr>) s) []"
| close_panics: "goroutine asks (CloseConn c) s Finished (with_manager unlock s) []"
| close_closes: "goroutine asks (CloseConn c) s Finished
    (with_manager (\<lambda>sm. unlock (sm\<lparr>conn := None\<rparr>)) (s\<lparr>opened := opened s - {c}\<rparr>)) []"
| query: "\<not> mu (manager s) \<Longrightarrow> goroutine asks Query s Finished s []"

type_synonym 'c World = "'c Shared \<times> 'c Goroutine list"

definition calls :: "'c Goroutine set" where
  "calls = {ConnectEnter, MarkEnter, CloseEnter, Query}"

inductive world_step :: "bool \<Rightarrow> 'c World \<Rightarrow> 'c World \<Rightarrow> bool" for asks :: bool where
  call: "g \<in> calls \<Longrightarrow> world_step asks (s, gs) (s, gs @ [g])"
| run: "i < length gs \<Longrightarrow> goroutine asks (gs ! i) s g s' new \<Longrightarrow>
    world_step asks (s, gs) (s', gs[i := g] @ new)"

definition world0 :: "StreamConfig \<Rightarrow> 'c World" where
  "world0 cfg = (\<lparr>manager = NewStreamManager cfg, opened = {}, dialled = {}\<rparr>, [])"

definition world_reach :: "bool \<Rightarrow> StreamConfig \<Rightarrow> 'c World \<Rightarrow> bool" where
  "world_reach asks cfg w \<longleftrightarrow> (world_step asks)\<^sup>*\<^sup>* (world0 cfg) w"

inductive_cases goroutine_from: "goroutine asks g s g' s' new"
inductive_cases world_stepE: "world_step asks (s, gs) w"

text \<open>The steps from one place.\<close>

inductive_simps goroutine_simps:
  "goroutine asks ConnectEnter s g' s' new"
  "goroutine asks ConnectDial s g' s' new"
  "goroutine asks ConnectCallback s g' s' new"
  "goroutine asks (LoopSelect b) s g' s' new"
  "goroutine asks (LoopCheck b) s g' s' new"
  "goroutine asks (AttemptEnter b) s g' s' new"
  "goroutine asks (AttemptPause b) s g' s' new"
  "goroutine asks (AttemptDial b) s g' s' new"
  "goroutine asks (AttemptDialled b c) s g' s' new"
  "goroutine asks (AttemptCallback b) s g' s' new"
  "goroutine asks (AttemptMark b) s g' s' new"
  "goroutine asks MarkEnter s g' s' new"
  "goroutine asks CloseEnter s g' s' new"
  "goroutine asks (CloseConn c) s g' s' new"
  "goroutine asks Query s g' s' new"
  "goroutine asks Finished s g' s' new"

lemma with_manager_simps [simp]:
  "manager (with_manager f s) = f (manager s)"
  "opened (with_manager f s) = opened s"
  "dialled (with_manager f s) = dialled s"
  by (simp_all add: with_manager_def)

lemma add_connection_simps [simp]:
  "manager (add_connection c s) = manager s"
  "opened (add_connection c s) = insert c (opened s)"
  "dialled (add_connection c s) = insert c (dialled s)"
  by (simp_all add: add_connection_def)

section \<open>Mutual exclusion\<close>

text \<open>The places inside the lock.\<close>

fun holds :: "'c Goroutine \<Rightarrow> bool" where
  "holds ConnectDial = True"
| "holds ConnectCallback = True"
| "holds (CloseConn c) = True"
| "holds _ = False"

definition holders :: "'c Goroutine list \<Rightarrow> nat" where
  "holders gs = length (filter holds gs)"

lemma holders_update:
  assumes "i < length gs"
  shows "holders (gs[i := g] @ new) + of_bool (holds (gs ! i)) = holders gs + of_bool (holds g) + holders new"
proof -
  have "holders gs = holders (take i gs @ gs ! i # drop (Suc i) gs)"
    using assms by (simp flip: id_take_nth_drop)
  also have "\<dots> = holders (take i gs) + of_bool (holds (gs ! i)) + holders (drop (Suc i) gs)"
    by (simp add: holders_def)
  finally show ?thesis using assms by (simp add: upd_conv_take_nth_drop holders_def)
qed

text \<open>A step takes the lock only when it is free, and only its holder releases it.\<close>

lemma goroutine_lock:
  assumes "goroutine asks g s g' s' new"
  shows "holders new = 0 \<and> (mu (manager s') \<longleftrightarrow> holds g' \<or> mu (manager s) \<and> \<not> holds g) \<or> \<not> mu (manager s) \<and> holds g"
  using assms by cases (auto simp: holders_def lock_def unlock_def established_def split: if_splits)

lemma goroutine_waits: "goroutine asks g s g' s' new \<Longrightarrow> mu (manager s) \<Longrightarrow> holds g' \<Longrightarrow> holds g"
  by (erule goroutine_from) (auto simp: lock_def split: if_splits)

definition excl :: "'c World \<Rightarrow> bool" where
  "excl w \<longleftrightarrow> holders (snd w) = of_bool (mu (manager (fst w)))"

lemma excl_step: "world_step asks w w' \<Longrightarrow> excl w \<Longrightarrow> excl w'"
proof (induction rule: world_step.induct)
  case (call g s gs)
  then show ?case by (auto simp: excl_def holders_def calls_def)
next
  case (run i gs s g s' new)
  have "holds (gs ! i) \<Longrightarrow> 0 < holders gs"
    using run.hyps(1) by (auto simp: holders_def filter_empty_conv)
  with holders_update [OF run.hyps(1), of g new] goroutine_lock [OF run.hyps(2)]
    goroutine_waits [OF run.hyps(2)] run.prems
  show ?case by (cases "mu (manager s)"; cases "holds (gs ! i)"; cases "holds g") (auto simp: excl_def)
qed

lemma excl_start: "excl (world0 cfg)"
  by (simp add: excl_def world0_def holders_def NewStreamManager_def)

lemma excl_reach: "world_reach asks cfg w \<Longrightarrow> excl w"
  unfolding world_reach_def by (induction rule: rtranclp_induct) (auto intro: excl_start excl_step)

lemma holder_alone:
  assumes "excl (s, gs)" and "i < length gs" and "holds (gs ! i)" and "\<not> holds g"
  shows "\<forall>h \<in> set (gs[i := g]). \<not> holds h"
  using holders_update [OF assms(2), of g "[]"] assms(1,3,4)
  by (cases "mu (manager s)") (auto simp: excl_def holders_def filter_empty_conv)

lemma excl_holder_locked: "excl (s, gs) \<Longrightarrow> g \<in> set gs \<Longrightarrow> holds g \<Longrightarrow> mu (manager s)"
  by (cases "mu (manager s)") (auto simp: excl_def holders_def filter_empty_conv)

section \<open>Connections\<close>

text \<open>Only the first \<^verbatim>\<open>Close\<close> closes a connection.\<close>

definition conn_inv :: "'c World \<Rightarrow> bool" where
  "conn_inv w \<longleftrightarrow>
     (done_closed (manager (fst w)) \<or> opened (fst w) = dialled (fst w)) \<and>
     (\<forall>c. CloseConn c \<in> set (snd w) \<longrightarrow> done_closed (manager (fst w)) \<and> opened (fst w) = dialled (fst w)) \<and>
     (opened (fst w) = dialled (fst w) \<or> (\<exists>c \<in> dialled (fst w). opened (fst w) = dialled (fst w) - {c}))"

lemma closing_connections:
  "goroutine asks (CloseConn c) s g' s' new \<Longrightarrow>
   g' = Finished \<and> new = [] \<and> dialled s' = dialled s \<and> opened s' \<in> {opened s, opened s - {c}} \<and>
   done_closed (manager s') = done_closed (manager s)"
  by (auto simp: goroutine_simps unlock_def)

lemma goroutine_connections:
  assumes "goroutine asks g s g' s' new" and "\<forall>c. g \<noteq> CloseConn c"
  shows "(done_closed (manager s) \<longrightarrow> done_closed (manager s')) \<and> (\<forall>c. CloseConn c \<notin> set new) \<and>
    ((\<exists>c. g' = CloseConn c) \<longrightarrow> \<not> done_closed (manager s) \<and> done_closed (manager s')) \<and>
    (opened s' = opened s \<and> dialled s' = dialled s \<or>
     (\<exists>c. c \<notin> dialled s \<and> opened s' = insert c (opened s) \<and> dialled s' = insert c (dialled s)))"
  using assms by cases (auto simp: lock_def unlock_def established_def split: if_splits)

lemma conn_inv_step:
  assumes "world_step asks w w'" and "excl w" and "conn_inv w"
  shows "conn_inv w'"
  using assms
proof (induction rule: world_step.induct)
  case (call g s gs)
  then show ?case by (auto simp: conn_inv_def calls_def)
next
  case (run i gs s g s' new)
  show ?case
  proof (cases "\<exists>c. gs ! i = CloseConn c")
    case True
    then obtain c where c: "gs ! i = CloseConn c" by blast
    then have "CloseConn c \<in> set gs" using run.hyps(1) by (metis nth_mem)
    with run.prems have before: "done_closed (manager s)" "opened s = dialled s" by (auto simp: conn_inv_def)
    have step: "g = Finished" "new = []" "dialled s' = dialled s" "opened s' \<in> {opened s, opened s - {c}}"
      "done_closed (manager s')"
      using closing_connections [OF run.hyps(2) [unfolded c]] before by auto
    have "CloseConn d \<notin> set (gs[i := Finished])" for d
      using holder_alone [OF run.prems(1) run.hyps(1), of Finished] c by fastforce
    with step before show ?thesis by (auto simp: conn_inv_def)
  next
    case False
    with goroutine_connections [OF run.hyps(2)] have step:
      "done_closed (manager s) \<longrightarrow> done_closed (manager s')" "\<forall>c. CloseConn c \<notin> set new"
      "(\<exists>c. g = CloseConn c) \<longrightarrow> \<not> done_closed (manager s) \<and> done_closed (manager s')"
      "opened s' = opened s \<and> dialled s' = dialled s \<or>
       (\<exists>c. c \<notin> dialled s \<and> opened s' = insert c (opened s) \<and> dialled s' = insert c (dialled s))" by blast+
    have "opened s = dialled s \<Longrightarrow> opened s' = dialled s'" using step(4) by auto
    moreover have "\<exists>d \<in> dialled s'. opened s' = dialled s' - {d}"
      if d: "d \<in> dialled s" "opened s = dialled s - {d}" for d
      using step(4)
    proof
      assume "\<exists>c. c \<notin> dialled s \<and> opened s' = insert c (opened s) \<and> dialled s' = insert c (dialled s)"
      with d show ?thesis by (intro bexI [of _ d]) auto
    qed (use d in auto)
    moreover have "CloseConn c \<in> set (gs[i := g] @ new) \<Longrightarrow> g = CloseConn c \<or> CloseConn c \<in> set gs" for c
      using step(2) set_update_subset_insert [of gs i g] by auto
    ultimately show ?thesis using step(1,3) run.prems(2)
      unfolding conn_inv_def fst_conv snd_conv by blast
  qed
qed

lemma conn_inv_reach: "world_reach asks cfg w \<Longrightarrow> conn_inv w"
  unfolding world_reach_def
proof (induction rule: rtranclp_induct)
  case base
  then show ?case by (simp add: conn_inv_def world0_def)
next
  case (step w w')
  then show ?case using conn_inv_step excl_reach [unfolded world_reach_def] by blast
qed

lemma closed_keeps_connections:
  assumes "(world_step asks)\<^sup>*\<^sup>* w w'" and "excl w" and "done_closed (manager (fst w))"
    and "\<forall>c. CloseConn c \<notin> set (snd w)"
  shows "done_closed (manager (fst w')) \<and> (\<forall>c. CloseConn c \<notin> set (snd w')) \<and> opened (fst w) \<subseteq> opened (fst w')"
  using assms(1)
proof (induction rule: rtranclp_induct)
  case base
  then show ?case using assms by blast
next
  case (step w1 w2)
  from step.hyps(2) show ?case
  proof cases
    case (call g s gs)
    then show ?thesis using step.IH by (auto simp: calls_def)
  next
    case (run i gs s g s' new)
    have other: "\<forall>c. gs ! i \<noteq> CloseConn c" using step.IH run(1,3) by (metis nth_mem snd_conv)
    from goroutine_connections [OF run(4) other] step.IH run(1,2) show ?thesis
      using set_update_subset_insert [of gs i g] by auto
  qed
qed

section \<open>Waiting for the lock\<close>

text \<open>The places from which no step is possible while another goroutine holds the lock.\<close>

fun waits :: "'c Goroutine \<Rightarrow> bool" where
  "waits ConnectEnter = True"
| "waits (LoopCheck b) = True"
| "waits (AttemptEnter b) = True"
| "waits (AttemptDialled b c) = True"
| "waits (AttemptCallback b) = True"
| "waits (AttemptMark b) = True"
| "waits MarkEnter = True"
| "waits CloseEnter = True"
| "waits Query = True"
| "waits _ = False"

lemma waits_blocked: "goroutine True g s g' s' new \<Longrightarrow> mu (manager s) \<Longrightarrow> \<not> waits g \<and> g \<noteq> ConnectCallback"
  by (erule goroutine_from) (auto simp: lock_def split: if_splits)

lemma deadlock_step:
  assumes "world_step True (s, gs) (s', gs')" and "excl (s, gs)" and "i < length gs" and "gs ! i = ConnectCallback"
  shows "gs' ! i = ConnectCallback \<and> length gs \<le> length gs' \<and>
    (\<forall>j < length gs. waits (gs ! j) \<longrightarrow> gs' ! j = gs ! j)"
  using assms(1)
proof (cases)
  case (call g)
  then show ?thesis using assms(3,4) by (simp add: nth_append)
next
  case (run k g new)
  have "gs ! i \<in> set gs" using assms(3) by simp
  then have "mu (manager s)" using excl_holder_locked [OF assms(2)] assms(4) by fastforce
  from waits_blocked [OF run(3) this] show ?thesis
    using run(1,2) assms(3,4) by (auto simp: nth_append nth_list_update)
qed

lemma deadlock_run:
  assumes "(world_step True)\<^sup>*\<^sup>* (s, gs) (s', gs')" and "excl (s, gs)" and "i < length gs" and "gs ! i = ConnectCallback"
  shows "excl (s', gs') \<and> gs' ! i = ConnectCallback \<and> length gs \<le> length gs' \<and>
    (\<forall>j < length gs. waits (gs ! j) \<longrightarrow> gs' ! j = gs ! j)"
  using assms(1)
proof (induction "(s', gs')" arbitrary: s' gs' rule: rtranclp_induct)
  case base
  then show ?case using assms by blast
next
  case (step w)
  obtain s1 gs1 where w: "w = (s1, gs1)" by force
  with step assms(3) have IH: "excl (s1, gs1)" "gs1 ! i = ConnectCallback" "i < length gs1" "length gs \<le> length gs1"
    "\<forall>j < length gs. waits (gs ! j) \<longrightarrow> gs1 ! j = gs ! j" by auto
  from deadlock_step [OF step.hyps(2) [unfolded w] IH(1,3,2)] excl_step [OF step.hyps(2) [unfolded w] IH(1)] IH(4,5)
  show ?case by (metis order.strict_trans2 order_trans)
qed

section \<open>Termination\<close>

text \<open>Steps of goroutines other than the tick of a reconnection loop.\<close>

fun tick :: "'c Goroutine \<Rightarrow> 'c Goroutine \<Rightarrow> bool" where
  "tick (LoopSelect b) (LoopCheck b') = True"
| "tick _ _ = False"

inductive quiet_step :: "bool \<Rightarrow> 'c World \<Rightarrow> 'c World \<Rightarrow> bool" for asks :: bool where
  quiet: "i < length gs \<Longrightarrow> goroutine asks (gs ! i) s g s' new \<Longrightarrow> \<not> tick (gs ! i) g \<Longrightarrow>
    quiet_step asks (s, gs) (s', gs[i := g] @ new)"

text \<open>A bound on the steps a goroutine, and those it starts, can make before the next tick.\<close>

fun work :: "'c Goroutine \<Rightarrow> nat" where
  "work ConnectEnter = 4"
| "work ConnectDial = 3"
| "work ConnectCallback = 2"
| "work (LoopSelect b) = 1"
| "work (LoopCheck b) = 8"
| "work (AttemptEnter b) = 7"
| "work (AttemptPause b) = 6"
| "work (AttemptDial b) = 5"
| "work (AttemptDialled b c) = 4"
| "work (AttemptCallback b) = 3"
| "work (AttemptMark b) = 2"
| "work MarkEnter = 1"
| "work CloseEnter = 2"
| "work (CloseConn c) = 1"
| "work Query = 1"
| "work Finished = 0"

definition work_left :: "'c World \<Rightarrow> nat" where
  "work_left w = sum_list (map work (snd w))"

lemma goroutine_work:
  "goroutine asks g s g' s' new \<Longrightarrow> \<not> tick g g' \<Longrightarrow> work g' + sum_list (map work new) < work g"
  by (erule goroutine_from) auto

lemma quiet_work: "quiet_step asks w w' \<Longrightarrow> work_left w' < work_left w"
proof (induction rule: quiet_step.induct)
  case (quiet i gs s g s' new)
  have "work (gs ! i) \<le> sum_list (map work gs)" using quiet.hyps(1) by (simp add: member_le_sum_list)
  then show ?case
    using goroutine_work [OF quiet.hyps(2,3)] sum_list_update [of i "map work gs" "work g"] quiet.hyps(1)
    by (simp add: work_left_def map_update)
qed

lemma quiet_run_bounded: "(quiet_step asks ^^ n) w w' \<Longrightarrow> n + work_left w' \<le> work_left w"
proof (induction n arbitrary: w')
  case (Suc n)
  then obtain v where "(quiet_step asks ^^ n) w v" "quiet_step asks v w'" by auto
  with Suc.IH quiet_work [of asks v w'] show ?case by fastforce
qed simp

lemma quiet_is_step: "quiet_step asks w w' \<Longrightarrow> world_step asks w w'"
  by (erule quiet_step.cases) (auto intro: world_step.run)

text \<open>The goroutines inside \<^verbatim>\<open>Connect\<close>, which a callback that asks the manager blocks.\<close>

fun connecting :: "'c Goroutine \<Rightarrow> bool" where
  "connecting ConnectEnter = True"
| "connecting ConnectDial = True"
| "connecting ConnectCallback = True"
| "connecting _ = False"

definition unblocked :: "bool \<Rightarrow> 'c World \<Rightarrow> bool" where
  "unblocked asks w \<longleftrightarrow> excl w \<and> ended (manager (fst w)) \<and> (asks \<longrightarrow> (\<forall>g \<in> set (snd w). \<not> connecting g))"

text \<open>After the end of the manager, a goroutine that holds the lock or finds it free can go on.\<close>

lemma goroutine_moves:
  assumes "holds g \<or> \<not> mu (manager s)" and "ended (manager s)" and "g \<noteq> Finished" and "\<not> (asks \<and> connecting g)"
  shows "\<exists>g' s' new. goroutine asks g s g' s' new \<and> \<not> tick g g'"
proof (cases g)
  case (AttemptEnter b)
  then show ?thesis
    using assms by (cases "exhausted (manager s)") (auto simp: goroutine_simps intro!: exI)
next
  case CloseEnter
  then show ?thesis
    using assms by (cases "done_closed (manager s)"; cases "conn (manager s)") (auto simp: goroutine_simps lock_def intro!: exI)
next
  case (AttemptDial b)
  have "goroutine asks g s (LoopSelect (next_backoff (config (manager s)) b)) s []"
    unfolding AttemptDial by (rule goroutine.attempt_dial_fails)
  moreover have "\<not> tick g (LoopSelect b')" for b' using AttemptDial by simp
  ultimately show ?thesis by blast
qed (use assms in \<open>auto simp: goroutine_simps lock_def intro!: exI\<close>)

lemma quiet_step_possible:
  assumes "unblocked asks (s, gs)" and "g \<in> set gs" and "g \<noteq> Finished"
  shows "\<exists>w'. quiet_step asks (s, gs) w'"
proof -
  have "\<exists>h \<in> set gs. (holds h \<or> \<not> mu (manager s)) \<and> h \<noteq> Finished"
  proof (cases "mu (manager s)")
    case True
    with assms(1) have "filter holds gs \<noteq> []" by (auto simp: unblocked_def excl_def holders_def)
    then obtain h where "h \<in> set gs" "holds h" by (auto simp: filter_empty_conv)
    then show ?thesis by (cases h) auto
  qed (use assms in blast)
  then obtain i where i: "i < length gs" "holds (gs ! i) \<or> \<not> mu (manager s)" "gs ! i \<noteq> Finished"
    by (metis in_set_conv_nth)
  have "ended (manager s)" "\<not> (asks \<and> connecting (gs ! i))"
    using assms(1) i(1) by (auto simp: unblocked_def)
  with goroutine_moves [OF i(2) _ i(3)] i(1) show ?thesis by (blast intro: quiet_step.quiet)
qed

lemma ended_step: "world_step asks w w' \<Longrightarrow> ended (manager (fst w)) \<Longrightarrow> ended (manager (fst w'))"
proof (induction rule: world_step.induct)
  case (run i gs s g s' new)
  from run.hyps(2) run.prems show ?case
    by cases (auto simp: ended_def lock_def unlock_def established_def split: if_splits)
qed simp

lemma goroutine_connecting:
  "goroutine asks g s g' s' new \<Longrightarrow> (connecting g' \<longrightarrow> connecting g) \<and> (\<forall>h \<in> set new. \<not> connecting h)"
  by (erule goroutine_from) (auto split: if_splits)

lemma quiet_unblocked:
  assumes "quiet_step asks w w'" and "unblocked asks w"
  shows "unblocked asks w'"
proof -
  have "\<forall>g \<in> set (snd w'). \<not> connecting g" if "\<forall>g \<in> set (snd w). \<not> connecting g"
    using assms(1)
  proof cases
    case (quiet i gs s g s' new)
    then have "\<not> connecting g" "\<forall>h \<in> set new. \<not> connecting h"
      using goroutine_connecting [OF quiet(4)] that by auto
    then show ?thesis using quiet(1,2) that set_update_subset_insert [of gs i g] by auto
  qed
  then show ?thesis
    using assms quiet_is_step [OF assms(1)] by (auto simp: unblocked_def intro: excl_step ended_step)
qed

lemma quiet_run_unblocked:
  assumes "(quiet_step asks)\<^sup>*\<^sup>* w w'" and "unblocked asks w"
  shows "unblocked asks w'"
  using assms by (induction rule: rtranclp_induct) (auto intro: quiet_unblocked)

lemma quiet_stuck_finished:
  assumes "unblocked asks w" and "\<nexists>w'. quiet_step asks w w'"
  shows "\<forall>g \<in> set (snd w). g = Finished"
  using quiet_step_possible [of asks "fst w" "snd w"] assms by auto

lemma quiet_run_finishes:
  assumes "unblocked asks w"
  shows "\<exists>w'. (quiet_step asks)\<^sup>*\<^sup>* w w' \<and> (\<forall>g \<in> set (snd w'). g = Finished)"
  using assms
proof (induction w rule: measure_induct_rule [of work_left])
  case (less w)
  show ?case
  proof (cases "\<exists>w'. quiet_step asks w w'")
    case True
    then obtain v where v: "quiet_step asks w v" by blast
    from less.IH [OF quiet_work [OF v] quiet_unblocked [OF v less.prems]] v show ?thesis
      by (meson converse_rtranclp_into_rtranclp)
  next
    case False
    with quiet_stuck_finished less.prems show ?thesis by blast
  qed
qed

section \<open>One goroutine alone\<close>

text \<open>A goroutine that runs alone from the start of a method to its end does what the method's function says.\<close>

definition solo :: "bool \<Rightarrow> 'c Goroutine \<times> 'c Shared \<Rightarrow> 'c Goroutine \<times> 'c Shared \<Rightarrow> bool" where
  "solo asks x y \<longleftrightarrow> goroutine asks (fst x) (snd x) (fst y) (snd y) []"

lemma solo_step: "goroutine asks g s g' s' [] \<Longrightarrow> (solo asks)\<^sup>*\<^sup>* (g', s') z \<Longrightarrow> (solo asks)\<^sup>*\<^sup>* (g, s) z"
  by (rule converse_rtranclp_into_rtranclp) (simp_all add: solo_def)

lemma solo_last: "goroutine asks g s g' s' [] \<Longrightarrow> (solo asks)\<^sup>*\<^sup>* (g, s) (g', s')"
  by (rule r_into_rtranclp) (simp add: solo_def)

lemma solo_attempt_dialled:
  assumes "\<not> mu (manager s)" and "\<not> exhausted (manager s)" and "c \<notin> dialled s"
  shows "\<exists>s'. (solo asks)\<^sup>*\<^sup>* (AttemptEnter b, s) (AttemptCallback b, s') \<and> manager s' = established c now (manager s)"
proof (intro exI conjI)
  let ?s1 = "with_manager (\<lambda>sm. sm\<lparr>retryCount := retryCount sm + 1\<rparr>) s"
  show "(solo asks)\<^sup>*\<^sup>* (AttemptEnter b, s) (AttemptCallback b, with_manager (established c now) (add_connection c ?s1))"
    by (rule solo_step [OF goroutine.attempt_counts] solo_step [OF goroutine.pause_over]
        solo_step [OF goroutine.attempt_dials [of c]] solo_last [OF goroutine.attempt_connects] | simp add: assms)+
qed (simp add: established_def)

lemma solo_attempt_finishes:
  assumes "\<not> mu (manager s)" and "isConnected (manager s)"
  shows "\<exists>s'. (solo asks)\<^sup>*\<^sup>* (AttemptCallback b, s) (LoopSelect (InitialBackoff (config (manager s))), s') \<and>
    manager s' = (manager s)\<lparr>isConnected := ok\<rparr>"
proof (cases ok)
  case True
  then have "(manager s)\<lparr>isConnected := ok\<rparr> = manager s" using assms(2) by (cases "manager s") simp
  moreover have "(solo asks)\<^sup>*\<^sup>* (AttemptCallback b, s) (LoopSelect (InitialBackoff (config (manager s))), s)"
    by (rule solo_last [OF goroutine.attempt_returns]) (simp add: assms)
  ultimately show ?thesis by metis
next
  case False
  have "(solo asks)\<^sup>*\<^sup>* (AttemptCallback b, s)
      (LoopSelect (InitialBackoff (config (manager s))), with_manager (\<lambda>sm. sm\<lparr>isConnected := False\<rparr>) s)"
    using assms by (intro solo_step [OF goroutine.attempt_callback_fails] solo_last [OF goroutine.attempt_marks]) simp_all
  then show ?thesis using False by (metis with_manager_simps(1))
qed

context stream_client
begin

lemma attempt_solo:
  assumes "\<not> mu (manager s)" and "attemptReconnect cb timer dial now (manager s, u) b = Some ((sm', u'), b')"
    and "timer \<or> ended (manager s)" and "\<And>c. dial = Inr c \<Longrightarrow> c \<notin> dialled s"
  shows "\<exists>s'. (solo asks)\<^sup>*\<^sup>* (AttemptEnter b, s) (LoopSelect b', s') \<and> manager s' = sm'"
proof (cases "exhausted (manager s)")
  case True
  with attempt_exhausted [OF assms(1) True, of timer dial now u b] assms(2) have "sm' = manager s" "b' = b" by auto
  with solo_last [OF goroutine.attempt_gives_up [OF assms(1) True]] show ?thesis by blast
next
  case free: False
  let ?s = "with_manager (\<lambda>sm. sm\<lparr>retryCount := retryCount sm + 1\<rparr>) s"
  note counted = goroutine.attempt_counts [OF assms(1) free]
  show ?thesis
  proof (cases "timer \<and> (\<exists>c. dial = Inr c)")
    case True
    then obtain c where c: "timer" "dial = Inr c" by blast
    from attempt_success [OF assms(1) free, of c now u b] obtain res :: "error option" and v where
      "attemptReconnect cb True (Inr c) now (manager s, u) b =
        Some (((established c now (manager s))\<lparr>isConnected := (res = None)\<rparr>, v), InitialBackoff (config (manager s)))"
      by blast
    with assms(2) c have sm: "sm' = (established c now (manager s))\<lparr>isConnected := (res = None)\<rparr>"
      "b' = InitialBackoff (config (manager s))" by simp_all
    from solo_attempt_dialled [OF assms(1) free assms(4) [OF c(2)], of asks b now] obtain s1 where
      s1: "(solo asks)\<^sup>*\<^sup>* (AttemptEnter b, s) (AttemptCallback b, s1)" "manager s1 = established c now (manager s)"
      by blast
    with assms(1) have "\<not> mu (manager s1)" "isConnected (manager s1)" by (simp_all add: established_def)
    from solo_attempt_finishes [OF this, of asks b "res = None"] obtain s2 where
      s2: "(solo asks)\<^sup>*\<^sup>* (AttemptCallback b, s1) (LoopSelect (InitialBackoff (config (manager s1))), s2)"
        "manager s2 = (manager s1)\<lparr>isConnected := (res = None)\<rparr>" by blast
    have "InitialBackoff (config (manager s1)) = b'" using s1(2) sm(2) by (simp add: established_def)
    with rtranclp_trans [OF s1(1) s2(1)] s1(2) s2(2) sm(1) show ?thesis by metis
  next
    case False
    then obtain err where no: "\<not> timer \<or> dial = Inl err" by (cases dial) auto
    from attempt_no_connection [OF assms(1) free no, of now u b] assms(2) have
      sm: "manager ?s = sm'" "b' = (if timer then next_backoff (config (manager s)) b else b)" by auto
    have "(solo asks)\<^sup>*\<^sup>* (AttemptPause b, ?s) (LoopSelect b', ?s)"
    proof (cases timer)
      case True
      with sm(2) have "b' = next_backoff (config (manager ?s)) b" by simp
      then show ?thesis
        using solo_step [OF goroutine.pause_over solo_last [OF goroutine.attempt_dial_fails]] by blast
    next
      case False
      with assms(3) have "ended (manager ?s)" by (simp add: ended_def)
      with False sm(2) show ?thesis by (simp add: solo_last [OF goroutine.pause_ended])
    qed
    from solo_step [OF counted this] sm(1) show ?thesis by blast
  qed
qed

end

lemma close_solo:
  assumes "\<not> mu (manager s)" and "StreamManager_Close out (manager s) = Some (err, sm')"
  shows "\<exists>s'. (solo asks)\<^sup>*\<^sup>* (CloseEnter, s) (Finished, s') \<and> manager s' = sm'"
proof (cases "done_closed (manager s)")
  case True
  with assms have "sm' = manager s" by (auto simp: StreamManager_Close_def lock_simps)
  with solo_last [OF goroutine.close_again [OF assms(1) True]] show ?thesis by blast
next
  case open_: False
  show ?thesis
  proof (cases "conn (manager s)")
    case None
    with solo_last [OF goroutine.close_unconnected [OF assms(1) open_ None]] assms open_ show ?thesis
      by (intro exI conjI) (assumption, auto simp: StreamManager_Close_def lock_simps Let_def)
  next
    case (Some c)
    have l: "lock (manager s) = Some ((manager s)\<lparr>mu := True\<rparr>)" using assms(1) by (simp add: lock_def)
    note locked = goroutine.close_locks [OF l]
    show ?thesis
    proof (cases out)
      case (Closed e)
      with Some assms open_ solo_step [OF locked solo_last [OF goroutine.close_closes]] show ?thesis
        by (intro exI conjI) (auto simp: StreamManager_Close_def lock_simps Let_def)
    next
      case ClosePanic
      with Some assms open_ solo_step [OF locked solo_last [OF goroutine.close_panics]] show ?thesis
        by (intro exI conjI) (auto simp: StreamManager_Close_def lock_simps Let_def)
    qed
  qed
qed

section \<open>Sample runs\<close>

lemma reach_call: "world_reach asks cfg (s, gs) \<Longrightarrow> g \<in> calls \<Longrightarrow> world_reach asks cfg (s, gs @ [g])"
  unfolding world_reach_def by (rule rtranclp.rtrancl_into_rtrancl) (auto intro: world_step.call)

lemma reach_run:
  assumes "world_reach asks cfg (s, gs)" and "i < length gs" and "goroutine asks (gs ! i) s g s' new"
  shows "world_reach asks cfg (s', gs[i := g] @ new)"
  using assms(1) world_step.run [OF assms(2,3)] unfolding world_reach_def by (rule rtranclp.rtrancl_into_rtrancl)

definition sample_stream :: "nat StreamManager" where
  "sample_stream = NewStreamManager DefaultStreamConfig"

lemma sample_stream_simps [simp]:
  "config sample_stream = DefaultStreamConfig" "\<not> mu sample_stream" "conn sample_stream = None"
  "\<not> isConnected sample_stream" "retryCount sample_stream = 0" "\<not> done_closed sample_stream"
  "\<not> ctx_done sample_stream" "loops sample_stream = 0"
  by (simp_all add: sample_stream_def NewStreamManager_def)

lemma sample_initial [simp]: "InitialBackoff DefaultStreamConfig = 100000000"
  by (simp add: DefaultStreamConfig_def)

lemma sample_unlimited [simp]: "config sm = DefaultStreamConfig \<Longrightarrow> \<not> exhausted sm"
  by (simp add: exhausted_def DefaultStreamConfig_def)

definition sample_dialled :: "nat Shared" where
  "sample_dialled = \<lparr>manager = (established 0 5 sample_stream)\<lparr>mu := True\<rparr>, opened = {0}, dialled = {0}\<rparr>"

text \<open>\<^verbatim>\<open>Connect\<close> has dialled and calls back.\<close>

lemma sample_calling_back: "world_reach asks DefaultStreamConfig (sample_dialled, [ConnectCallback])"
proof -
  let ?s0 = "\<lparr>manager = sample_stream, opened = {}, dialled = {}\<rparr>"
  have "world_reach asks DefaultStreamConfig (?s0, [])"
    by (simp add: world_reach_def world0_def sample_stream_def)
  from reach_call [OF this, of ConnectEnter] have "world_reach asks DefaultStreamConfig (?s0, [ConnectEnter])"
    by (simp add: calls_def)
  from reach_run [OF this, of 0, simplified, OF goroutine.connect_locks]
  have "world_reach asks DefaultStreamConfig (?s0\<lparr>manager := sample_stream\<lparr>mu := True\<rparr>\<rparr>, [ConnectDial])"
    by (simp add: lock_def with_manager_def)
  from reach_run [OF this, of 0, simplified, OF goroutine.connect_dials [of 0 _ _ 5]] show ?thesis
    by (simp add: sample_dialled_def established_def with_manager_def add_connection_def sample_stream_def
        NewStreamManager_def)
qed

text \<open>The manager was marked disconnected, is dialling again, and is being closed meanwhile.\<close>

definition sample_closing :: "nat Shared" where
  "sample_closing = \<lparr>manager = (established 0 5 sample_stream)\<lparr>isConnected := False, retryCount := 1, loops := 1,
       conn := None, done_closed := True, ctx_done := True\<rparr>, opened = {}, dialled = {0}\<rparr>"

lemma sample_closed_while_dialling:
  "world_reach False DefaultStreamConfig (sample_closing, [Finished, AttemptDial 100000000, Finished, Finished])"
proof -
  let ?c = DefaultStreamConfig and ?b = "100000000 :: goint"
  let ?m1 = "(established 0 5 sample_stream)\<lparr>loops := 1\<rparr>"
  let ?m2 = "?m1\<lparr>isConnected := False\<rparr>"
  let ?m3 = "?m2\<lparr>retryCount := 1\<rparr>"
  let ?m4 = "?m3\<lparr>mu := True, done_closed := True, ctx_done := True\<rparr>"
  let ?s = "\<lambda>m. \<lparr>manager = m, opened = {0 :: nat}, dialled = {0}\<rparr>"
  note st = established_def with_manager_def unlock_def sample_stream_def NewStreamManager_def
  from reach_run [OF sample_calling_back [of False], of 0, simplified, OF goroutine.connect_returns]
  have "world_reach False ?c (?s ?m1, [Finished, LoopSelect ?b])"
    by (simp add: sample_dialled_def st)
  from reach_call [OF this, of MarkEnter] have "world_reach False ?c (?s ?m1, [Finished, LoopSelect ?b, MarkEnter])"
    by (simp add: calls_def)
  from reach_run [OF this, of 2, simplified, OF goroutine.client_marks]
  have "world_reach False ?c (?s ?m2, [Finished, LoopSelect ?b, Finished])" by (simp add: st)
  from reach_run [OF this, of 1, simplified, OF goroutine.loop_tick]
  have "world_reach False ?c (?s ?m2, [Finished, LoopCheck ?b, Finished])" by simp
  from reach_run [OF this, of 1, simplified, OF goroutine.loop_checks]
  have "world_reach False ?c (?s ?m2, [Finished, AttemptEnter ?b, Finished])" by (simp add: st)
  from reach_run [OF this, of 1, simplified, OF goroutine.attempt_counts]
  have "world_reach False ?c (?s ?m3, [Finished, AttemptPause ?b, Finished])" by (simp add: st)
  from reach_run [OF this, of 1, simplified, OF goroutine.pause_over]
  have "world_reach False ?c (?s ?m3, [Finished, AttemptDial ?b, Finished])" by simp
  from reach_call [OF this, of CloseEnter]
  have "world_reach False ?c (?s ?m3, [Finished, AttemptDial ?b, Finished, CloseEnter])" by (simp add: calls_def)
  from reach_run [OF this, of 3, simplified, OF goroutine.close_locks [of _ "?m3\<lparr>mu := True\<rparr>" 0]]
  have "world_reach False ?c (?s ?m4, [Finished, AttemptDial ?b, Finished, CloseConn 0])"
    by (simp add: st lock_def)
  from reach_run [OF this, of 3, simplified, OF goroutine.close_closes] show ?thesis
    by (simp add: st sample_closing_def)
qed

section \<open>Properties\<close>

text \<open>The lock of the manager excludes: with any number of goroutines calling its methods at any time, at most one
  is inside the write lock, and it is locked exactly when one is.\<close>
lemma manager_mutual_exclusion:
  assumes "world_reach asks cfg (s, gs)"
  shows "length (filter holds gs) = (if mu (manager s) then 1 else 0)"
  using excl_reach [OF assms] by (simp add: excl_def holders_def)

text \<open>C18: connections are lost: of all connections ever dialled at most one is closed, however often the manager
  reconnects, since a new connection replaces the old one without closing it; and once \<^verbatim>\<open>Close\<close> has
  returned none is closed any more, not even one whose dial was under way.\<close>
theorem connections_never_closed:
  assumes "world_reach asks cfg w" and "(world_step asks)\<^sup>*\<^sup>* w w'"
  shows "(\<exists>c. dialled (fst w) \<subseteq> insert c (opened (fst w))) \<and>
    (done_closed (manager (fst w)) \<and> (\<forall>c. CloseConn c \<notin> set (snd w)) \<longrightarrow> opened (fst w) \<subseteq> opened (fst w'))"
  using conn_inv_reach [OF assms(1)] closed_keeps_connections [OF assms(2) excl_reach [OF assms(1)]]
  by (auto simp: conn_inv_def)

theorem connections_never_closed_witness:
  "\<exists>s. (world_step False)\<^sup>*\<^sup>* (sample_closing, [Finished, AttemptDial 100000000, Finished, Finished])
        (s, [Finished, AttemptCallback 100000000, Finished, Finished]) \<and>
      done_closed (manager s) \<and> conn (manager s) = Some 1 \<and>
      (\<nexists>w'. (world_step False)\<^sup>*\<^sup>* (s, [Finished, AttemptCallback 100000000, Finished, Finished]) w' \<and>
         1 \<notin> opened (fst w'))"
proof -
  let ?s = "with_manager (established 1 9) (add_connection 1 sample_closing)"
  let ?w = "(?s, [Finished, AttemptCallback 100000000, Finished, Finished])"
  have free: "\<not> mu (manager sample_closing)" "1 \<notin> dialled sample_closing"
    by (simp_all add: sample_closing_def established_def)
  have "world_step False (sample_closing, [Finished, AttemptDial 100000000, Finished, Finished])
      (add_connection 1 sample_closing, [Finished, AttemptDialled 100000000 1, Finished, Finished])"
    using world_step.run [of 1 "[Finished, AttemptDial 100000000, Finished, Finished]", simplified,
        OF goroutine.attempt_dials [OF free(2)]] by simp
  moreover have "world_step False
      (add_connection 1 sample_closing, [Finished, AttemptDialled 100000000 1, Finished, Finished]) ?w"
    using world_step.run [of 1 "[Finished, AttemptDialled 100000000 1, Finished, Finished]", simplified,
        OF goroutine.attempt_connects [of "add_connection 1 sample_closing"]] free by simp
  ultimately have run: "(world_step False)\<^sup>*\<^sup>* (sample_closing, [Finished, AttemptDial 100000000, Finished, Finished]) ?w"
    by (meson converse_rtranclp_into_rtranclp r_into_rtranclp)
  with sample_closed_while_dialling have reach: "world_reach False DefaultStreamConfig ?w"
    unfolding world_reach_def by (rule rtranclp_trans)
  have closed: "done_closed (manager ?s)" "conn (manager ?s) = Some 1" "1 \<in> opened ?s"
    by (simp_all add: sample_closing_def established_def)
  have "1 \<in> opened (fst w')" if "(world_step False)\<^sup>*\<^sup>* ?w w'" for w'
    using connections_never_closed [OF reach that] closed by auto
  with run closed show ?thesis by blast
qed

text \<open>C19: a callback that asks the manager for its connection, as the worker's does, blocks every goroutine that needs
  the lock, and forever: \<^verbatim>\<open>Connect\<close> stays in the callback, and no call of \<^verbatim>\<open>Close\<close>, \<^verbatim>\<open>IsConnected\<close>,
  \<^verbatim>\<open>MarkDisconnected\<close> or a second \<^verbatim>\<open>Connect\<close> ever returns, whatever other goroutines do.\<close>
theorem callback_deadlock:
  assumes "world_reach True cfg (s, gs)" and "i < length gs" and "gs ! i = ConnectCallback"
    and "(world_step True)\<^sup>*\<^sup>* (s, gs) (s', gs')"
  shows "mu (manager s') \<and> gs' ! i = ConnectCallback \<and> (\<forall>j < length gs. waits (gs ! j) \<longrightarrow> gs' ! j = gs ! j)"
proof -
  note run = deadlock_run [OF assms(4) excl_reach [OF assms(1)] assms(2,3)]
  moreover have "ConnectCallback \<in> set gs'" using run assms(2) by (metis nth_mem order.strict_trans2)
  ultimately show ?thesis using excl_holder_locked [of s' gs' ConnectCallback] by simp
qed

theorem callback_deadlock_witness:
  "world_reach True DefaultStreamConfig (sample_dialled, [ConnectCallback, CloseEnter]) \<and>
   (\<nexists>s' gs'. (world_step True)\<^sup>*\<^sup>* (sample_dialled, [ConnectCallback, CloseEnter]) (s', gs') \<and> gs' ! 1 \<noteq> CloseEnter)"
proof -
  have reach: "world_reach True DefaultStreamConfig (sample_dialled, [ConnectCallback, CloseEnter])"
    using reach_call [OF sample_calling_back, of CloseEnter] by (simp add: calls_def)
  have "gs' ! 1 = CloseEnter"
    if "(world_step True)\<^sup>*\<^sup>* (sample_dialled, [ConnectCallback, CloseEnter]) (s', gs')" for s' gs'
    using callback_deadlock [OF reach, of 0, OF _ _ that] by simp
  with reach show ?thesis by blast
qed

text \<open>C17: after \<^verbatim>\<open>Close\<close> the goroutines end, provided that no \<^verbatim>\<open>Connect\<close> is under way when the client's callback asks
  the manager for its connection (as the worker's does: then \<^verbatim>\<open>Connect\<close> can block forever). They make at most
  \<open>work_left\<close> further steps between ticks of the reconnection timers and new calls, they can always run to
  their end, and a state in which none of them can go on is one in which all have finished.\<close>
theorem closed_manager_terminates:
  assumes "world_reach asks cfg w" and "done_closed (manager (fst w))"
    and "asks \<longrightarrow> (\<forall>g \<in> set (snd w). \<not> connecting g)"
  shows "(\<forall>n w'. (quiet_step asks ^^ n) w w' \<longrightarrow> n \<le> work_left w) \<and>
    (\<exists>w'. (quiet_step asks)\<^sup>*\<^sup>* w w' \<and> (\<forall>g \<in> set (snd w'). g = Finished)) \<and>
    (\<forall>w'. (quiet_step asks)\<^sup>*\<^sup>* w w' \<and> (\<nexists>w''. quiet_step asks w' w'') \<longrightarrow> (\<forall>g \<in> set (snd w'). g = Finished))"
proof -
  have inv: "unblocked asks w" using excl_reach [OF assms(1)] assms(2,3) by (simp add: unblocked_def ended_def)
  have "n \<le> work_left w" if "(quiet_step asks ^^ n) w w'" for n w'
    using quiet_run_bounded [OF that] by simp
  moreover have "\<forall>g \<in> set (snd w'). g = Finished"
    if "(quiet_step asks)\<^sup>*\<^sup>* w w'" "\<nexists>w''. quiet_step asks w' w''" for w'
    by (rule quiet_stuck_finished [OF quiet_run_unblocked [OF that(1) inv] that(2)])
  ultimately show ?thesis using quiet_run_finishes [OF inv] by blast
qed

theorem closed_manager_terminates_witness:
  "\<exists>w'. (quiet_step False)\<^sup>*\<^sup>* (sample_closing, [Finished, AttemptDial 100000000, Finished, Finished]) w' \<and>
     set (snd w') \<subseteq> {Finished}"
  using closed_manager_terminates [OF sample_closed_while_dialling] by (simp add: sample_closing_def) blast

text \<open>The interleaved model contains the functions of the single goroutine: with the worker's callbacks, whatever an
  attempt to reconnect and a close do on their own is what their goroutine does when it runs alone.\<close>
lemma methods_are_solo_runs:
  assumes "\<not> mu (manager s)"
  shows "(attemptReconnect (worker_callbacks open_stream send) timer dial now (manager s, u) b = Some ((sm', u'), b') \<and>
      (timer \<or> ended (manager s)) \<and> (\<forall>c. dial = Inr c \<longrightarrow> c \<notin> dialled s) \<longrightarrow>
      (\<exists>s'. (solo asks)\<^sup>*\<^sup>* (AttemptEnter b, s) (LoopSelect b', s') \<and> manager s' = sm')) \<and>
    (StreamManager_Close out (manager s) = Some (err, sm1) \<longrightarrow>
      (\<exists>s'. (solo asks)\<^sup>*\<^sup>* (CloseEnter, s) (Finished, s') \<and> manager s' = sm1))"
  using wk.attempt_solo [OF assms] close_solo [OF assms] by blast

end
