(* ===== verification/Spec2Isabelle.thy ===== *)
theory Spec2Isabelle
  imports Engine_Races Slices_Properties End_To_End Grpc_Dispatch Wal_Json Swagger_Doc Stream_Goroutines
begin

text \<open>
  Verification of the Ortrix workflow orchestrator (Go, under \<^verbatim>\<open>src/\<close>).

  \<^bold>\<open>The program.\<close> Clients submit tasks to a gateway and ask for their status. The execution engine keeps
  every task in memory, moves it from state to state and logs each move to a write-ahead log
  before it applies it; a partition manager assigns each task to one of a fixed number of partitions
  and each partition to a node. Workers embed an SDK that keeps a stream to the orchestrator open,
  runs the registered handlers on the tasks it receives and sends the results back.

  \<^bold>\<open>Theories and what they model.\<close>
    \<^item> \<open>Go_Prelude\<close>: the Go types in use (strings, byte slices, 64-bit integers as words, time, errors as
      texts, panics, maps and the open order of ranging over them), decimal formatting, and shared lemmas.
      \<open>Go_Float\<close>: rounding of \<^verbatim>\<open>float64\<close> arithmetic, for the pauses of the stream manager. \<open>Go_Json\<close>: the syntax and the
      strings of \<^verbatim>\<open>encoding/json\<close>, with a printer and a parser; \<open>Go_Encoding\<close>: base64, RFC 3339 times, and the decoding
      of JSON values into Go values.
    \<^item> \<open>Task_Model\<close>: \<^verbatim>\<open>internal/task/state.go\<close> and \<^verbatim>\<open>task.go\<close>. The relation \<open>transition\<close> restates the code's
      table; the separate checks of the code agree, and the invariant of a task holds over its life.
    \<^item> \<open>Wal_Log\<close>: \<^verbatim>\<open>internal/wal/wal.go\<close>, the \<^verbatim>\<open>Logger\<close> interface as a record of methods, both loggers, and the
      contracts \<open>wal_logger\<close> and \<open>durable_wal\<close> that the loggers are shown to meet. \<open>Wal_Json\<close>: \<^verbatim>\<open>EntryToJSON\<close> and
      \<^verbatim>\<open>EntryFromJSON\<close>.
    \<^item> \<open>Partition_Manager\<close>: \<^verbatim>\<open>internal/partition/partition.go\<close> with the FNV-1a hash, the contract
      \<open>partition_manager\<close>, ownership and balance for every order of the node map.
    \<^item> \<open>Execution_Engine\<close>: \<^verbatim>\<open>internal/executor/executor.go\<close> over a heap of task objects, since the engine hands
      out pointers. \<open>Engine_Correct\<close> joins the contracts of log and partitions in the locale \<open>engine_env\<close>,
      proves the effect of every operation, the invariant \<open>engine_inv\<close>, and that a run (\<open>engine_run\<close>, all calls with the
      identifiers they generate) in which no identifier is generated twice is a run of the task registry \<open>spec_step\<close>. \<open>Engine_Wal\<close> adds the durable log: the entries determine the states.
      \<open>Engine_Properties\<close>, \<open>Engine_Queries\<close> and \<open>Engine_Recovery\<close> state the results for the engine as the program
      builds it, with concrete engines as witnesses. \<open>Engine_Races\<close> splits the queries where they release
      the mutex, and a copy and a transition into their reads and writes.
    \<^item> \<open>Slice_Memory\<close>: byte slices as references into arrays, with \<^verbatim>\<open>make\<close>, \<^verbatim>\<open>copy\<close> and assignment. \<open>Engine_Slices\<close>: task, log and
      engine over them, so that it is visible which slices share an array. \<open>Slices_Refine\<close>: reading the slices turns every
      operation into the one of \<open>Execution_Engine\<close>, for any log that meets the contract \<open>slice_logger\<close>.
      \<open>Slices_Properties\<close>: runs with callers that write to memory.
    \<^item> \<open>Proto_Messages\<close>: the messages of \<^verbatim>\<open>api/proto/ortrix.pb.go\<close>, their zero values, \<^verbatim>\<open>Reset\<close> and getters. \<open>Grpc_Dispatch\<close>:
      \<^verbatim>\<open>ortrix_grpc.pb.go\<close>, servers, handlers, service descriptions and client stubs, over the runtime as a parameter; the names, the refusal of requests that cannot be decoded, and the stream served.
    \<^item> \<open>Gateway_Service\<close>: \<^verbatim>\<open>internal/gateway/gateway.go\<close> over the engine; its reliance on the engine is the locale
      \<open>task_store\<close>, interpreted on the engine. \<open>Gateway_Server\<close>: the handlers and routes of \<^verbatim>\<open>cmd/gateway\<close>.
      \<open>Rest_Api\<close>: the JSON text of its requests and responses. \<open>Swagger_Doc\<close>: the API document of
      \<^verbatim>\<open>docs/swagger/docs.go\<close>. \<open>Server_Processes\<close>: both \<^verbatim>\<open>main\<close> functions as step relations of their goroutines, from the
      configuration to the exit, and \<^verbatim>\<open>internal/logging\<close>.
      \<open>Orchestrator_Server\<close>: the stream loop of \<^verbatim>\<open>cmd/orchestrator/handler.go\<close> and the placeholders of
      \<^verbatim>\<open>internal/scheduler\<close> and \<^verbatim>\<open>internal/routing\<close>. \<open>Configuration\<close>: \<^verbatim>\<open>internal/config/config.go\<close>.
    \<^item> \<open>Stream_Manager\<close>: \<^verbatim>\<open>internal/streaming/stream.go\<close> with its lock as part of the state, and the contract
      \<open>stream_client\<close> of the callbacks. \<open>Worker_Sdk\<close> and \<open>Worker_Properties\<close>: \<^verbatim>\<open>pkg/sdk/worker.go\<close>, whose callbacks meet
      that contract when they are called without the lock. \<open>Stream_Goroutines\<close>: the manager with any number of
      goroutines, each method cut at its lock and its waits.
    \<^item> \<open>End_To_End\<close>: gateway, engine and worker together, from the submission of a task to its reported result.

  \<^bold>\<open>How code becomes definitions.\<close> A method is a function of the same name that takes the receiver's state and
  returns the result and the state afterwards; a name that two types share carries the type's name
  (\<^verbatim>\<open>(l *InMemoryLogger) Append\<close> is \<open>InMemoryLogger_Append\<close>). An error result is a value of \<open>error + 'a\<close>, a panic is
  \<open>Panic\<close>, waiting forever for a lock is \<open>None\<close>. Time, the order of ranging over a map, and the outcomes of gRPC
  calls and timers are arguments. Loops over a stream or a timer are recursions over the list of
  what they receive, so no fuel is needed; every other loop is structural. Only the JSON parser takes fuel, and more
  than twice the length of the text changes nothing (\<open>parse_fuel\<close>). Goroutines that interleave are step relations
  (\<open>world_step\<close>, \<open>gateway_step\<close>, \<open>orchestrator_step\<close>) with invariants by rule induction. Packages outside the repository
  (gRPC, logrus, the template engine) are parameters with named hypotheses.

  \<^bold>\<open>What is shown.\<close> For runs in which no two creations generate the same identifier: the engine implements the
  registry and its invariant holds; terminal tasks are immutable and tasks move only along accepted transitions; the log
  determines the states of all tasks until it is closed. Each operation is specified on every branch, the
  queries exactly; replay and checkpoint do what they say; the checks of the state machine agree;
  every partition has an owner, the ownership queries agree and the load is even up to one; submissions, results and
  status calls agree, and a task goes all the way from its submission to the result its client reads; the worker answers
  each task once; failing dials are limited, with growing pauses, and after a close the goroutines of the manager end
  unless a callback that asks the manager is inside \<^verbatim>\<open>Connect\<close>; log entries survive their JSON text; the served API
  document describes every answer of the REST handlers. Over slices, the copies that are returned share no array with the
  engine, and with callers that keep off the engine's arrays the results on values hold unchanged. Some results describe
  defects: a start that waits forever for its own lock, so that no worker ever works, and keeps the worker from ever
  stopping; connections that nobody closes; failing callbacks that the limit of attempts does not cover; tasks that
  \<^verbatim>\<open>CanRetry\<close> names and that cannot move; entries that a closed log accepts and does not replay; a payload
  buffer that its caller can still change inside a task and its log entry; state written before a refused log entry;
  identifiers that can collide; a gateway that ends with requests in flight.

  \<^bold>\<open>Limits.\<close> \<^verbatim>\<open>CreateTask\<close> takes a task's identifier from the workflow and the clock and does not check that it is
  unused; no property of the clock is assumed, so the statements on whole runs have the condition \<open>distinct (created_ids evs)\<close>,
  those on one step from a reachable engine (\<open>engine_reach\<close>) speak of engines reached without a repeated identifier and
  without \<^verbatim>\<open>Close\<close>, and \<open>create_collision_overwrites\<close> shows what happens otherwise. The engine's writing operations are atomic, as they are under its mutex; the copies that its queries take
  after releasing the mutex are taken in the state of the lookup, except in \<open>Engine_Races\<close>. The functions of \<open>Stream_Manager\<close>
  run one goroutine at a time; \<open>Stream_Goroutines\<close> interleaves them and contains those functions as runs of one goroutine.
  The error texts of \<^verbatim>\<open>encoding/json\<close> and \<^verbatim>\<open>time\<close> are not modelled, only whether there is an error; an array for a byte slice
  that is given three times under the same key may show older bytes in Go. Sequence numbers are 64-bit words;
  the statements on replay assume fewer than \<open>2 ^ 64\<close> entries.

  Task objects and slices are followed as references, time cells are values: nothing writes through a
  \<^verbatim>\<open>*time.Time\<close>. The code has no step yet that puts a task on a worker's stream; \<open>End_To_End\<close> gives it explicitly. When the
  gRPC server stops is a parameter of the processes, with what its documentation promises as one hypothesis (\<open>graceful\<close>)
  and the waiting of \<^verbatim>\<open>Serve\<close>, which it does not promise, as another (\<open>serve_waits\<close>).

  \<^bold>\<open>Not modelled.\<close> Log output, sockets, the Swagger pages, and what the generated code only forwards to the protobuf
  runtime: reflection, descriptors and the wire format.

  \<^bold>\<open>Plan.\<close> Next: the goroutines a worker starts for each stream, once \<^verbatim>\<open>Start\<close> can return and reach them.
\<close>

end
